(* ===== verification/Prelude.thy ===== *)
theory Prelude
  imports Main "HOL-Library.AList"
begin

text \<open>
  Shared vocabulary of the development.

  Go computations that can panic (a nil pointer dereference, an index out of range)
  return a value of type \<open>'a go\<close>, the sum of a \<open>panic\<close> and a result, and are
  composed with \<open>go_bind\<close>. A pointer of the source is an \<open>option\<close> and reading
  through it is \<open>deref\<close>. Go maps are association lists with distinct keys
  (\<open>AList.update\<close>, \<open>AList.delete\<close>, \<open>map_of\<close>). The theorem collections gather the facts
  that the components share.
\<close>

named_theorems go_simps \<open>evaluation of computations that may panic\<close>
named_theorems str_simps \<open>facts about Go string operations\<close>
named_theorems usm_simps \<open>behaviour of the session manager\<close>
named_theorems authz_simps \<open>authorisation data and permission checks\<close>

section \<open>Computations that may panic\<close>

datatype panic = NilDeref | IndexOutOfRange

type_synonym 'a go = "panic + 'a"

definition go_bind :: "'a go \<Rightarrow> ('a \<Rightarrow> 'b go) \<Rightarrow> 'b go" where
  "go_bind m f = (case m of Inl p \<Rightarrow> Inl p | Inr x \<Rightarrow> f x)"

definition deref :: "'a option \<Rightarrow> 'a go" where
  "deref p = (case p of None \<Rightarrow> Inl NilDeref | Some x \<Rightarrow> Inr x)"

definition index_go :: "'a list \<Rightarrow> nat \<Rightarrow> 'a go" where
  "index_go xs i = (if i < length xs then Inr (xs ! i) else Inl IndexOutOfRange)"

fun go_map :: "('a \<Rightarrow> 'b go) \<Rightarrow> 'a list \<Rightarrow> 'b list go" where
  "go_map f [] = Inr []"
| "go_map f (x # xs) = go_bind (f x) (\<lambda>y. go_bind (go_map f xs) (\<lambda>ys. Inr (y # ys)))"

fun go_fold :: "('a \<Rightarrow> 's \<Rightarrow> 's go) \<Rightarrow> 'a list \<Rightarrow> 's \<Rightarrow> 's go" where
  "go_fold f [] s = Inr s"
| "go_fold f (x # xs) s = go_bind (f x s) (go_fold f xs)"

abbreviation panics :: "'a go \<Rightarrow> bool" where
  "panics m \<equiv> (\<exists>p. m = Inl p)"

lemma go_bind_Inl [simp, go_simps]: "go_bind (Inl p) f = Inl p"
  by (simp add: go_bind_def)

lemma go_bind_Inr [simp, go_simps]: "go_bind (Inr x) f = f x"
  by (simp add: go_bind_def)

lemma go_bind_eq_Inr_iff [go_simps]:
  "go_bind m f = Inr y \<longleftrightarrow> (\<exists>x. m = Inr x \<and> f x = Inr y)"
  by (cases m) simp_all

lemma go_bind_eq_Inl_iff [go_simps]:
  "go_bind m f = Inl p \<longleftrightarrow> m = Inl p \<or> (\<exists>x. m = Inr x \<and> f x = Inl p)"
  by (cases m) simp_all

lemma deref_Some [simp, go_simps]: "deref (Some x) = Inr x"
  by (simp add: deref_def)

lemma deref_None [simp, go_simps]: "deref None = Inl NilDeref"
  by (simp add: deref_def)

lemma deref_eq_Inr_iff [simp]: "deref p = Inr x \<longleftrightarrow> p = Some x"
  by (cases p) simp_all

lemma deref_eq_Inl_iff [simp]: "deref p = Inl e \<longleftrightarrow> p = None \<and> e = NilDeref"
  by (cases p) auto

lemma index_go_eq_Inr_iff: "index_go xs i = Inr x \<longleftrightarrow> i < length xs \<and> xs ! i = x"
  by (simp add: index_go_def)

lemma go_map_eq_Inr_iff:
  "go_map f xs = Inr ys \<longleftrightarrow> list_all2 (\<lambda>x y. f x = Inr y) xs ys"
  by (induction xs arbitrary: ys) (auto simp: go_bind_eq_Inr_iff list_all2_Cons1)

lemma go_map_total:
  assumes "\<And>x. x \<in> set xs \<Longrightarrow> f x = Inr (g x)"
  shows "go_map f xs = Inr (map g xs)"
  using assms by (induction xs) auto

lemma go_fold_total:
  assumes "\<And>x s. x \<in> set xs \<Longrightarrow> f x s = Inr (g x s)"
  shows "go_fold f xs s = Inr (fold g xs s)"
  using assms by (induction xs arbitrary: s) auto

section \<open>Finite maps as association lists\<close>

lemma alist_lookup_update [simp]: "map_of (AList.update k v al) = (map_of al)(k \<mapsto> v)"
  by (rule update_conv')

lemma alist_lookup_delete [simp]: "map_of (AList.delete k al) = (map_of al)(k := None)"
  by (rule delete_conv')

lemma alist_distinct_update [simp, intro]:
  "distinct (map fst al) \<Longrightarrow> distinct (map fst (AList.update k v al))"
  by (rule distinct_update)

lemma alist_distinct_delete [simp, intro]:
  "distinct (map fst al) \<Longrightarrow> distinct (map fst (AList.delete k al))"
  by (rule distinct_delete)

lemma map_of_in_fst: "map_of al k = Some v \<Longrightarrow> k \<in> fst ` set al"
  by (metis fst_conv image_eqI map_of_SomeD)

end
