(* ===== verification/GoStrings.thy ===== *)
theory GoStrings
  imports Prelude "HOL-Library.Sublist"
begin

text \<open>
  The operations of Go's \<open>strings\<close>, \<open>strconv\<close> and \<open>unicode/utf8\<close> packages that the
  program uses, on byte strings (a Go string is a sequence of bytes, a HOL \<open>char\<close> is one
  byte): \<open>Split\<close> and \<open>Join\<close>, \<open>HasPrefix\<close>, \<open>TrimSpace\<close>, \<open>ToLower\<close>, \<open>EqualFold\<close>, the
  rune iteration of \<open>range\<close>, and the number formats of \<open>ParseUint\<close>, \<open>ParseInt\<close> and
  \<open>Sprintf\<close>. The 64-bit cut-offs of the parsers are written out.
\<close>

abbreviation ord :: "char \<Rightarrow> nat" where
  "ord c \<equiv> of_char c"

abbreviation chr :: "nat \<Rightarrow> char" where
  "chr n \<equiv> char_of n"

abbreviation has_prefix :: "string \<Rightarrow> string \<Rightarrow> bool" where
  "has_prefix s p \<equiv> prefix p s"

lemma ord_less [simp]: "ord c < 256"
  by simp

section \<open>Split and Join\<close>

fun split_on :: "char \<Rightarrow> string \<Rightarrow> string list" where
  "split_on c [] = [[]]"
| "split_on c (x # xs) =
     (if x = c then [] # split_on c xs
      else (case split_on c xs of [] \<Rightarrow> [[x]] | p # ps \<Rightarrow> (x # p) # ps))"

fun join_with :: "string \<Rightarrow> string list \<Rightarrow> string" where
  "join_with sep [] = []"
| "join_with sep [p] = p"
| "join_with sep (p # ps) = p @ sep @ join_with sep ps"

lemma split_on_not_Nil [simp, str_simps]: "split_on c s \<noteq> []"
  by (cases s) (auto split: list.splits)

lemma split_on_no_sep [str_simps]: "c \<notin> set s \<Longrightarrow> split_on c s = [s]"
  by (induction s) auto

lemma split_on_append_sep: "split_on c (a @ c # b) = split_on c a @ split_on c b"
proof (induction a)
  case (Cons x xs)
  obtain p ps where "split_on c xs = p # ps" by (cases "split_on c xs") auto
  with Cons show ?case by simp
qed simp

lemma split_on_append [str_simps]:
  "c \<notin> set a \<Longrightarrow> split_on c (a @ c # b) = a # split_on c b"
  by (induction a) auto

lemma split_on_parts_no_sep: "p \<in> set (split_on c s) \<Longrightarrow> c \<notin> set p"
  by (induction s arbitrary: p) (fastforce split: list.splits if_splits)+

lemma join_with_Cons:
  "ps \<noteq> [] \<Longrightarrow> join_with sep (p # ps) = p @ sep @ join_with sep ps"
  by (cases ps) simp_all

lemma join_split_on [str_simps]: "join_with [c] (split_on c s) = s"
proof (induction s)
  case (Cons x xs)
  obtain p ps where "split_on c xs = p # ps"
    by (cases "split_on c xs") auto
  with Cons show ?case by (cases ps) (auto simp: join_with_Cons)
qed simp

lemma split_on_join [str_simps]:
  "\<lbrakk>ps \<noteq> []; \<And>p. p \<in> set ps \<Longrightarrow> c \<notin> set p\<rbrakk> \<Longrightarrow> split_on c (join_with [c] ps) = ps"
  by (induction "[c]" ps rule: join_with.induct)
    (simp_all add: split_on_no_sep split_on_append)

lemma split_on_eq_iff:
  "split_on c s = ps \<longleftrightarrow> ps \<noteq> [] \<and> (\<forall>p \<in> set ps. c \<notin> set p) \<and> s = join_with [c] ps"
  by (metis join_split_on split_on_join split_on_not_Nil split_on_parts_no_sep)

lemma length_split_on: "length (split_on c s) = Suc (count_list s c)"
  by (induction s) (auto split: list.splits)

lemma join_with_eq_Nil_iff:
  "sep \<noteq> [] \<Longrightarrow> join_with sep ps = [] \<longleftrightarrow> ps = [] \<or> ps = [[]]"
  by (induction sep ps rule: join_with.induct) auto

lemma set_join_with: "set (join_with sep ps) \<subseteq> set sep \<union> (\<Union>p \<in> set ps. set p)"
  by (induction sep ps rule: join_with.induct) auto

text \<open>Two texts around a separating space are determined by their concatenation.\<close>

lemma key_eq:
  assumes "m @ '' '' @ e = a @ '' '' @ b" and "CHR '' '' \<notin> set a" and "CHR '' '' \<notin> set b"
  shows "m = a \<and> e = b"
proof -
  from assms(1) obtain us where "(m = a @ us \<and> us @ '' '' @ e = '' '' @ b) \<or> (m @ us = a \<and> '' '' @ e = us @ '' '' @ b)"
    by (auto simp: append_eq_append_conv2)
  then show ?thesis
  proof
    assume "m = a @ us \<and> us @ '' '' @ e = '' '' @ b"
    then show ?thesis using assms(3) by (cases us) auto
  next
    assume "m @ us = a \<and> '' '' @ e = us @ '' '' @ b"
    then show ?thesis using assms(2) by (cases us) auto
  qed
qed

section \<open>Runes: UTF-8 decoding as done by range\<close>

text \<open>
  \<open>rune_width\<close> is the number of bytes \<open>utf8.DecodeRuneInString\<close> consumes: the length of
  a valid encoding, and 1 for an invalid or incomplete one.
\<close>

definition cont_byte :: "nat \<Rightarrow> nat \<Rightarrow> char \<Rightarrow> bool" where
  "cont_byte lo hi c \<longleftrightarrow> lo \<le> ord c \<and> ord c \<le> hi"

abbreviation cont :: "char \<Rightarrow> bool" where
  "cont \<equiv> cont_byte 128 191"

fun valid2 :: "string \<Rightarrow> bool" where
  "valid2 (a # b # _) \<longleftrightarrow> 194 \<le> ord a \<and> ord a \<le> 223 \<and> cont b"
| "valid2 _ \<longleftrightarrow> False"

fun valid3 :: "string \<Rightarrow> bool" where
  "valid3 (a # b # c # _) \<longleftrightarrow>
     224 \<le> ord a \<and> ord a \<le> 239 \<and> cont c \<and>
     cont_byte (if ord a = 224 then 160 else 128) (if ord a = 237 then 159 else 191) b"
| "valid3 _ \<longleftrightarrow> False"

fun valid4 :: "string \<Rightarrow> bool" where
  "valid4 (a # b # c # d # _) \<longleftrightarrow>
     240 \<le> ord a \<and> ord a \<le> 244 \<and> cont c \<and> cont d \<and>
     cont_byte (if ord a = 240 then 144 else 128) (if ord a = 244 then 143 else 191) b"
| "valid4 _ \<longleftrightarrow> False"

definition rune_width :: "string \<Rightarrow> nat" where
  "rune_width s = (if valid2 s then 2 else if valid3 s then 3 else if valid4 s then 4 else 1)"

lemma rune_width_pos [simp]: "0 < rune_width s"
  by (simp add: rune_width_def)

function rune_chunks :: "string \<Rightarrow> string list" where
  "rune_chunks s =
     (if s = [] then [] else take (rune_width s) s # rune_chunks (drop (rune_width s) s))"
  by pat_completeness auto
termination
  by (relation "measure length") (auto simp: rune_width_def)

declare rune_chunks.simps [simp del]

lemma rune_chunks_Nil [simp]: "rune_chunks [] = []"
  by (simp add: rune_chunks.simps)

lemma concat_rune_chunks [simp, str_simps]: "concat (rune_chunks s) = s"
proof (induction s rule: rune_chunks.induct)
  case (1 s)
  then show ?case by (cases "s = []") (simp_all add: rune_chunks.simps [of s])
qed

lemma rune_chunks_nonempty: "p \<in> set (rune_chunks s) \<Longrightarrow> p \<noteq> []"
proof (induction s arbitrary: p rule: rune_chunks.induct)
  case (1 s)
  then show ?case
    by (cases "s = []") (auto simp: rune_chunks.simps [of s] rune_width_def split: if_splits)
qed

lemma rune_width_ascii: "ord c < 128 \<Longrightarrow> rune_width (c # s) = 1"
  by (cases s; cases "tl s"; cases "tl (tl s)")
    (auto simp: rune_width_def)

lemma rune_chunks_ascii_Cons:
  "ord c < 128 \<Longrightarrow> rune_chunks (c # s) = [c] # rune_chunks s"
  by (simp add: rune_chunks.simps [of "c # s"] rune_width_ascii)

lemma rune_chunks_ascii: "\<forall>c \<in> set s. ord c < 128 \<Longrightarrow> rune_chunks s = map (\<lambda>c. [c]) s"
  by (induction s) (simp_all add: rune_chunks_ascii_Cons)

text \<open>\<open>string(c)\<close> for a decoded rune: an invalid byte has become U+FFFD.\<close>

definition rune_string :: "string \<Rightarrow> string" where
  "rune_string p =
     (if length p = 1 \<and> 128 \<le> ord (hd p) then [chr 239, chr 191, chr 189] else p)"

lemma rune_string_nonempty: "p \<noteq> [] \<Longrightarrow> rune_string p \<noteq> []"
  by (simp add: rune_string_def)

section \<open>TrimSpace, ToLower, EqualFold\<close>

text \<open>
  \<open>unicode.IsSpace\<close> on a rune given by its UTF-8 bytes: the ASCII spaces, U+0085, U+00A0,
  U+1680, U+2000 to U+200A, U+2028, U+2029, U+202F, U+205F and U+3000.
\<close>

definition space_rune :: "string \<Rightarrow> bool" where
  "space_rune p \<longleftrightarrow> map ord p \<in>
     {[9], [10], [11], [12], [13], [32], [194, 133], [194, 160], [225, 154, 128],
      [226, 128, 168], [226, 128, 169], [226, 128, 175], [226, 129, 159], [227, 128, 128]}
     \<or> (length p = 3 \<and> map ord (take 2 p) = [226, 128] \<and> 128 \<le> ord (p ! 2) \<and> ord (p ! 2) \<le> 138)"

definition trim_space :: "string \<Rightarrow> string" where
  "trim_space s =
     concat (rev (dropWhile space_rune (rev (dropWhile space_rune (rune_chunks s)))))"

definition lower_ascii :: "char \<Rightarrow> char" where
  "lower_ascii c = (if 65 \<le> ord c \<and> ord c \<le> 90 then chr (ord c + 32) else c)"

text \<open>
  \<open>unicode.ToLower\<close> on a rune. Two runes beyond ASCII have an ASCII lower case (U+0130
  gives \<open>i\<close>, U+212A gives \<open>k\<close>). The others stay beyond ASCII and are left unchanged:
  every use of the result compares it with, or matches it against, ASCII text only.
\<close>

definition lower_rune :: "string \<Rightarrow> string" where
  "lower_rune p =
     (if map ord p = [196, 176] then ''i''
      else if map ord p = [226, 132, 170] then ''k''
      else map lower_ascii p)"

definition to_lower :: "string \<Rightarrow> string" where
  "to_lower s = concat (map lower_rune (rune_chunks s))"

text \<open>
  \<open>strings.EqualFold\<close>: equality of the runes up to simple case folding. The folding
  orbits of ASCII letters reach beyond ASCII in two places only: U+212A folds to \<open>k\<close> and
  U+017F folds to \<open>s\<close>; the program compares with ASCII names only.
\<close>

definition fold_rune :: "string \<Rightarrow> string" where
  "fold_rune p =
     (if map ord p = [197, 191] then ''s''
      else if map ord p = [226, 132, 170] then ''k''
      else map lower_ascii p)"

definition equal_fold :: "string \<Rightarrow> string \<Rightarrow> bool" where
  "equal_fold s t \<longleftrightarrow> map fold_rune (rune_chunks s) = map fold_rune (rune_chunks t)"

lemma lower_rune_nonempty: "p \<noteq> [] \<Longrightarrow> lower_rune p \<noteq> []"
  by (simp add: lower_rune_def)

lemma concat_eq_single:
  assumes "\<And>p. p \<in> set ps \<Longrightarrow> p \<noteq> []" and "concat ps = [x]"
  shows "ps = [[x]]"
proof (cases ps)
  case (Cons p qs)
  with assms obtain "p = [x]" and "concat qs = []"
    by (auto simp: append_eq_Cons_conv)
  moreover from this assms(1) Cons have "qs = []"
    by (cases qs) auto
  ultimately show ?thesis using Cons by simp
qed (use assms in simp)

lemma to_lower_single:
  assumes "to_lower s = [x]"
  shows "\<exists>p. rune_chunks s = [p] \<and> lower_rune p = [x]"
proof -
  have "map lower_rune (rune_chunks s) = [[x]]"
    using assms rune_chunks_nonempty
    by (intro concat_eq_single) (auto simp: to_lower_def lower_rune_nonempty)
  then show ?thesis by auto
qed

lemma equal_fold_if_lower:
  assumes "to_lower s = [x]" and "x \<noteq> CHR ''i''" and "x \<noteq> CHR ''k''"
    and "ord x < 128" and "lower_ascii x = x"
  shows "equal_fold s [x]"
proof -
  obtain p where p: "rune_chunks s = [p]" "lower_rune p = [x]"
    using to_lower_single [OF assms(1)] by blast
  with assms(2,3) have "map lower_ascii p = [x]"
    by (simp add: lower_rune_def split: if_splits)
  then obtain y where "p = [y]" "lower_ascii y = x" by auto
  with p assms(4,5) show ?thesis
    by (simp add: equal_fold_def rune_chunks_ascii fold_rune_def)
qed

section \<open>Numbers\<close>

definition hex_digit :: "nat \<Rightarrow> char" where
  "hex_digit d = (if d < 10 then chr (48 + d) else chr (87 + d))"

fun hex_of_nat :: "nat \<Rightarrow> string" where
  "hex_of_nat n = (if n < 16 then [hex_digit n] else hex_of_nat (n div 16) @ [hex_digit (n mod 16)])"

fun dec_of_nat :: "nat \<Rightarrow> string" where
  "dec_of_nat n = (if n < 10 then [chr (48 + n)] else dec_of_nat (n div 10) @ [chr (48 + n mod 10)])"

declare hex_of_nat.simps [simp del] dec_of_nat.simps [simp del]

definition dec_of_int :: "int \<Rightarrow> string" where
  "dec_of_int i = (if i < 0 then ''-'' @ dec_of_nat (nat (- i)) else dec_of_nat (nat i))"

text \<open>
  The digit value of \<open>strconv.ParseUint\<close>: decimal digits, and letters of either case
  (\<open>lower(c) = c | 0x20\<close>); \<open>None\<close> for any other byte.
\<close>

definition digit_val :: "char \<Rightarrow> nat option" where
  "digit_val c =
     (if 48 \<le> ord c \<and> ord c \<le> 57 then Some (ord c - 48)
      else if 97 \<le> ord c \<and> ord c \<le> 122 then Some (ord c - 87)
      else if 65 \<le> ord c \<and> ord c \<le> 90 then Some (ord c - 55)
      else None)"

datatype num_error = SyntaxError | RangeError

text \<open>
  The loop of \<open>strconv.ParseUint(s, base, 64)\<close> from accumulator \<open>n\<close>. The value is returned
  beside the error: 0 for a syntax error, the largest 64-bit value for a range error.
\<close>

fun parse_uint_loop :: "nat \<Rightarrow> string \<Rightarrow> nat \<Rightarrow> nat \<times> num_error option" where
  "parse_uint_loop base [] n = (n, None)"
| "parse_uint_loop base (c # cs) n =
     (case digit_val c of
        None \<Rightarrow> (0, Some SyntaxError)
      | Some d \<Rightarrow>
          if base \<le> d then (0, Some SyntaxError)
          else if (2 ^ 64 - 1) div base + 1 \<le> n then (2 ^ 64 - 1, Some RangeError)
          else if 2 ^ 64 \<le> n * base + d then (2 ^ 64 - 1, Some RangeError)
          else parse_uint_loop base cs (n * base + d))"

definition parse_uint :: "nat \<Rightarrow> string \<Rightarrow> nat \<times> num_error option" where
  "parse_uint base s = (if s = [] then (0, Some SyntaxError) else parse_uint_loop base s 0)"

text \<open>\<open>strconv.ParseInt(s, 10, 64)\<close>, with \<open>None\<close> for any error.\<close>

definition parse_int :: "string \<Rightarrow> int option" where
  "parse_int s =
     (let neg = (case s of c # _ \<Rightarrow> c = CHR ''-'' | [] \<Rightarrow> False);
          body = (case s of c # r \<Rightarrow> if c = CHR ''-'' \<or> c = CHR ''+'' then r else s | [] \<Rightarrow> s)
      in case parse_uint 10 body of
           (_, Some _) \<Rightarrow> None
         | (un, None) \<Rightarrow>
             if neg then (if 2 ^ 63 < un then None else Some (- int un))
             else (if 2 ^ 63 \<le> un then None else Some (int un)))"

text \<open>Subtraction of 64-bit signed integers wraps around.\<close>

definition sub_int64 :: "int \<Rightarrow> int \<Rightarrow> int" where
  "sub_int64 x y = (x - y + 2 ^ 63) mod 2 ^ 64 - 2 ^ 63"

lemma sub_int64_exact:
  "\<lbrakk>- (2 ^ 63) \<le> x - y; x - y < 2 ^ 63\<rbrakk> \<Longrightarrow> sub_int64 x y = x - y"
  by (simp add: sub_int64_def)

subsection \<open>Printing and parsing agree\<close>

lemma ord_chr [simp]: "n < 256 \<Longrightarrow> ord (chr n) = n"
  by (simp add: take_bit_nat_eq_self_iff)

lemma ord_hex_digit: "d < 16 \<Longrightarrow> ord (hex_digit d) = (if d < 10 then 48 + d else 87 + d)"
  by (simp add: hex_digit_def)

lemma digit_val_hex_digit [simp]: "d < 16 \<Longrightarrow> digit_val (hex_digit d) = Some d"
  by (simp add: digit_val_def ord_hex_digit)

lemma digit_val_dec_digit [simp]: "d < 10 \<Longrightarrow> digit_val (chr (48 + d)) = Some d"
  by (simp add: digit_val_def)

lemma hex_of_nat_not_Nil [simp]: "hex_of_nat n \<noteq> []"
  by (subst hex_of_nat.simps) simp

lemma dec_of_nat_not_Nil [simp]: "dec_of_nat n \<noteq> []"
  by (subst dec_of_nat.simps) simp

definition hex_char :: "char \<Rightarrow> bool" where
  "hex_char c \<longleftrightarrow> (48 \<le> ord c \<and> ord c \<le> 57) \<or> (97 \<le> ord c \<and> ord c \<le> 102)"

lemma hex_of_nat_chars: "c \<in> set (hex_of_nat n) \<Longrightarrow> hex_char c"
proof (induction n arbitrary: c rule: hex_of_nat.induct)
  case (1 n)
  show ?case
  proof (cases "n < 16")
    case True
    with "1.prems" show ?thesis
      by (auto simp: hex_of_nat.simps [of n] hex_char_def ord_hex_digit)
  next
    case False
    have "hex_char (hex_digit (n mod 16))"
      using mod_less_divisor [of 16 n] by (auto simp: hex_char_def ord_hex_digit)
    with False "1" show ?thesis by (auto simp: hex_of_nat.simps [of n])
  qed
qed

lemma dec_of_nat_chars: "c \<in> set (dec_of_nat n) \<Longrightarrow> 48 \<le> ord c \<and> ord c \<le> 57"
proof (induction n arbitrary: c rule: dec_of_nat.induct)
  case (1 n)
  then show ?case
    by (cases "n < 10") (auto simp: dec_of_nat.simps [of n])
qed

lemma parse_uint_loop_hex_append:
  "n < 2 ^ 64 \<Longrightarrow>
   parse_uint_loop 16 (hex_of_nat n @ r) 0 = parse_uint_loop 16 r n"
proof (induction n arbitrary: r rule: hex_of_nat.induct)
  case (1 n)
  show ?case
  proof (cases "n < 16")
    case True
    then show ?thesis by (simp add: hex_of_nat.simps [of n])
  next
    case False
    then have "n div 16 < 2 ^ 60" using "1.prems" by simp
    moreover have "\<not> 16 \<le> n mod 16" using mod_less_divisor [of 16 n] by linarith
    ultimately show ?thesis using False "1" by (simp add: hex_of_nat.simps [of n])
  qed
qed

lemma parse_uint_hex [str_simps]: "n < 2 ^ 64 \<Longrightarrow> parse_uint 16 (hex_of_nat n) = (n, None)"
  using parse_uint_loop_hex_append [of n "[]"] by (simp add: parse_uint_def)

lemma parse_uint_loop_bound:
  "n < 2 ^ 64 \<Longrightarrow> fst (parse_uint_loop base s n) < 2 ^ 64"
  by (induction base s n rule: parse_uint_loop.induct) (auto split: option.splits)

lemma parse_uint_bound: "fst (parse_uint base s) < 2 ^ 64"
  using parse_uint_loop_bound [of 0 base s] by (simp add: parse_uint_def)

lemma parse_uint_loop_dec_append:
  "n < 2 ^ 64 \<Longrightarrow>
   parse_uint_loop 10 (dec_of_nat n @ r) 0 = parse_uint_loop 10 r n"
proof (induction n arbitrary: r rule: dec_of_nat.induct)
  case (1 n)
  show ?case
  proof (cases "n < 10")
    case True
    then show ?thesis by (simp add: dec_of_nat.simps [of n])
  next
    case False
    then have "n div 10 < 2 ^ 64 div 10 + 1" using "1.prems" by simp
    moreover have "\<not> 10 \<le> n mod 10" using mod_less_divisor [of 10 n] by linarith
    ultimately show ?thesis using False "1" by (simp add: dec_of_nat.simps [of n])
  qed
qed

lemma parse_uint_dec [str_simps]: "n < 2 ^ 64 \<Longrightarrow> parse_uint 10 (dec_of_nat n) = (n, None)"
  using parse_uint_loop_dec_append [of n "[]"] by (simp add: parse_uint_def)

lemma parse_int_dec_of_int:
  assumes "- (2 ^ 63) \<le> i" and "i < 2 ^ 63"
  shows "parse_int (dec_of_int i) = Some i"
proof (cases "i < 0")
  case True
  then have "nat (- i) < 2 ^ 64" using assms by simp
  with True assms show ?thesis by (simp add: parse_int_def dec_of_int_def parse_uint_dec)
next
  case False
  obtain c r where cr: "dec_of_nat (nat i) = c # r"
    by (cases "dec_of_nat (nat i)") auto
  then have "48 \<le> ord c \<and> ord c \<le> 57" using dec_of_nat_chars [of c "nat i"] by simp
  then have "c \<noteq> CHR ''-''" "c \<noteq> CHR ''+''" by auto
  moreover have "parse_uint 10 (c # r) = (nat i, None)"
    using parse_uint_dec [of "nat i"] assms cr by simp
  ultimately show ?thesis using False assms cr by (simp add: parse_int_def dec_of_int_def)
qed

end
