(* ===== verification/Usm.thy ===== *)
theory Usm
  imports GoStrings "HOL-Library.Multiset"
begin

text \<open>
  \<open>state/user.go\<close>: the in-memory session manager. One goroutine owns the maps of live token
  ids and of share group allowlists and serves requests arriving on a channel.

  \<open>usm_handle\<close> is the body of the server loop for one request: the new state, and the value
  the goroutine sends on the reply channel if that branch sends one. The \<open>Usm\<dots>\<close> functions
  are the callers' wrappers. The second half models the rendezvous of callers and server
  on unbuffered channels as a step relation.

  A Go map is an association list. Iterating over one visits its entries in an
  unspecified order, which is the argument \<open>shuffle\<close>.
\<close>

section \<open>State and the server loop\<close>

datatype UsmOp =
    USM_TOKEN_GET
  | USM_TOKEN_ADD
  | USM_TOKEN_DEL
  | USM_TOKEN_PURGE
  | USM_SGI_CHECK
  | USM_SGI_ALLOW
  | USM_SGI_REVOKE
  | USM_SGI_LIST
  | USM_REQRATE_LOGINFAILINC
  | USM_REQRATE_LOGINFAILCOUNT
  | USM_REQRATE_LOGINFAILRESET

type_synonym go_set = "(string \<times> bool) list"
type_synonym map_string_set = "(string \<times> go_set) list"

record usm =
  TokenIds :: map_string_set
  SgiAllowlist :: map_string_set
  FailedLogins :: "(string \<times> int) list"

record UsmRequest =
  Operation :: UsmOp
  UID :: string
  Value :: string
  HasReturnVal :: bool   \<comment> \<open>False for a nil reply channel\<close>

definition makeMsg :: "UsmOp \<Rightarrow> string \<Rightarrow> string \<Rightarrow> bool \<Rightarrow> UsmRequest" where
  "makeMsg op uid val retvalch =
     \<lparr>Operation = op, UID = uid, Value = val, HasReturnVal = retvalch\<rparr>"

definition UsmInit :: usm where
  "UsmInit = \<lparr>TokenIds = [], SgiAllowlist = [], FailedLogins = []\<rparr>"

definition set_of_user :: "map_string_set \<Rightarrow> string \<Rightarrow> go_set" where
  "set_of_user m uid = (case map_of m uid of None \<Rightarrow> [] | Some st \<Rightarrow> st)"

definition sgi_parts :: "string \<Rightarrow> string list" where
  "sgi_parts val = filter (\<lambda>p. p \<noteq> []) (split_on CHR '','' val)"

definition usm_token_get :: "usm \<Rightarrow> string \<Rightarrow> string \<Rightarrow> string" where
  "usm_token_get s uid val =
     (if uid \<noteq> [] then
        (case map_of (TokenIds s) uid of
           None \<Rightarrow> []
         | Some tokenset \<Rightarrow> (case map_of tokenset val of None \<Rightarrow> [] | Some _ \<Rightarrow> ''OK''))
      else [])"

definition usm_token_add :: "usm \<Rightarrow> string \<Rightarrow> string \<Rightarrow> usm" where
  "usm_token_add s uid val =
     (if uid \<noteq> [] then
        s\<lparr>TokenIds := AList.update uid (AList.update val True (set_of_user (TokenIds s) uid)) (TokenIds s)\<rparr>
      else s)"

definition usm_token_del :: "usm \<Rightarrow> string \<Rightarrow> string \<Rightarrow> usm" where
  "usm_token_del s uid val =
     (if uid \<noteq> [] then
        (case map_of (TokenIds s) uid of
           None \<Rightarrow> s
         | Some tokenset \<Rightarrow> s\<lparr>TokenIds := AList.update uid (AList.delete val tokenset) (TokenIds s)\<rparr>)
      else s)"

definition usm_sgi_check :: "usm \<Rightarrow> string \<Rightarrow> string \<Rightarrow> string" where
  "usm_sgi_check s uid val =
     (if uid \<noteq> [] then
        (case map_of (SgiAllowlist s) uid of
           None \<Rightarrow> []
         | Some allowlist \<Rightarrow> (case map_of allowlist val of Some True \<Rightarrow> ''OK'' | _ \<Rightarrow> []))
      else [])"

definition usm_sgi_allow :: "usm \<Rightarrow> string \<Rightarrow> string \<Rightarrow> usm" where
  "usm_sgi_allow s uid val =
     (if uid \<noteq> [] then
        s\<lparr>SgiAllowlist := AList.update uid
            (fold (\<lambda>p al. AList.update p True al) (sgi_parts val) (set_of_user (SgiAllowlist s) uid))
            (SgiAllowlist s)\<rparr>
      else s)"

definition usm_sgi_revoke :: "usm \<Rightarrow> string \<Rightarrow> string \<Rightarrow> usm" where
  "usm_sgi_revoke s uid val =
     (if uid \<noteq> [] then
        (case map_of (SgiAllowlist s) uid of
           None \<Rightarrow> s
         | Some allowlist \<Rightarrow>
             s\<lparr>SgiAllowlist := AList.update uid (fold AList.delete (sgi_parts val) allowlist) (SgiAllowlist s)\<rparr>)
      else s)"

definition usm_sgi_list :: "((string \<times> bool) list \<Rightarrow> (string \<times> bool) list) \<Rightarrow> usm \<Rightarrow> string \<Rightarrow> string" where
  "usm_sgi_list shuffle s uid =
     (let list = (if uid \<noteq> [] then
                    (case map_of (SgiAllowlist s) uid of
                       None \<Rightarrow> []
                     | Some allowlist \<Rightarrow> map fst (filter snd (shuffle allowlist)))
                  else [])
      in join_with '','' list)"

definition usm_handle ::
    "((string \<times> bool) list \<Rightarrow> (string \<times> bool) list) \<Rightarrow> usm \<Rightarrow> UsmRequest \<Rightarrow> usm \<times> string option" where
  "usm_handle shuffle s msg =
     (let uid = UID msg; val = Value msg in
      case Operation msg of
        USM_TOKEN_GET \<Rightarrow> (s, Some (usm_token_get s uid val))
      | USM_TOKEN_ADD \<Rightarrow> (usm_token_add s uid val, None)
      | USM_TOKEN_DEL \<Rightarrow> (usm_token_del s uid val, Some ''OK'')
      | USM_SGI_CHECK \<Rightarrow> (s, Some (usm_sgi_check s uid val))
      | USM_SGI_ALLOW \<Rightarrow> (usm_sgi_allow s uid val, Some [])
      | USM_SGI_REVOKE \<Rightarrow> (usm_sgi_revoke s uid val, None)
      | USM_SGI_LIST \<Rightarrow> (s, Some (usm_sgi_list shuffle s uid))
      | _ \<Rightarrow> (s, None))"

section \<open>The callers' wrappers\<close>

definition UsmCheckTokenId :: "usm \<Rightarrow> string \<Rightarrow> string \<Rightarrow> bool" where
  "UsmCheckTokenId s userid tokenId =
     (snd (usm_handle id s (makeMsg USM_TOKEN_GET userid tokenId True)) = Some ''OK'')"

definition UsmAddTokenId :: "usm \<Rightarrow> string \<Rightarrow> string \<Rightarrow> usm" where
  "UsmAddTokenId s userid tokenId = fst (usm_handle id s (makeMsg USM_TOKEN_ADD userid tokenId False))"

definition UsmDeleteTokenId :: "usm \<Rightarrow> string \<Rightarrow> string \<Rightarrow> usm \<times> bool" where
  "UsmDeleteTokenId s userid tokenId =
     (case usm_handle id s (makeMsg USM_TOKEN_DEL userid tokenId True) of
        (s', rv) \<Rightarrow> (s', rv = Some ''OK''))"

definition UsmUserCanAccessSgi :: "usm \<Rightarrow> string \<Rightarrow> string \<Rightarrow> bool" where
  "UsmUserCanAccessSgi s userUid sgi =
     (snd (usm_handle id s (makeMsg USM_SGI_CHECK userUid sgi True)) = Some ''OK'')"

definition UsmUserAllowedSgis ::
    "((string \<times> bool) list \<Rightarrow> (string \<times> bool) list) \<Rightarrow> usm \<Rightarrow> string \<Rightarrow> string list" where
  "UsmUserAllowedSgis shuffle s userUid =
     (case snd (usm_handle shuffle s (makeMsg USM_SGI_LIST userUid [] True)) of
        Some rv \<Rightarrow> if rv = [] then [] else split_on CHR '','' rv
      | None \<Rightarrow> [])"

definition UsmUserAllowlistSgi :: "usm \<Rightarrow> string \<Rightarrow> string \<Rightarrow> usm" where
  "UsmUserAllowlistSgi s userUid sgi = fst (usm_handle id s (makeMsg USM_SGI_ALLOW userUid sgi True))"

definition UsmUserRevokeSgi :: "usm \<Rightarrow> string \<Rightarrow> string \<Rightarrow> usm" where
  "UsmUserRevokeSgi s userUid sgi = fst (usm_handle id s (makeMsg USM_SGI_REVOKE userUid sgi False))"

lemmas usm_wrapper_defs =
  UsmCheckTokenId_def UsmAddTokenId_def UsmDeleteTokenId_def UsmUserCanAccessSgi_def
  UsmUserAllowedSgis_def UsmUserAllowlistSgi_def UsmUserRevokeSgi_def usm_handle_def makeMsg_def Let_def

section \<open>Behaviour of the wrappers\<close>

lemma map_of_fold_update:
  "map_of (fold (\<lambda>p al. AList.update p True al) ps al) k =
   (if k \<in> set ps then Some True else map_of al k)"
  by (induction ps arbitrary: al) auto

lemma map_of_fold_delete:
  "map_of (fold AList.delete ps al) k = (if k \<in> set ps then None else map_of al k)"
  by (induction ps arbitrary: al) auto

lemma set_sgi_parts: "set (sgi_parts val) = {p \<in> set (split_on CHR '','' val). p \<noteq> []}"
  by (simp add: sgi_parts_def)

lemma UsmCheckTokenId_iff:
  "UsmCheckTokenId s u t \<longleftrightarrow>
   u \<noteq> [] \<and> (\<exists>ts. map_of (TokenIds s) u = Some ts \<and> map_of ts t \<noteq> None)"
  by (auto simp: usm_wrapper_defs usm_token_get_def split: option.splits)

lemma UsmUserCanAccessSgi_iff:
  "UsmUserCanAccessSgi s u g \<longleftrightarrow>
   u \<noteq> [] \<and> (\<exists>al. map_of (SgiAllowlist s) u = Some al \<and> map_of al g = Some True)"
  by (auto simp: usm_wrapper_defs usm_sgi_check_def split: option.splits bool.splits)

lemma UsmCheckTokenId_add [usm_simps]:
  "UsmCheckTokenId (UsmAddTokenId s u t) v x \<longleftrightarrow>
   UsmCheckTokenId s v x \<or> (u \<noteq> [] \<and> v = u \<and> x = t)"
  unfolding UsmCheckTokenId_iff
  by (auto simp: usm_wrapper_defs usm_token_add_def set_of_user_def split: option.splits)

lemma UsmCheckTokenId_delete [usm_simps]:
  "UsmCheckTokenId (fst (UsmDeleteTokenId s u t)) v x \<longleftrightarrow>
   UsmCheckTokenId s v x \<and> \<not> (v = u \<and> x = t)"
  unfolding UsmCheckTokenId_iff
  by (auto simp: usm_wrapper_defs usm_token_del_def split: option.splits)

lemma UsmDeleteTokenId_returns [usm_simps]: "snd (UsmDeleteTokenId s u t)"
  by (simp add: usm_wrapper_defs)

lemma UsmUserCanAccessSgi_allow [usm_simps]:
  "UsmUserCanAccessSgi (UsmUserAllowlistSgi s u l) v g \<longleftrightarrow>
   UsmUserCanAccessSgi s v g \<or> (u \<noteq> [] \<and> v = u \<and> g \<in> set (sgi_parts l))"
  unfolding UsmUserCanAccessSgi_iff
  by (auto simp: usm_wrapper_defs usm_sgi_allow_def set_of_user_def map_of_fold_update split: option.splits)

lemma UsmUserCanAccessSgi_revoke [usm_simps]:
  "UsmUserCanAccessSgi (UsmUserRevokeSgi s u l) v g \<longleftrightarrow>
   UsmUserCanAccessSgi s v g \<and> \<not> (v = u \<and> g \<in> set (sgi_parts l))"
  unfolding UsmUserCanAccessSgi_iff
  by (auto simp: usm_wrapper_defs usm_sgi_revoke_def map_of_fold_delete split: option.splits)

lemma usm_frame [usm_simps]:
  "UsmUserCanAccessSgi (UsmAddTokenId s u t) v g \<longleftrightarrow> UsmUserCanAccessSgi s v g"
  "UsmUserCanAccessSgi (fst (UsmDeleteTokenId s u t)) v g \<longleftrightarrow> UsmUserCanAccessSgi s v g"
  "UsmCheckTokenId (UsmUserAllowlistSgi s u l) v x \<longleftrightarrow> UsmCheckTokenId s v x"
  "UsmCheckTokenId (UsmUserRevokeSgi s u l) v x \<longleftrightarrow> UsmCheckTokenId s v x"
  unfolding UsmUserCanAccessSgi_iff UsmCheckTokenId_iff
  by (simp_all add: usm_wrapper_defs usm_token_add_def usm_token_del_def usm_sgi_allow_def
      usm_sgi_revoke_def split: option.splits)

lemma UsmInit_empty [usm_simps]:
  "\<not> UsmCheckTokenId UsmInit u t" "\<not> UsmUserCanAccessSgi UsmInit u g"
  unfolding UsmUserCanAccessSgi_iff UsmCheckTokenId_iff by (simp_all add: UsmInit_def)

section \<open>Interfaces\<close>

text \<open>
  What request authorisation and the share handlers rely on: a registry of grants of
  share groups to users, updated with comma-separated lists.
\<close>

locale share_registry =
  fixes can :: "'s \<Rightarrow> string \<Rightarrow> string \<Rightarrow> bool"
    and grant :: "'s \<Rightarrow> string \<Rightarrow> string \<Rightarrow> 's"
    and revoke :: "'s \<Rightarrow> string \<Rightarrow> string \<Rightarrow> 's"
  assumes can_grant: "can (grant s u l) v g \<longleftrightarrow> can s v g \<or> (u \<noteq> [] \<and> v = u \<and> g \<in> set (sgi_parts l))"
    and can_revoke: "can (revoke s u l) v g \<longleftrightarrow> can s v g \<and> \<not> (v = u \<and> g \<in> set (sgi_parts l))"
begin

lemma grant_mono: "can s v g \<Longrightarrow> can (grant s u l) v g"
  by (simp add: can_grant)

lemma revoke_antimono: "can (revoke s u l) v g \<Longrightarrow> can s v g"
  by (simp add: can_revoke)

lemma other_user: "v \<noteq> u \<Longrightarrow> can (grant s u l) v g = can s v g"
  "v \<noteq> u \<Longrightarrow> can (revoke s u l) v g = can s v g"
  by (simp_all add: can_grant can_revoke)

lemma revoke_grant:
  "can (revoke (grant s u l) u l) v g \<longleftrightarrow> can s v g \<and> \<not> (v = u \<and> g \<in> set (sgi_parts l))"
  by (auto simp: can_grant can_revoke)

lemma can_fold_grant:
  "can (fold (\<lambda>u s. grant s u l) us s) v g \<longleftrightarrow>
   can s v g \<or> (v \<noteq> [] \<and> v \<in> set us \<and> g \<in> set (sgi_parts l))"
  by (induction us arbitrary: s) (auto simp: can_grant)

lemma can_fold_revoke:
  "can (fold (\<lambda>u s. revoke s u l) us s) v g \<longleftrightarrow>
   can s v g \<and> \<not> (v \<in> set us \<and> g \<in> set (sgi_parts l))"
  by (induction us arbitrary: s) (auto simp: can_revoke)

end

interpretation usm_registry: share_registry UsmUserCanAccessSgi UsmUserAllowlistSgi UsmUserRevokeSgi
  by unfold_locales (simp_all add: usm_simps)

text \<open>What login, logout and the server's token check rely on: a set of live token ids.\<close>

locale session_store =
  fixes live :: "'s \<Rightarrow> string \<Rightarrow> string \<Rightarrow> bool"
    and open_session :: "'s \<Rightarrow> string \<Rightarrow> string \<Rightarrow> 's"
    and close_session :: "'s \<Rightarrow> string \<Rightarrow> string \<Rightarrow> 's"
  assumes live_open: "live (open_session s u t) v x \<longleftrightarrow> live s v x \<or> (u \<noteq> [] \<and> v = u \<and> x = t)"
    and live_close: "live (close_session s u t) v x \<longleftrightarrow> live s v x \<and> \<not> (v = u \<and> x = t)"
begin

lemma closed: "\<not> live (close_session s u t) u t"
  by (simp add: live_close)

lemma opened: "u \<noteq> [] \<Longrightarrow> live (open_session s u t) u t"
  by (simp add: live_open)

lemma close_other: "(v, x) \<noteq> (u, t) \<Longrightarrow> live (close_session s u t) v x = live s v x"
  by (auto simp: live_close)

end

interpretation usm_sessions: session_store UsmCheckTokenId UsmAddTokenId
    "\<lambda>s u t. fst (UsmDeleteTokenId s u t)"
  by unfold_locales (simp_all add: usm_simps)

section \<open>Histories of calls\<close>

datatype usm_call =
    AddToken string string
  | DeleteToken string string
  | Allow string string
  | Revoke string string

fun usm_exec :: "usm_call \<Rightarrow> usm \<Rightarrow> usm" where
  "usm_exec (AddToken u t) s = UsmAddTokenId s u t"
| "usm_exec (DeleteToken u t) s = fst (UsmDeleteTokenId s u t)"
| "usm_exec (Allow u l) s = UsmUserAllowlistSgi s u l"
| "usm_exec (Revoke u l) s = UsmUserRevokeSgi s u l"

text \<open>
  The abstract specification: pairs of user and token id, and pairs of user and group.
\<close>

record usm_spec =
  spec_tokens :: "(string \<times> string) set"
  spec_grants :: "(string \<times> string) set"

definition abs_usm :: "usm \<Rightarrow> usm_spec" where
  "abs_usm s = \<lparr>spec_tokens = {(u, t). UsmCheckTokenId s u t},
                spec_grants = {(u, g). UsmUserCanAccessSgi s u g}\<rparr>"

fun spec_exec :: "usm_call \<Rightarrow> usm_spec \<Rightarrow> usm_spec" where
  "spec_exec (AddToken u t) a =
     (if u = [] then a else a\<lparr>spec_tokens := insert (u, t) (spec_tokens a)\<rparr>)"
| "spec_exec (DeleteToken u t) a = a\<lparr>spec_tokens := spec_tokens a - {(u, t)}\<rparr>"
| "spec_exec (Allow u l) a =
     (if u = [] then a else a\<lparr>spec_grants := spec_grants a \<union> {u} \<times> set (sgi_parts l)\<rparr>)"
| "spec_exec (Revoke u l) a = a\<lparr>spec_grants := spec_grants a - {u} \<times> set (sgi_parts l)\<rparr>"

lemma abs_usm_exec: "abs_usm (usm_exec c s) = spec_exec c (abs_usm s)"
  by (cases c) (auto simp: abs_usm_def usm_simps)

text \<open>
  Property C20. The session manager refines its specification: after any sequence of calls
  from the initial state, a token check answers whether the pair of user and token id was
  added last rather than deleted, and a share group check whether the group was allowed
  last rather than revoked for that user; calls for one user never change the answers for
  another. The nested maps implement two plain sets of pairs.
\<close>

theorem usm_refines_spec:
  "abs_usm (fold usm_exec calls UsmInit) =
   fold spec_exec calls \<lparr>spec_tokens = {}, spec_grants = {}\<rparr>"
proof -
  have "abs_usm (fold usm_exec calls s) = fold spec_exec calls (abs_usm s)" for s
    by (induction calls arbitrary: s) (simp_all add: abs_usm_exec)
  moreover have "abs_usm UsmInit = \<lparr>spec_tokens = {}, spec_grants = {}\<rparr>"
    by (simp add: abs_usm_def usm_simps)
  ultimately show ?thesis by simp
qed

section \<open>Listing the groups of a user\<close>

definition allowlist_ok :: "go_set \<Rightarrow> bool" where
  "allowlist_ok al \<longleftrightarrow> distinct (map fst al) \<and>
     (\<forall>(g, b) \<in> set al. b \<and> g \<noteq> [] \<and> CHR '','' \<notin> set g)"

definition usm_inv :: "usm \<Rightarrow> bool" where
  "usm_inv s \<longleftrightarrow> (\<forall>u al. map_of (SgiAllowlist s) u = Some al \<longrightarrow> allowlist_ok al)"

lemma allowlist_ok_Nil [simp]: "allowlist_ok []"
  by (simp add: allowlist_ok_def)

lemma set_update_subset: "set (AList.update k v al) \<subseteq> insert (k, v) (set al)"
  by (induction al) auto

lemma set_delete_subset: "set (AList.delete k al) \<subseteq> set al"
  by (auto simp: AList.delete_eq)

lemma allowlist_ok_update:
  "\<lbrakk>allowlist_ok al; g \<noteq> []; CHR '','' \<notin> set g\<rbrakk> \<Longrightarrow> allowlist_ok (AList.update g True al)"
  using set_update_subset [of g True al] by (fastforce simp: allowlist_ok_def)

lemma allowlist_ok_delete: "allowlist_ok al \<Longrightarrow> allowlist_ok (AList.delete g al)"
  using set_delete_subset [of g al] by (fastforce simp: allowlist_ok_def)

lemma sgi_parts_ok: "p \<in> set (sgi_parts val) \<Longrightarrow> p \<noteq> [] \<and> CHR '','' \<notin> set p"
  using split_on_parts_no_sep [of p "CHR '',''" val] by (auto simp: set_sgi_parts)

lemma allowlist_ok_fold_update:
  "\<lbrakk>allowlist_ok al; \<forall>p \<in> set ps. p \<noteq> [] \<and> CHR '','' \<notin> set p\<rbrakk> \<Longrightarrow>
   allowlist_ok (fold (\<lambda>p al. AList.update p True al) ps al)"
  by (induction ps arbitrary: al) (auto intro: allowlist_ok_update)

lemma allowlist_ok_fold_delete: "allowlist_ok al \<Longrightarrow> allowlist_ok (fold AList.delete ps al)"
  by (induction ps arbitrary: al) (auto intro: allowlist_ok_delete)

lemma usm_inv_init: "usm_inv UsmInit"
  by (simp add: usm_inv_def UsmInit_def)

lemma usm_inv_exec: "usm_inv s \<Longrightarrow> usm_inv (usm_exec c s)"
proof (cases c)
  case (Allow u l)
  assume inv: "usm_inv s"
  then have "allowlist_ok (set_of_user (SgiAllowlist s) u)"
    by (auto simp: set_of_user_def usm_inv_def split: option.splits)
  then have "allowlist_ok (fold (\<lambda>p al. AList.update p True al) (sgi_parts l) (set_of_user (SgiAllowlist s) u))"
    using sgi_parts_ok by (intro allowlist_ok_fold_update) auto
  with inv Allow show ?thesis
    by (auto simp: usm_wrapper_defs usm_sgi_allow_def usm_inv_def)
qed (auto simp: usm_wrapper_defs usm_token_add_def usm_token_del_def usm_sgi_revoke_def usm_inv_def
    intro: allowlist_ok_fold_delete split: option.splits)

lemma usm_inv_reachable: "usm_inv (fold usm_exec calls UsmInit)"
proof -
  have "usm_inv s \<Longrightarrow> usm_inv (fold usm_exec calls s)" for s
    by (induction calls arbitrary: s) (auto intro: usm_inv_exec)
  then show ?thesis using usm_inv_init by blast
qed

lemma AllowedSgis_list:
  assumes "usm_inv s" and shuffle: "\<And>xs. set (shuffle xs) = set xs" and "u \<noteq> []"
    and al: "map_of (SgiAllowlist s) u = Some al"
  shows "UsmUserAllowedSgis shuffle s u = map fst (filter snd (shuffle al))"
proof (cases "map fst (filter snd (shuffle al)) = []")
  case True
  then show ?thesis using al \<open>u \<noteq> []\<close> by (simp add: usm_wrapper_defs usm_sgi_list_def)
next
  case False
  let ?gs = "map fst (filter snd (shuffle al))"
  have gs: "g \<noteq> [] \<and> CHR '','' \<notin> set g" if "g \<in> set ?gs" for g
    using assms(1) al that unfolding usm_inv_def allowlist_ok_def by (fastforce simp: shuffle)
  then have "[] \<notin> set ?gs" by blast
  then have "?gs \<noteq> [[]]" by (metis list.set_intros(1))
  with False have "join_with '','' ?gs \<noteq> []" by (simp only: join_with_eq_Nil_iff list.distinct simp_thms)
  moreover have "split_on CHR '','' (join_with '','' ?gs) = ?gs"
    using False gs by (intro split_on_join) auto
  ultimately show ?thesis using al \<open>u \<noteq> []\<close> by (simp add: usm_wrapper_defs usm_sgi_list_def)
qed

lemma AllowedSgis_none:
  "\<not> (u \<noteq> [] \<and> map_of (SgiAllowlist s) u \<noteq> None) \<Longrightarrow> UsmUserAllowedSgis shuffle s u = []"
  by (auto simp: usm_wrapper_defs usm_sgi_list_def split: option.splits)

lemma AllowedSgis_eq:
  assumes "usm_inv s" and shuffle: "\<And>xs. set (shuffle xs) = set xs"
  shows "set (UsmUserAllowedSgis shuffle s u) = {g. UsmUserCanAccessSgi s u g}"
proof (cases "u \<noteq> [] \<and> map_of (SgiAllowlist s) u \<noteq> None")
  case False
  then show ?thesis by (auto simp: AllowedSgis_none UsmUserCanAccessSgi_iff)
next
  case True
  then obtain al where al: "map_of (SgiAllowlist s) u = Some al" by auto
  with assms(1) have "allowlist_ok al" by (simp add: usm_inv_def)
  then have ok: "distinct (map fst al)" "\<And>p. p \<in> set al \<Longrightarrow> snd p"
    by (auto simp: allowlist_ok_def)
  then have "map_of al g = Some True \<longleftrightarrow> g \<in> fst ` set al" for g
    by (force simp: map_of_eq_Some_iff)
  with al True AllowedSgis_list [OF assms _ al] ok show ?thesis
    by (auto simp: UsmUserCanAccessSgi_iff shuffle)
qed

lemma AllowedSgis_distinct:
  assumes "usm_inv s" and "\<And>xs. mset (shuffle xs) = mset xs"
  shows "distinct (UsmUserAllowedSgis shuffle s u)"
proof (cases "u \<noteq> [] \<and> map_of (SgiAllowlist s) u \<noteq> None")
  case True
  then obtain al where al: "map_of (SgiAllowlist s) u = Some al" by auto
  with assms(1) have "distinct (map fst al)" by (auto simp: usm_inv_def allowlist_ok_def)
  moreover have "mset (map fst (shuffle al)) = mset (map fst al)" by (simp add: assms(2))
  ultimately have "distinct (map fst (shuffle al))" by (metis mset_eq_imp_distinct_iff)
  moreover have "set (shuffle xs) = set xs" for xs by (metis assms(2) set_mset_mset)
  ultimately show ?thesis
    using AllowedSgis_list [OF assms(1) _ _ al] True by (simp add: distinct_map_filter)
qed (simp add: AllowedSgis_none)

text \<open>
  The listing used to push the read filter into queries and the check used to
  filter responses agree: after any sequence of calls, and in whatever order the map is
  iterated, \<open>UsmUserAllowedSgis\<close> lists exactly the groups for which
  \<open>UsmUserCanAccessSgi\<close> answers yes. Joining with commas loses nothing, because no stored
  group is empty or contains a comma.
\<close>

lemma UsmUserAllowedSgis_exact:
  assumes "\<And>xs. mset (shuffle xs) = mset xs"
  shows "set (UsmUserAllowedSgis shuffle (fold usm_exec calls UsmInit) u) =
    {g. UsmUserCanAccessSgi (fold usm_exec calls UsmInit) u g}"
  by (rule AllowedSgis_eq [OF usm_inv_reachable]) (metis assms set_mset_mset)

lemma UsmUserAllowedSgis_exact_witness:
  "set (UsmUserAllowedSgis rev (fold usm_exec [Allow ''0x1'' ''g1,g2,'', Revoke ''0x1'' ''g1''] UsmInit) ''0x1'') =
   {g. UsmUserCanAccessSgi (fold usm_exec [Allow ''0x1'' ''g1,g2,'', Revoke ''0x1'' ''g1''] UsmInit) ''0x1'' g}"
  by (rule UsmUserAllowedSgis_exact) simp

end
