(* ===== verification/UsmConc.thy ===== *)
theory UsmConc
  imports Usm
begin

text \<open>
  The session manager under concurrent callers (\<open>state/user.go\<close>, \<open>UsmRun\<close> and the
  wrappers): request handlers run in their own goroutines, call the wrappers at any time,
  and meet the server goroutine on unbuffered channels. A send completes only with a
  receive, so a reply on a channel nobody reads, or a caller waiting for a reply the
  server never sends, would block for ever.

  Clients are numbered; each wrapper call makes its own reply channel, named by its
  client. The whole refines an object on which every call takes effect at once, between its
  start and its return.
\<close>

section \<open>Wrapper calls as messages\<close>

datatype wrapper =
    CheckTokenId string string
  | AddTokenId string string
  | DeleteTokenId string string
  | UserCanAccessSgi string string
  | UserAllowedSgis string
  | UserAllowlistSgi string string
  | UserRevokeSgi string string

fun wrapper_request :: "wrapper \<Rightarrow> UsmRequest" where
  "wrapper_request (CheckTokenId u t) = makeMsg USM_TOKEN_GET u t True"
| "wrapper_request (AddTokenId u t) = makeMsg USM_TOKEN_ADD u t False"
| "wrapper_request (DeleteTokenId u t) = makeMsg USM_TOKEN_DEL u t True"
| "wrapper_request (UserCanAccessSgi u g) = makeMsg USM_SGI_CHECK u g True"
| "wrapper_request (UserAllowedSgis u) = makeMsg USM_SGI_LIST u [] True"
| "wrapper_request (UserAllowlistSgi u l) = makeMsg USM_SGI_ALLOW u l True"
| "wrapper_request (UserRevokeSgi u l) = makeMsg USM_SGI_REVOKE u l False"

text \<open>What a wrapper returns when it has read \<open>rv\<close>, or has not waited for a reply.\<close>

datatype answer = Verdict bool | Groups "string list" | NoAnswer

fun wrapper_result :: "wrapper \<Rightarrow> string option \<Rightarrow> answer" where
  "wrapper_result (CheckTokenId u t) rv = Verdict (rv = Some ''OK'')"
| "wrapper_result (AddTokenId u t) rv = NoAnswer"
| "wrapper_result (DeleteTokenId u t) rv = Verdict (rv = Some ''OK'')"
| "wrapper_result (UserCanAccessSgi u g) rv = Verdict (rv = Some ''OK'')"
| "wrapper_result (UserAllowedSgis u) rv =
     Groups (case rv of None \<Rightarrow> [] | Some v \<Rightarrow> if v = [] then [] else split_on CHR '','' v)"
| "wrapper_result (UserAllowlistSgi u l) rv = NoAnswer"
| "wrapper_result (UserRevokeSgi u l) rv = NoAnswer"

text \<open>A request is well paired when the server replies exactly if the caller listens.\<close>

definition paired :: "UsmRequest \<Rightarrow> bool" where
  "paired m \<longleftrightarrow> (\<forall>sh s. (snd (usm_handle sh s m) \<noteq> None) = HasReturnVal m)"

lemma wrapper_request_paired [usm_simps]: "paired (wrapper_request w)"
  by (cases w) (simp_all add: paired_def usm_handle_def makeMsg_def Let_def)

section \<open>The system of callers and server\<close>

datatype client_pc = Idle | Sending wrapper | Waiting wrapper | Returned wrapper "string option"

datatype server_pc = Receiving | Replying "nat option" string

record system =
  srv_state :: usm
  srv_pc :: server_pc
  clients :: "nat \<Rightarrow> client_pc"

definition init_system :: system where
  "init_system = \<lparr>srv_state = UsmInit, srv_pc = Receiving, clients = (\<lambda>_. Idle)\<rparr>"

definition ready :: "client_pc \<Rightarrow> bool" where
  "ready p \<longleftrightarrow> p = Idle \<or> (\<exists>w v. p = Returned w v)"

definition after_send :: "wrapper \<Rightarrow> client_pc" where
  "after_send c = (if HasReturnVal (wrapper_request c) then Waiting c else Returned c None)"

definition after_handle :: "nat \<Rightarrow> UsmRequest \<Rightarrow> string option \<Rightarrow> server_pc" where
  "after_handle i m r =
     (case r of None \<Rightarrow> Receiving
      | Some v \<Rightarrow> Replying (if HasReturnVal m then Some i else None) v)"

inductive sys_step :: "system \<Rightarrow> system \<Rightarrow> bool" where
  call: "ready (clients s i) \<Longrightarrow>
     sys_step s (s\<lparr>clients := (clients s)(i := Sending c)\<rparr>)"
| deliver: "\<lbrakk>clients s i = Sending c; srv_pc s = Receiving; \<And>xs. mset (sh xs) = mset xs;
     usm_handle sh (srv_state s) (wrapper_request c) = (st, r)\<rbrakk> \<Longrightarrow>
     sys_step s (s\<lparr>srv_state := st, srv_pc := after_handle i (wrapper_request c) r,
       clients := (clients s)(i := after_send c)\<rparr>)"
| reply: "\<lbrakk>srv_pc s = Replying (Some i) v; clients s i = Waiting c\<rbrakk> \<Longrightarrow>
     sys_step s (s\<lparr>srv_pc := Receiving, clients := (clients s)(i := Returned c (Some v))\<rparr>)"

inductive sys_reachable :: "system \<Rightarrow> bool" where
  start: "sys_reachable init_system"
| move: "sys_reachable s \<Longrightarrow> sys_step s t \<Longrightarrow> sys_reachable t"

inductive_cases sys_stepE: "sys_step s t"

section \<open>Invariant\<close>

definition waiting :: "client_pc \<Rightarrow> bool" where
  "waiting p \<longleftrightarrow> (\<exists>m. p = Waiting m)"

definition sys_inv :: "system \<Rightarrow> bool" where
  "sys_inv s \<longleftrightarrow> usm_inv (srv_state s) \<and>
     (\<forall>i. waiting (clients s i) = (\<exists>v. srv_pc s = Replying (Some i) v)) \<and>
     (\<forall>v. srv_pc s \<noteq> Replying None v)"

lemma waiting_simps [simp]:
  "waiting (Waiting c)" "\<not> waiting Idle" "\<not> waiting (Sending c)" "\<not> waiting (Returned c v)"
  by (simp_all add: waiting_def)

lemma ready_simps [simp]:
  "ready Idle" "ready (Returned c v)" "\<not> ready (Sending c)" "\<not> ready (Waiting c)"
  by (simp_all add: ready_def)

lemma ready_not_waiting: "ready p \<Longrightarrow> \<not> waiting p"
  by (auto simp: ready_def)

lemma sys_inv_init: "sys_inv init_system"
  by (simp add: sys_inv_def init_system_def usm_inv_init)

text \<open>The state after a request is that of the sequential call.\<close>

fun updating_call :: "wrapper \<Rightarrow> usm_call option" where
  "updating_call (AddTokenId u t) = Some (AddToken u t)"
| "updating_call (DeleteTokenId u t) = Some (DeleteToken u t)"
| "updating_call (UserAllowlistSgi u l) = Some (Allow u l)"
| "updating_call (UserRevokeSgi u l) = Some (Revoke u l)"
| "updating_call _ = None"

lemma usm_handle_state:
  "fst (usm_handle sh s (wrapper_request c)) = (case updating_call c of None \<Rightarrow> s | Some k \<Rightarrow> usm_exec k s)"
  by (cases c) (simp_all add: usm_wrapper_defs)

lemma usm_handle_inv: "usm_inv s \<Longrightarrow> usm_inv (fst (usm_handle sh s (wrapper_request c)))"
  by (simp add: usm_handle_state usm_inv_exec split: option.split)

lemma sys_inv_deliver:
  assumes inv: "sys_inv s" and i: "clients s i = Sending c" and "srv_pc s = Receiving"
    and h: "usm_handle sh (srv_state s) (wrapper_request c) = (st, r)"
  shows "sys_inv (s\<lparr>srv_state := st, srv_pc := after_handle i (wrapper_request c) r,
    clients := (clients s)(i := after_send c)\<rparr>)"
proof -
  have "(r \<noteq> None) = HasReturnVal (wrapper_request c)"
    using h wrapper_request_paired [of c] unfolding paired_def by (metis snd_conv)
  moreover have "usm_inv st" using usm_handle_inv [of "srv_state s" sh c] inv h by (simp add: sys_inv_def)
  ultimately show ?thesis
    using inv by (auto simp: sys_inv_def assms(3) after_handle_def after_send_def split: option.splits)
qed

lemma sys_inv_step: "sys_step s t \<Longrightarrow> sys_inv s \<Longrightarrow> sys_inv t"
proof (induction rule: sys_step.induct)
  case (call s i c)
  then show ?case using ready_not_waiting by (auto simp: sys_inv_def)
next
  case (deliver s i c sh st r)
  then show ?case by (intro sys_inv_deliver)
next
  case (reply s i v c)
  then show ?case by (auto simp: sys_inv_def)
qed

lemma sys_reachable_inv: "sys_reachable s \<Longrightarrow> sys_inv s"
  by (induction rule: sys_reachable.induct) (blast intro: sys_inv_init sys_inv_step)+

section \<open>Progress\<close>

definition pending :: "system \<Rightarrow> nat \<Rightarrow> bool" where
  "pending s i \<longleftrightarrow> \<not> ready (clients s i)"

definition work :: "system \<Rightarrow> nat \<Rightarrow> nat" where
  "work s i = (case clients s i of Sending _ \<Rightarrow> 2 | Waiting _ \<Rightarrow> 1 | _ \<Rightarrow> 0)"

lemma progress:
  assumes "sys_reachable s" and "pending s i"
  shows "\<exists>t j. sys_step s t \<and> work t j < work s j \<and> (\<forall>k. work t k \<le> work s k)"
proof (cases "srv_pc s")
  case Receiving
  with sys_reachable_inv [OF assms(1)] have "\<not> waiting (clients s i)" by (simp add: sys_inv_def)
  with assms(2) obtain m where m: "clients s i = Sending m"
    by (cases "clients s i") (auto simp: pending_def)
  obtain st r where "usm_handle id (srv_state s) (wrapper_request m) = (st, r)" by fastforce
  then have "sys_step s (s\<lparr>srv_state := st, srv_pc := after_handle i (wrapper_request m) r,
    clients := (clients s)(i := after_send m)\<rparr>)" (is "sys_step s ?t")
    by (intro sys_step.deliver [where sh = id] m Receiving) simp_all
  moreover have "work ?t i < work s i" "\<forall>k. work ?t k \<le> work s k"
    using m by (simp_all add: work_def after_send_def)
  ultimately show ?thesis by blast
next
  case (Replying ch v)
  with sys_reachable_inv [OF assms(1)] obtain j where j: "srv_pc s = Replying (Some j) v" "waiting (clients s j)"
    by (cases ch) (auto simp: sys_inv_def)
  then obtain m where m: "clients s j = Waiting m" by (auto simp: waiting_def)
  from sys_step.reply [OF j(1) m]
  have "sys_step s (s\<lparr>srv_pc := Receiving, clients := (clients s)(j := Returned m (Some v))\<rparr>)"
    (is "sys_step s ?t") .
  moreover have "work ?t j < work s j" "\<forall>k. work ?t k \<le> work s k"
    using m by (simp_all add: work_def)
  ultimately show ?thesis by blast
qed

text \<open>
  The session manager never deadlocks: in every reachable state of any number
  of concurrent callers, if some call has not returned then the server and a caller can
  take a step that brings a pending call closer to its return (a send is taken, or a reply
  is read) and sets no call back. In particular the server is never stuck replying on a
  nil channel, and a caller waits for a reply only while the server is sending it.
\<close>

lemma usm_no_deadlock:
  assumes "sys_reachable s" and "pending s i"
  shows "(\<exists>t j. sys_step s t \<and> work t j < work s j \<and> (\<forall>k. work t k \<le> work s k))
    \<and> (\<forall>v. srv_pc s \<noteq> Replying None v)"
  using progress [OF assms] sys_reachable_inv [OF assms(1)] by (simp add: sys_inv_def)

definition one_call :: system where
  "one_call = init_system\<lparr>clients := (clients init_system)(0 := Sending (CheckTokenId ''0x1'' ''t''))\<rparr>"

lemma one_call_reachable: "sys_reachable one_call"
  unfolding one_call_def
  by (rule sys_reachable.move [OF sys_reachable.start sys_step.call]) (simp add: init_system_def)

lemma usm_no_deadlock_witness:
  "\<exists>t j. sys_step one_call t \<and> work t j < work one_call j \<and> (\<forall>k. work t k \<le> work one_call k)"
proof -
  have "pending one_call 0" by (simp add: pending_def one_call_def)
  from usm_no_deadlock [OF one_call_reachable this] show ?thesis by blast
qed

section \<open>The atomic object\<close>

text \<open>
  The specification: an object that holds the two sets of \<open>usm_spec\<close>. A client calls it; at
  some moment while the call is open it takes effect on the sets at once, and its answer is
  what the sets at that moment say.
\<close>

datatype object_client = Quiet | Called wrapper | Answered wrapper answer

record usm_object =
  obj_sets :: usm_spec
  obj_clients :: "nat \<Rightarrow> object_client"

definition empty_object :: usm_object where
  "empty_object = \<lparr>obj_sets = \<lparr>spec_tokens = {}, spec_grants = {}\<rparr>, obj_clients = (\<lambda>_. Quiet)\<rparr>"

fun spec_update :: "wrapper \<Rightarrow> usm_spec \<Rightarrow> usm_spec" where
  "spec_update (AddTokenId u t) a = (if u = [] then a else a\<lparr>spec_tokens := insert (u, t) (spec_tokens a)\<rparr>)"
| "spec_update (DeleteTokenId u t) a = a\<lparr>spec_tokens := spec_tokens a - {(u, t)}\<rparr>"
| "spec_update (UserAllowlistSgi u l) a =
     (if u = [] then a else a\<lparr>spec_grants := spec_grants a \<union> {u} \<times> set (sgi_parts l)\<rparr>)"
| "spec_update (UserRevokeSgi u l) a = a\<lparr>spec_grants := spec_grants a - {u} \<times> set (sgi_parts l)\<rparr>"
| "spec_update _ a = a"

fun spec_answer :: "usm_spec \<Rightarrow> wrapper \<Rightarrow> answer \<Rightarrow> bool" where
  "spec_answer a (CheckTokenId u t) r \<longleftrightarrow> r = Verdict ((u, t) \<in> spec_tokens a)"
| "spec_answer a (DeleteTokenId u t) r \<longleftrightarrow> r = Verdict True"
| "spec_answer a (UserCanAccessSgi u g) r \<longleftrightarrow> r = Verdict ((u, g) \<in> spec_grants a)"
| "spec_answer a (UserAllowedSgis u) r \<longleftrightarrow>
     (case r of Groups gs \<Rightarrow> distinct gs \<and> set gs = {g. (u, g) \<in> spec_grants a} | _ \<Rightarrow> False)"
| "spec_answer a _ r \<longleftrightarrow> r = NoAnswer"

inductive object_step :: "usm_object \<Rightarrow> usm_object \<Rightarrow> bool" where
  open_call: "(\<And>d. obj_clients a i \<noteq> Called d) \<Longrightarrow>
     object_step a (a\<lparr>obj_clients := (obj_clients a)(i := Called c)\<rparr>)"
| take_effect: "\<lbrakk>obj_clients a i = Called c; spec_answer (obj_sets a) c r\<rbrakk> \<Longrightarrow>
     object_step a \<lparr>obj_sets = spec_update c (obj_sets a), obj_clients = (obj_clients a)(i := Answered c r)\<rparr>"

text \<open>The object that a state of the system stands for: a reply under way has been answered.\<close>

definition object_client :: "server_pc \<Rightarrow> client_pc \<Rightarrow> object_client" where
  "object_client pc p =
     (case p of
        Idle \<Rightarrow> Quiet
      | Sending c \<Rightarrow> Called c
      | Waiting c \<Rightarrow> Answered c (wrapper_result c (case pc of Replying ch v \<Rightarrow> Some v | Receiving \<Rightarrow> None))
      | Returned c rv \<Rightarrow> Answered c (wrapper_result c rv))"

definition object_of :: "system \<Rightarrow> usm_object" where
  "object_of s = \<lparr>obj_sets = abs_usm (srv_state s), obj_clients = (\<lambda>i. object_client (srv_pc s) (clients s i))\<rparr>"

lemma object_client_settled: "\<not> waiting p \<Longrightarrow> object_client pc p = object_client pc' p"
  by (cases p) (simp_all add: object_client_def)

lemma spec_update_call:
  "abs_usm (fst (usm_handle sh s (wrapper_request c))) = spec_update c (abs_usm s)"
  unfolding usm_handle_state by (cases c) (simp_all add: abs_usm_exec del: usm_exec.simps)

lemma usm_handle_list:
  "wrapper_result (UserAllowedSgis u) (snd (usm_handle sh s (wrapper_request (UserAllowedSgis u))))
   = Groups (UsmUserAllowedSgis sh s u)"
  by (simp add: usm_wrapper_defs)

lemma spec_answer_call:
  assumes "usm_inv s" and "\<And>xs. mset (sh xs) = mset xs"
  shows "spec_answer (abs_usm s) c (wrapper_result c (snd (usm_handle sh s (wrapper_request c))))"
proof (cases c)
  case (UserAllowedSgis u)
  have "set (sh xs) = set xs" for xs by (metis assms(2) set_mset_mset)
  from AllowedSgis_eq [OF assms(1) this] AllowedSgis_distinct [OF assms] show ?thesis
    unfolding UserAllowedSgis usm_handle_list by (simp add: abs_usm_def)
qed (simp_all add: abs_usm_def usm_wrapper_defs)

lemma object_deliver:
  assumes inv: "sys_inv s" and i: "clients s i = Sending c" and pc: "srv_pc s = Receiving"
    and sh: "\<And>xs. mset (sh xs) = mset xs" and h: "usm_handle sh (srv_state s) (wrapper_request c) = (st, r)"
  shows "object_step (object_of s) (object_of (s\<lparr>srv_state := st, srv_pc := after_handle i (wrapper_request c) r,
    clients := (clients s)(i := after_send c)\<rparr>))" (is "object_step ?a (object_of ?t)")
proof -
  have "(r \<noteq> None) = HasReturnVal (wrapper_request c)"
    using h wrapper_request_paired [of c] unfolding paired_def by (metis snd_conv)
  then have own: "object_client (srv_pc ?t) (after_send c) = Answered c (wrapper_result c r)"
    by (auto simp: object_client_def after_send_def after_handle_def split: option.split)
  have "\<not> waiting (clients s k)" for k using inv pc by (simp add: sys_inv_def)
  then have rest: "object_client (srv_pc ?t) (clients s k) = object_client (srv_pc s) (clients s k)" for k
    by (rule object_client_settled)
  have "spec_answer (obj_sets ?a) c (wrapper_result c r)"
    using spec_answer_call [OF _ sh, of "srv_state s" c] inv h by (simp add: object_of_def sys_inv_def)
  moreover have "obj_clients ?a i = Called c" by (simp add: object_of_def object_client_def i)
  moreover have "object_of ?t = \<lparr>obj_sets = spec_update c (obj_sets ?a),
      obj_clients = (obj_clients ?a)(i := Answered c (wrapper_result c r))\<rparr>"
    using spec_update_call [of sh "srv_state s" c] own rest by (auto simp: object_of_def h fun_eq_iff)
  ultimately show ?thesis by (metis object_step.take_effect)
qed

lemma object_call:
  assumes "ready (clients s i)"
  shows "object_step (object_of s) (object_of (s\<lparr>clients := (clients s)(i := Sending c)\<rparr>))"
proof -
  have "object_of (s\<lparr>clients := (clients s)(i := Sending c)\<rparr>)
      = (object_of s)\<lparr>obj_clients := (obj_clients (object_of s))(i := Called c)\<rparr>"
    by (auto simp: object_of_def object_client_def fun_eq_iff)
  moreover have "obj_clients (object_of s) i \<noteq> Called d" for d
    using assms by (cases "clients s i") (simp_all add: object_of_def object_client_def)
  ultimately show ?thesis by (metis object_step.open_call)
qed

lemma object_reply:
  assumes inv: "sys_inv s" and pc: "srv_pc s = Replying (Some i) v" and i: "clients s i = Waiting c"
  shows "object_of (s\<lparr>srv_pc := Receiving, clients := (clients s)(i := Returned c (Some v))\<rparr>) = object_of s"
proof -
  have "object_client Receiving (clients s k) = object_client (srv_pc s) (clients s k)" if "k \<noteq> i" for k
    using inv pc that by (intro object_client_settled) (auto simp: sys_inv_def)
  moreover have "object_client Receiving (Returned c (Some v)) = object_client (srv_pc s) (clients s i)"
    by (simp add: object_client_def i pc)
  ultimately show ?thesis by (auto simp: object_of_def fun_eq_iff)
qed

text \<open>
  Property C18. Concurrent calls are linearised: the manager behaves like one object on which
  every call takes effect at once. It starts as the empty object, and each step that the
  server and any number of callers take from a reachable state either is a step of the object
  (a call is opened; or an open call takes effect on the set of sessions or of grants and
  gets the answer that these sets give at that moment) or, for the reading of a reply,
  leaves the object as it is; what a wrapper returns is the answer of the object.
\<close>

theorem usm_linearised:
  assumes "sys_reachable s" and "sys_step s t"
  shows "object_of init_system = empty_object
    \<and> (object_step (object_of s) (object_of t)
       \<or> (object_of t = object_of s \<and> (\<exists>i c v. clients s i = Waiting c \<and> clients t i = Returned c (Some v))))"
proof
  show "object_of init_system = empty_object"
    by (simp add: object_of_def init_system_def empty_object_def object_client_def abs_usm_def usm_simps)
  note inv = sys_reachable_inv [OF assms(1)]
  from assms(2) show "object_step (object_of s) (object_of t)
      \<or> (object_of t = object_of s \<and> (\<exists>i c v. clients s i = Waiting c \<and> clients t i = Returned c (Some v)))"
  proof (cases rule: sys_step.cases)
    case (reply i v c)
    with object_reply [OF inv, of i v c] show ?thesis by auto
  next
    case (deliver i c sh st r)
    with object_deliver [OF inv deliver(2-5)] show ?thesis by simp
  qed (use object_call in auto)
qed

text \<open>Client 1 adds a token id; client 0 asks for it and the server has taken the question.\<close>

definition asked_system :: system where
  "asked_system = init_system\<lparr>srv_state := UsmAddTokenId UsmInit ''0x1'' ''t'',
     clients := (\<lambda>_. Idle)(1 := Returned (AddTokenId ''0x1'' ''t'') None, 0 := Sending (CheckTokenId ''0x1'' ''t''))\<rparr>"

definition answered_system :: system where
  "answered_system = asked_system\<lparr>srv_pc := Replying (Some 0) ''OK'',
     clients := (clients asked_system)(0 := Waiting (CheckTokenId ''0x1'' ''t''))\<rparr>"

lemma asked_reachable: "sys_reachable asked_system"
proof -
  let ?add = "AddTokenId ''0x1'' ''t''"
  let ?s1 = "init_system\<lparr>clients := (clients init_system)(1 := Sending ?add)\<rparr>"
  let ?s2 = "?s1\<lparr>srv_state := UsmAddTokenId UsmInit ''0x1'' ''t'', srv_pc := after_handle 1 (wrapper_request ?add) None,
    clients := (clients ?s1)(1 := after_send ?add)\<rparr>"
  have "sys_reachable ?s1"
    by (rule sys_reachable.move [OF sys_reachable.start sys_step.call]) (simp add: init_system_def)
  moreover have "sys_step ?s1 ?s2"
    by (rule sys_step.deliver [where sh = id]) (simp_all add: init_system_def usm_wrapper_defs)
  ultimately have "sys_reachable ?s2" by (rule sys_reachable.move)
  then have "sys_reachable (?s2\<lparr>clients := (clients ?s2)(0 := Sending (CheckTokenId ''0x1'' ''t''))\<rparr>)"
    by (rule sys_reachable.move [OF _ sys_step.call]) (simp add: init_system_def)
  moreover have "?s2\<lparr>clients := (clients ?s2)(0 := Sending (CheckTokenId ''0x1'' ''t''))\<rparr> = asked_system"
    by (simp add: asked_system_def init_system_def after_handle_def after_send_def makeMsg_def fun_eq_iff)
  ultimately show ?thesis by simp
qed

lemma asked_step: "sys_step asked_system answered_system"
proof -
  let ?c = "CheckTokenId ''0x1'' ''t''"
  have "sys_step asked_system (asked_system\<lparr>srv_state := srv_state asked_system,
      srv_pc := after_handle 0 (wrapper_request ?c) (Some ''OK''), clients := (clients asked_system)(0 := after_send ?c)\<rparr>)"
    by (rule sys_step.deliver [where sh = id])
      (simp_all add: asked_system_def init_system_def usm_wrapper_defs usm_token_get_def usm_token_add_def)
  then show ?thesis by (simp add: answered_system_def after_handle_def after_send_def makeMsg_def)
qed

theorem usm_linearised_witness:
  "object_step (object_of asked_system) (object_of answered_system)
   \<and> obj_clients (object_of answered_system) 0 = Answered (CheckTokenId ''0x1'' ''t'') (Verdict True)
   \<and> (''0x1'', ''t'') \<in> spec_tokens (obj_sets (object_of asked_system))"
proof -
  have a: "obj_clients (object_of answered_system) 0 = Answered (CheckTokenId ''0x1'' ''t'') (Verdict True)"
    by (simp add: object_of_def answered_system_def object_client_def)
  moreover have "obj_clients (object_of asked_system) 0 = Called (CheckTokenId ''0x1'' ''t'')"
    by (simp add: object_of_def asked_system_def object_client_def)
  ultimately have "object_of answered_system \<noteq> object_of asked_system" by (metis object_client.distinct(5))
  then have "object_step (object_of asked_system) (object_of answered_system)"
    using usm_linearised [OF asked_reachable asked_step] by blast
  moreover have "(''0x1'', ''t'') \<in> spec_tokens (obj_sets (object_of asked_system))"
    by (simp add: object_of_def asked_system_def abs_usm_def usm_simps)
  ultimately show ?thesis using a by blast
qed

section \<open>Termination\<close>

text \<open>Steps that serve the pending calls, as opposed to new calls.\<close>

definition serve_step :: "system \<Rightarrow> system \<Rightarrow> bool" where
  "serve_step s t \<longleftrightarrow> sys_step s t \<and> (\<exists>i. work t i < work s i)"

definition total_work :: "system \<Rightarrow> nat" where
  "total_work s = (\<Sum>i \<in> {i. pending s i}. work s i)"

lemma pending_work: "pending s i \<longleftrightarrow> 0 < work s i"
  by (cases "clients s i") (simp_all add: pending_def work_def)

lemma step_work: "sys_step s t \<Longrightarrow> \<exists>i. \<forall>k. k \<noteq> i \<longrightarrow> work t k = work s k"
  by (erule sys_stepE) (auto simp: work_def)

lemma serve_step_work:
  assumes "serve_step s t"
  obtains i where "work t i < work s i" and "\<And>k. k \<noteq> i \<Longrightarrow> work t k = work s k"
proof -
  from assms obtain i where i: "work t i < work s i" and "sys_step s t" by (auto simp: serve_step_def)
  from step_work [OF this(2)] obtain j where j: "\<forall>k. k \<noteq> j \<longrightarrow> work t k = work s k" by blast
  with i have "j = i" by (metis less_irrefl)
  with j have "\<And>k. k \<noteq> i \<Longrightarrow> work t k = work s k" by simp
  from that [OF i this] show thesis .
qed

lemma finite_pending_step: "sys_step s t \<Longrightarrow> finite {i. pending s i} \<Longrightarrow> finite {i. pending t i}"
proof -
  assume "sys_step s t" and f: "finite {i. pending s i}"
  then obtain i where "\<forall>k. k \<noteq> i \<longrightarrow> work t k = work s k" using step_work by blast
  then have "{k. pending t k} \<subseteq> insert i {k. pending s k}" by (auto simp: pending_work)
  with f show ?thesis by (simp add: finite_subset)
qed

lemma finite_pending: "sys_reachable s \<Longrightarrow> finite {i. pending s i}"
proof (induction rule: sys_reachable.induct)
  case start
  then show ?case by (simp add: init_system_def pending_def)
qed (rule finite_pending_step)

lemma serve_step_total:
  assumes "serve_step s t" and f: "finite {i. pending s i}"
  shows "total_work t < total_work s"
proof -
  from assms(1) obtain i where i: "work t i < work s i" and o: "\<And>k. k \<noteq> i \<Longrightarrow> work t k = work s k"
    by (rule serve_step_work) (rule that)
  have sub: "{k. pending t k} \<subseteq> {k. pending s k}"
  proof
    fix k assume "k \<in> {k. pending t k}"
    then show "k \<in> {k. pending s k}" using i o [of k] by (cases "k = i") (auto simp: pending_work)
  qed
  have "total_work t = (\<Sum>k \<in> {k. pending s k}. work t k)"
    unfolding total_work_def using sub f by (intro sum.mono_neutral_left) (auto simp: pending_work)
  also have "\<dots> < (\<Sum>k \<in> {k. pending s k}. work s k)"
  proof (rule sum_strict_mono_ex1 [OF f])
    show "\<forall>k \<in> {k. pending s k}. work t k \<le> work s k" using i o by (metis less_imp_le order_refl)
    show "\<exists>k \<in> {k. pending s k}. work t k < work s k"
      using i by (intro bexI [of _ i]) (auto simp: pending_work)
  qed
  finally show ?thesis by (simp add: total_work_def)
qed

lemma serve_steps_reachable: "(serve_step ^^ n) s t \<Longrightarrow> sys_reachable s \<Longrightarrow> sys_reachable t"
proof (induction n arbitrary: t)
  case (Suc n)
  then obtain u where "(serve_step ^^ n) s u" "serve_step u t" by auto
  with Suc show ?case unfolding serve_step_def by (blast intro: sys_reachable.move)
qed simp

lemma serve_steps_bound: "(serve_step ^^ n) s t \<Longrightarrow> sys_reachable s \<Longrightarrow> n + total_work t \<le> total_work s"
proof (induction n arbitrary: t)
  case (Suc n)
  then obtain u where u: "(serve_step ^^ n) s u" "serve_step u t" by auto
  from serve_step_total [OF u(2) finite_pending [OF serve_steps_reachable [OF u(1) Suc.prems(2)]]]
    Suc.IH [OF u(1) Suc.prems(2)] show ?case by simp
qed simp

text \<open>
  Property C19. Serving terminates: from any reachable state of any number of concurrent callers,
  if no new calls are made then the server and the callers take at most \<open>total_work\<close> further
  steps (two for a call not yet taken, one for a call awaiting its reply), in whatever order
  the steps happen; and when no further step is possible every call has returned.
\<close>

theorem usm_serving_terminates:
  assumes "sys_reachable s" and "(serve_step ^^ n) s t"
  shows "n \<le> total_work s \<and> ((\<nexists>u. serve_step t u) \<longrightarrow> (\<forall>i. ready (clients t i)))"
proof
  show "n \<le> total_work s" using serve_steps_bound [OF assms(2,1)] by simp
  show "(\<nexists>u. serve_step t u) \<longrightarrow> (\<forall>i. ready (clients t i))"
  proof (rule impI, rule ccontr)
    assume stuck: "\<nexists>u. serve_step t u" and "\<not> (\<forall>i. ready (clients t i))"
    then obtain i where "pending t i" by (auto simp: pending_def)
    from progress [OF serve_steps_reachable [OF assms(2,1)] this] stuck show False
      by (auto simp: serve_step_def)
  qed
qed

theorem usm_serving_terminates_witness:
  "\<exists>t. (serve_step ^^ 1) one_call t \<and> 1 \<le> total_work one_call \<and> total_work one_call = 2"
proof -
  have "{i. pending one_call i} = {0}"
    by (auto simp: pending_def one_call_def init_system_def)
  then have w: "total_work one_call = 2"
    by (simp add: total_work_def) (simp add: work_def one_call_def)
  have "pending one_call 0" by (simp add: pending_def one_call_def)
  from progress [OF one_call_reachable this] obtain u where "serve_step one_call u"
    by (auto simp: serve_step_def)
  then obtain t where t: "(serve_step ^^ 1) one_call t" by (metis relpowp_1)
  with usm_serving_terminates [OF one_call_reachable t] w show ?thesis by blast
qed

end
