(* ===== verification/Crypto.thy ===== *)
theory Crypto
  imports GoStrings
begin

unbundle bit_operations_syntax

text \<open>
  \<open>security/crypto.go\<close>: raw URL base64, random identifiers, digests, password hashes and
  AES-GCM envelopes. Byte slices are byte strings.

  The digest and cipher primitives (\<open>crypto/hmac\<close>, \<open>sha512\<close>, \<open>md5\<close>, \<open>aes\<close>,
  \<open>argon2\<close>) are the fields of a record \<open>crypto\<close> that every definition using them takes
  as an argument: nothing here depends on which functions they are. Entropy is an
  argument too, a stream of bytes; the clock is an argument in nanoseconds.
\<close>

type_synonym bytes = string

record crypto =
  hmac_sha256 :: "bytes \<Rightarrow> bytes \<Rightarrow> bytes"   \<comment> \<open>key, message\<close>
  sha512_256 :: "bytes \<Rightarrow> bytes"
  md5_sum :: "bytes \<Rightarrow> bytes"
  argon2_id :: "bytes \<Rightarrow> bytes \<Rightarrow> nat \<Rightarrow> nat \<Rightarrow> nat \<Rightarrow> nat \<Rightarrow> bytes"
  gcm_seal :: "bytes \<Rightarrow> bytes \<Rightarrow> bytes \<Rightarrow> bytes"   \<comment> \<open>key, nonce, plaintext\<close>
  gcm_open :: "bytes \<Rightarrow> bytes \<Rightarrow> bytes \<Rightarrow> bytes option"   \<comment> \<open>key, nonce, ciphertext\<close>

type_synonym entropy = "nat \<Rightarrow> char"

section \<open>Raw URL base64\<close>

definition b64_char :: "nat \<Rightarrow> char" where
  "b64_char n =
     (if n < 26 then chr (65 + n)
      else if n < 52 then chr (71 + n)
      else if n < 62 then chr (n - 4)
      else if n = 62 then CHR ''-'' else CHR ''_'')"

definition b64_val :: "char \<Rightarrow> nat option" where
  "b64_val c =
     (if 65 \<le> ord c \<and> ord c \<le> 90 then Some (ord c - 65)
      else if 97 \<le> ord c \<and> ord c \<le> 122 then Some (ord c - 71)
      else if 48 \<le> ord c \<and> ord c \<le> 57 then Some (ord c + 4)
      else if c = CHR ''-'' then Some 62
      else if c = CHR ''_'' then Some 63
      else None)"

fun B64Encode :: "bytes \<Rightarrow> string" where
  "B64Encode [] = []"
| "B64Encode [a] = [b64_char (ord a div 4), b64_char (ord a mod 4 * 16)]"
| "B64Encode [a, b] =
     [b64_char (ord a div 4), b64_char (ord a mod 4 * 16 + ord b div 16),
      b64_char (ord b mod 16 * 4)]"
| "B64Encode (a # b # c # r) =
     b64_char (ord a div 4) # b64_char (ord a mod 4 * 16 + ord b div 16)
     # b64_char (ord b mod 16 * 4 + ord c div 64) # b64_char (ord c mod 64) # B64Encode r"

text \<open>
  \<open>base64.RawURLEncoding.DecodeString\<close>: quanta of four characters, the last possibly of two
  or three. A corrupt quantum stops the decoding; the bytes of the quanta before it are
  returned beside the error (the flag is \<open>True\<close> when there is none). Newlines are skipped.
\<close>

definition quantum2 :: "nat \<Rightarrow> nat \<Rightarrow> char" where
  "quantum2 v w = chr ((v * 4 + w div 16) mod 256)"

definition quantum3 :: "nat \<Rightarrow> nat \<Rightarrow> char" where
  "quantum3 w x = chr ((w mod 16 * 16 + x div 4) mod 256)"

definition quantum4 :: "nat \<Rightarrow> nat \<Rightarrow> char" where
  "quantum4 x y = chr ((x mod 4 * 64 + y) mod 256)"

fun decode_quanta :: "string \<Rightarrow> bytes \<times> bool" where
  "decode_quanta [] = ([], True)"
| "decode_quanta [a] = ([], False)"
| "decode_quanta [a, b] =
     (case (b64_val a, b64_val b) of
        (Some v, Some w) \<Rightarrow> ([quantum2 v w], True)
      | _ \<Rightarrow> ([], False))"
| "decode_quanta [a, b, c] =
     (case (b64_val a, b64_val b, b64_val c) of
        (Some v, Some w, Some x) \<Rightarrow> ([quantum2 v w, quantum3 w x], True)
      | _ \<Rightarrow> ([], False))"
| "decode_quanta (a # b # c # d # r) =
     (case (b64_val a, b64_val b, b64_val c, b64_val d) of
        (Some v, Some w, Some x, Some y) \<Rightarrow>
          (case decode_quanta r of (bs, ok) \<Rightarrow>
             (quantum2 v w # quantum3 w x # quantum4 x y # bs, ok))
      | _ \<Rightarrow> ([], False))"

definition DecodeString :: "string \<Rightarrow> bytes \<times> bool" where
  "DecodeString s = decode_quanta (filter (\<lambda>c. c \<noteq> CHR 0x0A \<and> c \<noteq> CHR 0x0D) s)"

text \<open>\<open>B64Decode\<close> logs the error and returns the bytes decoded so far.\<close>

definition B64Decode :: "string \<Rightarrow> bytes" where
  "B64Decode s = fst (DecodeString s)"

definition b64url :: "char \<Rightarrow> bool" where
  "b64url c \<longleftrightarrow> b64_val c \<noteq> None"

lemma b64_char_cases:
  assumes "n < 64"
  shows "ord (b64_char n) =
    (if n < 26 then 65 + n else if n < 52 then 71 + n else if n < 62 then n - 4
     else if n = 62 then 45 else 95)"
  using assms by (auto simp: b64_char_def)

lemma b64_val_char [simp]: "n < 64 \<Longrightarrow> b64_val (b64_char n) = Some n"
proof -
  assume n: "n < 64"
  consider "n < 26" | "26 \<le> n" "n < 52" | "52 \<le> n" "n < 62" | "n = 62" | "n = 63"
    using n by linarith
  then show ?thesis
    by cases (auto simp: b64_val_def b64_char_cases [OF n], simp_all add: b64_char_def)
qed

lemma b64url_char [simp]: "n < 64 \<Longrightarrow> b64url (b64_char n)"
  by (simp add: b64url_def)

subsection \<open>Sextets\<close>

lemma sextet_bounds [simp]:
  fixes a b c :: nat
  shows "a < 256 \<Longrightarrow> a div 4 < 64" and "a mod 4 * 16 < 64" and "b mod 16 * 4 < 64" and "c mod 64 < 64"
    and "b < 256 \<Longrightarrow> a mod 4 * 16 + b div 16 < 64"
    and "c < 256 \<Longrightarrow> b mod 16 * 4 + c div 64 < 64"
proof -
  have r: "a mod 4 < 4" "b mod 16 < 16" "c mod 64 < 64" by simp_all
  show "a mod 4 * 16 < 64" "b mod 16 * 4 < 64" "c mod 64 < 64" using r by linarith+
  show "a < 256 \<Longrightarrow> a div 4 < 64" by simp
  show "a mod 4 * 16 + b div 16 < 64" if "b < 256"
  proof -
    have "b div 16 < 16" using that by simp
    with r show ?thesis by linarith
  qed
  show "b mod 16 * 4 + c div 64 < 64" if "c < 256"
  proof -
    have "c div 64 < 4" using that by simp
    with r show ?thesis by linarith
  qed
qed

lemma join_sextets [simp]:
  fixes a b c :: nat
  shows "b < 256 \<Longrightarrow> a div 4 * 4 + (a mod 4 * 16 + b div 16) div 16 = a"
    and "a div 4 * 4 + (a mod 4 * 16) div 16 = a"
    and "b < 256 \<Longrightarrow> c < 256 \<Longrightarrow> (a mod 4 * 16 + b div 16) mod 16 * 16 + (b mod 16 * 4 + c div 64) div 4 = b"
    and "b < 256 \<Longrightarrow> (a mod 4 * 16 + b div 16) mod 16 * 16 + (b mod 16 * 4) div 4 = b"
    and "c < 256 \<Longrightarrow> (b mod 16 * 4 + c div 64) mod 4 * 64 + c mod 64 = c"
proof -
  have 1: "(k * 16 + r) div 16 = k" "(k * 16 + r) mod 16 = r" if "r < 16" for k r :: nat
    using that by simp_all
  have 2: "(k * 4 + r) div 4 = k" "(k * 4 + r) mod 4 = r" if "r < 4" for k r :: nat
    using that by simp_all
  show "b < 256 \<Longrightarrow> a div 4 * 4 + (a mod 4 * 16 + b div 16) div 16 = a"
    by (subst 1) simp_all
  show "a div 4 * 4 + (a mod 4 * 16) div 16 = a" by simp
  show "b < 256 \<Longrightarrow> c < 256 \<Longrightarrow> (a mod 4 * 16 + b div 16) mod 16 * 16 + (b mod 16 * 4 + c div 64) div 4 = b"
    by (subst 1(2), simp, subst 2(1)) simp_all
  show "b < 256 \<Longrightarrow> (a mod 4 * 16 + b div 16) mod 16 * 16 + (b mod 16 * 4) div 4 = b"
    by (subst 1(2)) simp_all
  show "c < 256 \<Longrightarrow> (b mod 16 * 4 + c div 64) mod 4 * 64 + c mod 64 = c"
    by (subst 2(2)) simp_all
qed

lemma chr_mod_eq: "n = ord a \<Longrightarrow> chr (n mod 256) = a"
  by simp

lemma join_quanta [simp]:
  "quantum2 (ord a div 4) (ord a mod 4 * 16 + ord b div 16) = a"
  "quantum2 (ord a div 4) (ord a mod 4 * 16) = a"
  "quantum3 (ord a mod 4 * 16 + ord b div 16) (ord b mod 16 * 4 + ord c div 64) = b"
  "quantum3 (ord a mod 4 * 16 + ord b div 16) (ord b mod 16 * 4) = b"
  "quantum4 (ord b mod 16 * 4 + ord c div 64) (ord c mod 64) = c"
  unfolding quantum2_def quantum3_def quantum4_def
  by (intro chr_mod_eq join_sextets ord_less)+

lemma B64Encode_chars: "c \<in> set (B64Encode bs) \<Longrightarrow> b64url c"
  by (induction bs rule: B64Encode.induct) auto

lemma b64url_not_special:
  "b64url c \<Longrightarrow> c \<notin> {CHR ''.'', CHR '','', CHR ''$'', CHR '':'', CHR '' '', CHR 0x0A, CHR 0x0D}"
  by (auto simp: b64url_def b64_val_def)

lemma decode_quanta_B64Encode: "decode_quanta (B64Encode bs) = (bs, True)"
  by (induction bs rule: B64Encode.induct) simp_all

lemma filter_newlines_B64Encode:
  "filter (\<lambda>c. c \<noteq> CHR 0x0A \<and> c \<noteq> CHR 0x0D) (B64Encode bs) = B64Encode bs"
  using b64url_not_special B64Encode_chars by (intro filter_True) blast

lemma DecodeString_B64Encode: "DecodeString (B64Encode bs) = (bs, True)"
  unfolding DecodeString_def filter_newlines_B64Encode decode_quanta_B64Encode ..

section \<open>The interface of a text codec\<close>

text \<open>
  What the token and authorisation-data formats rely on: decoding inverts encoding, and
  encoded text stays within a character set, so that a separator outside it can frame
  several encoded fields.
\<close>

locale text_codec =
  fixes enc :: "bytes \<Rightarrow> string"
    and dec :: "string \<Rightarrow> bytes"
    and ok :: "char \<Rightarrow> bool"
  assumes dec_enc: "dec (enc bs) = bs"
    and enc_ok: "c \<in> set (enc bs) \<Longrightarrow> ok c"
begin

lemma enc_inj: "enc x = enc y \<Longrightarrow> x = y"
  by (metis dec_enc)

lemma sep_notin_enc: "\<not> ok sep \<Longrightarrow> sep \<notin> set (enc bs)"
  using enc_ok by blast

lemma split_framed:
  "\<not> ok sep \<Longrightarrow> split_on sep (enc x @ sep # enc y) = [enc x, enc y]"
  by (simp add: split_on_append split_on_no_sep sep_notin_enc)

lemma framed_inj:
  assumes "\<not> ok sep" and "enc x @ sep # enc y = enc x' @ sep # enc y'"
  shows "x = x' \<and> y = y'"
proof -
  have "[enc x, enc y] = split_on sep (enc x @ sep # enc y)"
    by (rule split_framed [OF assms(1), symmetric])
  also have "\<dots> = [enc x', enc y']"
    unfolding assms(2) by (rule split_framed [OF assms(1)])
  finally show ?thesis using enc_inj by blast
qed

lemma enc_eq_Nil_iff: "enc [] = [] \<Longrightarrow> enc x = [] \<longleftrightarrow> x = []"
  using enc_inj by fastforce

end

interpretation b64: text_codec B64Encode B64Decode b64url
  by unfold_locales (simp_all add: B64Decode_def DecodeString_B64Encode B64Encode_chars)

lemma not_b64url [simp]:
  "\<not> b64url CHR ''.''" "\<not> b64url CHR '',''" "\<not> b64url CHR ''$''" "\<not> b64url CHR '' ''"
  using b64url_not_special by blast+

lemma B64Encode_eq_Nil_iff [simp]: "B64Encode bs = [] \<longleftrightarrow> bs = []"
  by (rule b64.enc_eq_Nil_iff) simp

lemma length_B64Encode: "length (B64Encode bs) = (4 * length bs + 2) div 3"
  by (induction bs rule: B64Encode.induct) simp_all

text \<open>
  Base64 round trip: for every byte string, \<open>B64Decode\<close> returns the bytes
  that \<open>B64Encode\<close> encoded, the decoder reports no error, and the text consists of the
  64 characters of the URL alphabet, none of which is a separator of the token,
  authorisation-data or password-hash formats.
\<close>

lemma b64_roundtrip:
  "DecodeString (B64Encode bs) = (bs, True) \<and> B64Decode (B64Encode bs) = bs
   \<and> list_all b64url (B64Encode bs)
   \<and> set (B64Encode bs) \<inter> {CHR ''.'', CHR ''$'', CHR '','', CHR '' ''} = {}"
proof -
  have "set (B64Encode bs) \<inter> {CHR ''.'', CHR ''$'', CHR '','', CHR '' ''} = {}"
    using b64.sep_notin_enc not_b64url by fast
  then show ?thesis
    by (simp add: DecodeString_B64Encode b64.dec_enc list_all_iff B64Encode_chars)
qed

section \<open>Random identifiers\<close>

definition GenerateRandomBytes :: "entropy \<Rightarrow> nat \<Rightarrow> bytes" where
  "GenerateRandomBytes rnd len = map rnd [0..<len]"

definition hex_byte :: "char \<Rightarrow> string" where
  "hex_byte b = [hex_digit (ord b div 16), hex_digit (ord b mod 16)]"

definition EncodeToString :: "bytes \<Rightarrow> string" where
  "EncodeToString bs = concat (map hex_byte bs)"

definition slice :: "string \<Rightarrow> nat \<Rightarrow> nat \<Rightarrow> string" where
  "slice s i j = take (j - i) (drop i s)"

definition set_guid_bits :: "bytes \<Rightarrow> bytes" where
  "set_guid_bits b =
     (if 5 \<le> length b
      then b[6 := chr (ord (b ! 6) AND 15 OR 64), 8 := chr (ord (b ! 8) AND 63 OR 128)]
      else b)"

definition GenerateGuid :: "entropy \<Rightarrow> string" where
  "GenerateGuid rnd =
     (let hexString = EncodeToString (set_guid_bits (GenerateRandomBytes rnd 16))
      in slice hexString 0 8 @ ''-'' @ slice hexString 8 12 @ ''-'' @ slice hexString 12 16 @ ''-''
         @ slice hexString 16 20 @ ''-'' @ slice hexString 20 32)"

definition le_bytes64 :: "int \<Rightarrow> bytes" where
  "le_bytes64 v = map (\<lambda>i. chr (nat (v mod 2 ^ 64) div 256 ^ i mod 256)) [0..<8]"

text \<open>
  A share group id: six bytes of the millisecond clock and four random bytes. Writing the
  eight bytes of an integer to a memory buffer does not fail, so the other branch of the
  source is not reachable.
\<close>

definition GenerateSgi :: "int \<Rightarrow> entropy \<Rightarrow> string" where
  "GenerateSgi nowNanos rnd =
     B64Encode (take 6 (le_bytes64 (nowNanos div 1000000)) @ GenerateRandomBytes rnd 4)"

lemma length_EncodeToString [simp]: "length (EncodeToString bs) = 2 * length bs"
  by (induction bs) (simp_all add: EncodeToString_def hex_byte_def)

lemma EncodeToString_chars: "c \<in> set (EncodeToString bs) \<Longrightarrow> hex_char c"
proof -
  have "hex_char (hex_digit d)" if "d < 16" for d
    using that by (auto simp: hex_char_def ord_hex_digit)
  moreover have "ord b div 16 < 16" for b :: char
    using ord_less [of b] by linarith
  ultimately show "c \<in> set (EncodeToString bs) \<Longrightarrow> hex_char c"
    by (auto simp: EncodeToString_def hex_byte_def)
qed

lemma length_GenerateSgi: "length (GenerateSgi t rnd) = 14"
  by (simp add: GenerateSgi_def length_B64Encode le_bytes64_def GenerateRandomBytes_def)

lemma GenerateSgi_chars: "c \<in> set (GenerateSgi t rnd) \<Longrightarrow> b64url c"
  unfolding GenerateSgi_def by (rule B64Encode_chars)

section \<open>Digests and password hashes\<close>

definition MD5SumHex :: "crypto \<Rightarrow> bytes \<Rightarrow> string" where
  "MD5SumHex C data = EncodeToString (md5_sum C data)"

definition SHA512Hash :: "crypto \<Rightarrow> bytes \<Rightarrow> bytes" where
  "SHA512Hash C data = sha512_256 C data"

definition Argon2IDKey :: "crypto \<Rightarrow> string \<Rightarrow> bytes \<Rightarrow> bytes" where
  "Argon2IDKey C password saltBytes = argon2_id C password saltBytes 1 (32 * 1024) 1 32"

definition HashPassword :: "crypto \<Rightarrow> string \<Rightarrow> bytes \<Rightarrow> string" where
  "HashPassword C password saltBytes =
     B64Encode (Argon2IDKey C password saltBytes) @ ''$'' @ B64Encode saltBytes"

definition GeneratePasswordHash :: "crypto \<Rightarrow> entropy \<Rightarrow> string \<Rightarrow> string" where
  "GeneratePasswordHash C rnd password = HashPassword C password (GenerateRandomBytes rnd 16)"

definition VerifyPasswordHash :: "crypto \<Rightarrow> string \<Rightarrow> string \<Rightarrow> bool" where
  "VerifyPasswordHash C storedHash password =
     (let hashParts = split_on CHR ''$'' storedHash
      in if length hashParts < 2 then False
         else HashPassword C password (B64Decode (hashParts ! 1)) = storedHash)"

lemma VerifyPasswordHash_char:
  "VerifyPasswordHash C stored pw \<longleftrightarrow> (\<exists>salt. stored = HashPassword C pw salt)"
proof
  assume "VerifyPasswordHash C stored pw"
  then show "\<exists>salt. stored = HashPassword C pw salt"
    unfolding VerifyPasswordHash_def Let_def by (metis (full_types))
next
  assume "\<exists>salt. stored = HashPassword C pw salt"
  then obtain salt where s: "stored = HashPassword C pw salt" ..
  then have "split_on CHR ''$'' stored = [B64Encode (Argon2IDKey C pw salt), B64Encode salt]"
    by (simp add: HashPassword_def b64.split_framed)
  with s show "VerifyPasswordHash C stored pw"
    by (simp add: VerifyPasswordHash_def b64.dec_enc)
qed

text \<open>
  Password verification is exact: \<open>VerifyPasswordHash\<close> accepts a stored
  string for a password exactly when the string is \<open>HashPassword\<close> of that password under
  some salt. So a hash made by \<open>GeneratePasswordHash\<close> verifies for its password, a stored
  string without a salt part never does, and another password is accepted only if its
  Argon2 key under the stored salt is the same.
\<close>

lemma VerifyPasswordHash_iff:
  "VerifyPasswordHash C stored pw \<longleftrightarrow> (\<exists>salt. stored = HashPassword C pw salt)"
  by (rule VerifyPasswordHash_char)

lemma HashPassword_eq_iff:
  "HashPassword C pw salt = HashPassword C pw' salt' \<longleftrightarrow>
   salt = salt' \<and> Argon2IDKey C pw salt = Argon2IDKey C pw' salt"
  (is "?l \<longleftrightarrow> ?r")
proof
  assume ?l
  then have "B64Encode (Argon2IDKey C pw salt) @ CHR ''$'' # B64Encode salt =
      B64Encode (Argon2IDKey C pw' salt') @ CHR ''$'' # B64Encode salt'"
    unfolding HashPassword_def append_Cons append_Nil .
  then have "Argon2IDKey C pw salt = Argon2IDKey C pw' salt' \<and> salt = salt'"
    by (rule b64.framed_inj [OF not_b64url(3)])
  then show ?r by auto
qed (auto simp: HashPassword_def)

section \<open>AES-GCM envelopes\<close>

datatype crypto_error = KeySizeError | InvalidCiphertext | AuthFailed

text \<open>
  \<open>aes.NewCipher\<close> accepts keys of 16, 24 or 32 bytes. \<open>Open\<close> panics on a nonce whose
  length is not 12 (index 0 of X).
\<close>

definition aes_key_ok :: "bytes \<Rightarrow> bool" where
  "aes_key_ok k \<longleftrightarrow> length k \<in> {16, 24, 32}"

definition AESGCMEncrypt :: "crypto \<Rightarrow> entropy \<Rightarrow> string \<Rightarrow> string \<Rightarrow> crypto_error + string" where
  "AESGCMEncrypt C rnd keyB64Str plainText =
     (let key = B64Decode keyB64Str in
      if \<not> aes_key_ok key then Inl KeySizeError
      else
        (let nonceBytes = GenerateRandomBytes rnd 12;
             cipherText = gcm_seal C key nonceBytes plainText
         in Inr (B64Encode cipherText @ ''.'' @ B64Encode nonceBytes)))"

datatype gcm_panic = IncorrectNonceLength

definition AESGCMDecrypt :: "crypto \<Rightarrow> string \<Rightarrow> string \<Rightarrow> gcm_panic + (crypto_error + string)" where
  "AESGCMDecrypt C keyB64Str cipherText =
     (let key = B64Decode keyB64Str in
      if \<not> aes_key_ok key then Inr (Inl KeySizeError)
      else
        (let cipherTextParts = split_on CHR ''.'' cipherText in
         if length cipherTextParts < 2 then Inr (Inl InvalidCiphertext)
         else
           (let cipherTextBytes = B64Decode (cipherTextParts ! 0);
                nonceBytes = B64Decode (cipherTextParts ! 1)
            in if length nonceBytes \<noteq> 12 then Inl IncorrectNonceLength
               else (case gcm_open C key nonceBytes cipherTextBytes of
                       None \<Rightarrow> Inr (Inl AuthFailed)
                     | Some plainText \<Rightarrow> Inr (Inr plainText)))))"

text \<open>The law of an authenticated cipher that the envelope relies on.\<close>

definition gcm_law :: "crypto \<Rightarrow> bool" where
  "gcm_law C \<longleftrightarrow> (\<forall>k n p. aes_key_ok k \<longrightarrow> length n = 12 \<longrightarrow> gcm_open C k n (gcm_seal C k n p) = Some p)"

lemma AESGCM_roundtrip:
  assumes "gcm_law C" and "AESGCMEncrypt C rnd key p = Inr ct"
  shows "AESGCMDecrypt C key ct = Inr (Inr p)"
proof -
  let ?n = "GenerateRandomBytes rnd 12" and ?k = "B64Decode key"
  have "length ?n = 12" by (simp add: GenerateRandomBytes_def)
  with assms show ?thesis
    by (auto simp: AESGCMEncrypt_def AESGCMDecrypt_def Let_def gcm_law_def b64.split_framed
        b64.dec_enc split: if_splits)
qed

end
