(* ===== verification/Auth.thy ===== *)
theory Auth
  imports Crypto
begin

text \<open>
  \<open>security/auth.go\<close>: message authentication codes over base64 text, bearer tokens, and the
  derivation of a per-user key from the master secret. A token is
  \<open>b64(uid.role.tokenid.timestamp).b64(mac)\<close>; \<open>UADFromToken\<close> returns \<open>None\<close> where the source
  returns a nil pointer.
\<close>

definition SYS_ROLE :: string where
  "SYS_ROLE = ''sys''"

record UserAuthData =
  UadUid :: string
  UadRole :: string
  UadTokenId :: string
  UadTimestamp :: string
  UadSecretKey :: string

definition IsAdmin :: "UserAuthData \<Rightarrow> bool" where
  "IsAdmin u \<longleftrightarrow> UadRole u = SYS_ROLE"

definition MAC :: "crypto \<Rightarrow> bytes \<Rightarrow> bytes \<Rightarrow> bytes" where
  "MAC C message key = hmac_sha256 C key message"

definition MessageAndMAC :: "crypto \<Rightarrow> string \<Rightarrow> string \<Rightarrow> string" where
  "MessageAndMAC C message key =
     (let m64 = B64Encode message;
          mac64 = B64Encode (MAC C m64 (B64Decode key))
      in m64 @ ''.'' @ mac64)"

definition ConstructToken :: "crypto \<Rightarrow> string \<Rightarrow> string \<Rightarrow> string \<Rightarrow> string \<Rightarrow> string \<Rightarrow> string" where
  "ConstructToken C uid role tokenid timestamp key =
     (let t = uid @ ''.'' @ role @ ''.'' @ tokenid @ ''.'' @ timestamp
      in MessageAndMAC C t key)"

definition IsValidMAC :: "crypto \<Rightarrow> bytes \<Rightarrow> bytes \<Rightarrow> bytes \<Rightarrow> bool" where
  "IsValidMAC C message messageMAC key =
     (let expectedMAC = MAC C message key in messageMAC = expectedMAC)"

definition UserKeyFromMasterSecret :: "crypto \<Rightarrow> string \<Rightarrow> string \<Rightarrow> string \<Rightarrow> string" where
  "UserKeyFromMasterSecret C masterKey uid role =
     (let b = B64Decode masterKey @ (uid @ ''::'' @ role) in B64Encode (SHA512Hash C b))"

definition UADFromToken :: "crypto \<Rightarrow> string \<Rightarrow> string \<Rightarrow> UserAuthData option" where
  "UADFromToken C token key =
     (let tp = split_on CHR ''.'' token in
      if length tp \<noteq> 2 then None
      else
        (let t64 = tp ! 0; tmac64 = tp ! 1 in
         if \<not> IsValidMAC C t64 (B64Decode tmac64) (B64Decode key) then None
         else
           (let up = split_on CHR ''.'' (B64Decode t64) in
            if length up \<noteq> 4 then None
            else Some \<lparr>UadUid = up ! 0, UadRole = up ! 1, UadTokenId = up ! 2, UadTimestamp = up ! 3,
                   UadSecretKey = UserKeyFromMasterSecret C key (up ! 0) (up ! 1)\<rparr>)))"

section \<open>Field lists separated by dots\<close>

abbreviation dot_free :: "string \<Rightarrow> bool" where
  "dot_free s \<equiv> CHR ''.'' \<notin> set s"

lemma split_dot2: "dot_free a \<Longrightarrow> dot_free b \<Longrightarrow> split_on CHR ''.'' (a @ ''.'' @ b) = [a, b]"
  by (simp add: split_on_append split_on_no_sep)

lemma split_dot3:
  "dot_free a \<Longrightarrow> dot_free b \<Longrightarrow> dot_free c \<Longrightarrow>
   split_on CHR ''.'' (a @ ''.'' @ b @ ''.'' @ c) = [a, b, c]"
  by (simp add: split_on_append split_on_no_sep)

lemma split_dot4:
  "dot_free a \<Longrightarrow> dot_free b \<Longrightarrow> dot_free c \<Longrightarrow> dot_free d \<Longrightarrow>
   split_on CHR ''.'' (a @ ''.'' @ b @ ''.'' @ c @ ''.'' @ d) = [a, b, c, d]"
  by (simp add: split_on_append split_on_no_sep)

lemma split_dot4_length:
  "length (split_on CHR ''.'' (a @ ''.'' @ b @ ''.'' @ c @ ''.'' @ d)) = 4 \<Longrightarrow>
   dot_free a \<and> dot_free b \<and> dot_free c \<and> dot_free d"
  by (simp add: length_split_on count_list_0_iff)

lemma dot_free_B64Encode [simp]: "dot_free (B64Encode bs)"
  by (simp add: b64.sep_notin_enc)

lemma length_2_conv: "length xs = 2 \<longleftrightarrow> (\<exists>a b. xs = [a, b])"
  by (auto simp: numeral_2_eq_2 length_Suc_conv)

lemma length_3_conv: "length xs = 3 \<longleftrightarrow> (\<exists>a b c. xs = [a, b, c])"
  by (auto simp: numeral_3_eq_3 length_Suc_conv)

lemma length_4_conv: "length xs = 4 \<longleftrightarrow> (\<exists>a b c d. xs = [a, b, c, d])"
  by (auto simp: numeral_eq_Suc length_Suc_conv)

lemma split_MessageAndMAC:
  "split_on CHR ''.'' (MessageAndMAC C m key) =
   [B64Encode m, B64Encode (MAC C (B64Encode m) (B64Decode key))]"
  by (simp add: MessageAndMAC_def Let_def b64.split_framed)

lemma MessageAndMAC_valid [simp]: "IsValidMAC C m (MAC C m k) k"
  by (simp add: IsValidMAC_def)

section \<open>Tokens\<close>

definition token_uad :: "crypto \<Rightarrow> string \<Rightarrow> string \<Rightarrow> string \<Rightarrow> string \<Rightarrow> string \<Rightarrow> UserAuthData" where
  "token_uad C uid role tokenid timestamp key =
     \<lparr>UadUid = uid, UadRole = role, UadTokenId = tokenid, UadTimestamp = timestamp,
      UadSecretKey = UserKeyFromMasterSecret C key uid role\<rparr>"

text \<open>
  Token round trip: a token built by \<open>ConstructToken\<close> from fields without dots
  is accepted by \<open>UADFromToken\<close> under the same master key, which returns exactly those
  fields and the key derived for that user and role.
\<close>

lemma token_roundtrip:
  assumes "dot_free uid" and "dot_free role" and "dot_free tokenid" and "dot_free timestamp"
  shows "UADFromToken C (ConstructToken C uid role tokenid timestamp key) key =
    Some (token_uad C uid role tokenid timestamp key)"
  using split_dot4 [OF assms]
  by (simp add: UADFromToken_def ConstructToken_def Let_def split_MessageAndMAC
      MessageAndMAC_valid b64.dec_enc token_uad_def)

definition toy_crypto :: crypto where
  "toy_crypto =
     \<lparr>hmac_sha256 = (\<lambda>k m. k @ m), sha512_256 = (\<lambda>m. m), md5_sum = (\<lambda>m. m),
      argon2_id = (\<lambda>p s _ _ _ _. p @ s), gcm_seal = (\<lambda>k n p. k @ n @ p),
      gcm_open = (\<lambda>k n c. if prefix (k @ n) c then Some (drop (length k + length n) c) else None)\<rparr>"

lemma token_roundtrip_witness:
  "UADFromToken toy_crypto (ConstructToken toy_crypto ''0x1'' ''sys'' ''AbCd'' ''1700'' ''c2Vj'') ''c2Vj'' =
   Some (token_uad toy_crypto ''0x1'' ''sys'' ''AbCd'' ''1700'' ''c2Vj'')"
  by (rule token_roundtrip) simp_all

lemma UADFromToken_char:
  "UADFromToken C token key = Some u \<longleftrightarrow>
   (\<exists>t64 mac64 uid role tokenid timestamp.
      split_on CHR ''.'' token = [t64, mac64] \<and>
      B64Decode mac64 = hmac_sha256 C (B64Decode key) t64 \<and>
      split_on CHR ''.'' (B64Decode t64) = [uid, role, tokenid, timestamp] \<and>
      u = token_uad C uid role tokenid timestamp key)"
  (is "?l \<longleftrightarrow> ?r")
proof
  assume ?l
  then have "length (split_on CHR ''.'' token) = 2"
    by (auto simp: UADFromToken_def Let_def split: if_splits)
  then obtain t64 mac64 where tp: "split_on CHR ''.'' token = [t64, mac64]"
    by (auto simp: length_2_conv)
  with \<open>?l\<close> have "length (split_on CHR ''.'' (B64Decode t64)) = 4"
    by (auto simp: UADFromToken_def Let_def split: if_splits)
  then obtain a b c d where up: "split_on CHR ''.'' (B64Decode t64) = [a, b, c, d]"
    by (auto simp: length_4_conv)
  from \<open>?l\<close> tp up have "B64Decode mac64 = hmac_sha256 C (B64Decode key) t64"
    and "u = token_uad C a b c d key"
    by (auto simp: UADFromToken_def Let_def IsValidMAC_def MAC_def token_uad_def split: if_splits)
  with tp up show ?r by blast
next
  assume ?r
  then show ?l
    by (auto simp: UADFromToken_def Let_def IsValidMAC_def MAC_def token_uad_def)
qed

text \<open>
  \<open>not_forged\<close> is the assumption on the message authentication code: whoever made the token
  has no code for a text that the server has not put into a token under this key. The codes
  of issued tokens may be reused, cut off and combined at will.
\<close>

type_synonym token_fields = "string \<times> string \<times> string \<times> string"

fun issued_token :: "crypto \<Rightarrow> string \<Rightarrow> token_fields \<Rightarrow> string" where
  "issued_token C key (uid, role, tokenid, timestamp) = ConstructToken C uid role tokenid timestamp key"

definition authenticated_part :: "string \<Rightarrow> string" where
  "authenticated_part token = hd (split_on CHR ''.'' token)"

definition not_forged :: "crypto \<Rightarrow> string \<Rightarrow> string set \<Rightarrow> string \<Rightarrow> bool" where
  "not_forged C key tokens token \<longleftrightarrow>
     (\<forall>t64 mac64. split_on CHR ''.'' token = [t64, mac64]
        \<and> B64Decode mac64 = hmac_sha256 C (B64Decode key) t64 \<longrightarrow> t64 \<in> authenticated_part ` tokens)"

lemma authenticated_part_issued:
  "authenticated_part (ConstructToken C uid role tokenid timestamp key)
   = B64Encode (uid @ ''.'' @ role @ ''.'' @ tokenid @ ''.'' @ timestamp)"
  by (simp add: authenticated_part_def ConstructToken_def Let_def split_MessageAndMAC)

lemma UADFromToken_not_forged:
  assumes "not_forged C key tokens token" and "UADFromToken C token key = Some u"
  shows "\<exists>t \<in> tokens. \<exists>uid role tokenid timestamp.
    split_on CHR ''.'' (B64Decode (authenticated_part t)) = [uid, role, tokenid, timestamp]
    \<and> u = token_uad C uid role tokenid timestamp key"
  using assms unfolding UADFromToken_char not_forged_def by fastforce

lemma issued_fields:
  assumes "split_on CHR ''.'' (B64Decode (authenticated_part (ConstructToken C uid role tokenid timestamp key))) = [a, b, c, d]"
  shows "a = uid \<and> b = role \<and> c = tokenid \<and> d = timestamp"
    and "dot_free uid \<and> dot_free role \<and> dot_free tokenid \<and> dot_free timestamp"
proof -
  let ?s = "uid @ ''.'' @ role @ ''.'' @ tokenid @ ''.'' @ timestamp"
  have s: "split_on CHR ''.'' ?s = [a, b, c, d]"
    using assms by (simp add: authenticated_part_issued b64.dec_enc)
  then have "length (split_on CHR ''.'' ?s) = 4" by simp
  then show free: "dot_free uid \<and> dot_free role \<and> dot_free tokenid \<and> dot_free timestamp"
    by (rule split_dot4_length)
  with split_dot4 [of uid role tokenid timestamp] s show "a = uid \<and> b = role \<and> c = tokenid \<and> d = timestamp"
    by simp
qed

lemma issued_token_accepted:
  "UADFromToken C (ConstructToken C uid role tokenid timestamp key) key =
   (if dot_free uid \<and> dot_free role \<and> dot_free tokenid \<and> dot_free timestamp
    then Some (token_uad C uid role tokenid timestamp key) else None)"
proof (cases "dot_free uid \<and> dot_free role \<and> dot_free tokenid \<and> dot_free timestamp")
  case True
  then show ?thesis using token_roundtrip by simp
next
  case False
  have "UADFromToken C (ConstructToken C uid role tokenid timestamp key) key \<noteq> Some u" for u
  proof
    assume "UADFromToken C (ConstructToken C uid role tokenid timestamp key) key = Some u"
    then obtain a b c d where "split_on CHR ''.'' (B64Decode (authenticated_part
        (ConstructToken C uid role tokenid timestamp key))) = [a, b, c, d]"
      unfolding UADFromToken_char authenticated_part_def by fastforce
    from issued_fields(2) [OF this] False show False by simp
  qed
  with False show ?thesis by auto
qed



lemma UADFromToken_fields:
  assumes "UADFromToken C token key = Some u"
  shows "dot_free (UadUid u)" and "dot_free (UadRole u)" and "dot_free (UadTokenId u)"
    and "UadSecretKey u = UserKeyFromMasterSecret C key (UadUid u) (UadRole u)"
proof -
  obtain t uid role ti ts where s: "split_on CHR ''.'' t = [uid, role, ti, ts]"
    and u: "u = token_uad C uid role ti ts key"
    using UADFromToken_char [THEN iffD1, OF assms] by blast
  have "dot_free x" if "x \<in> set [uid, role, ti, ts]" for x
    using split_on_parts_no_sep [of x "CHR ''.''" t] that s by simp
  with u show "dot_free (UadUid u)" "dot_free (UadRole u)" "dot_free (UadTokenId u)"
    "UadSecretKey u = UserKeyFromMasterSecret C key (UadUid u) (UadRole u)"
    by (simp_all add: token_uad_def)
qed

section \<open>Per-user keys\<close>

definition colon_free :: "string \<Rightarrow> bool" where
  "colon_free s \<longleftrightarrow> CHR '':'' \<notin> set s"

definition user_key_input :: "string \<Rightarrow> string \<Rightarrow> string \<Rightarrow> bytes" where
  "user_key_input masterKey uid role = B64Decode masterKey @ uid @ ''::'' @ role"

lemma user_key_input_inj:
  assumes "colon_free uid" and "colon_free uid'"
    and "user_key_input k uid role = user_key_input k uid' role'"
  shows "uid = uid' \<and> role = role'"
proof -
  have eq: "uid @ CHR '':'' # CHR '':'' # role = uid' @ CHR '':'' # CHR '':'' # role'"
    using assms(3) by (simp add: user_key_input_def)
  have "uid = takeWhile (\<lambda>c. c \<noteq> CHR '':'') (uid @ CHR '':'' # CHR '':'' # role)"
    using assms(1) by (subst takeWhile_append2) (auto simp: colon_free_def)
  also have "\<dots> = uid'"
    unfolding eq using assms(2) by (subst takeWhile_append2) (auto simp: colon_free_def)
  finally show ?thesis using eq by simp
qed

text \<open>
  Key separation: if the digest does not collide on the two derivation inputs,
  users whose uids contain no colon get equal keys from one master secret only when both
  the uid and the role agree. So authorisation data signed for one session identity is not
  accepted under the key of another.
\<close>

lemma UserKey_separation:
  assumes "colon_free uid" and "colon_free uid'"
    and "inj_on (sha512_256 C) {user_key_input k uid role, user_key_input k uid' role'}"
  shows "UserKeyFromMasterSecret C k uid role = UserKeyFromMasterSecret C k uid' role' \<longleftrightarrow>
    uid = uid' \<and> role = role'"
proof
  assume "UserKeyFromMasterSecret C k uid role = UserKeyFromMasterSecret C k uid' role'"
  then have "sha512_256 C (user_key_input k uid role) = sha512_256 C (user_key_input k uid' role')"
    unfolding UserKeyFromMasterSecret_def SHA512Hash_def user_key_input_def Let_def
    by (rule b64.enc_inj)
  then have "user_key_input k uid role = user_key_input k uid' role'"
    by (rule inj_onD [OF assms(3)]) (rule insertI1, rule insertI2, rule insertI1)
  with assms(1,2) show "uid = uid' \<and> role = role'" by (intro user_key_input_inj)
qed auto

lemma UserKey_separation_witness:
  "UserKeyFromMasterSecret toy_crypto ''c2Vj'' ''0x1'' ''sys'' \<noteq>
   UserKeyFromMasterSecret toy_crypto ''c2Vj'' ''0x1'' ''user''"
proof -
  have inj: "inj_on (sha512_256 toy_crypto) S" for S by (simp add: inj_on_def toy_crypto_def)
  have "colon_free ''0x1''" by (simp add: colon_free_def)
  from UserKey_separation [OF this this inj] show ?thesis by simp
qed

end
