(* ===== verification/Node.thy ===== *)
theory Node
  imports Complex_Main Auth Usm
begin

text \<open>
  \<open>models/base.go\<close>, \<open>models/geoloc.go\<close>, \<open>models/node.go\<close> and \<open>models/user.go\<close>: graph
  nodes and users, the signed authorisation data (AD) that stands for a node in client
  requests, and the permission checks.

  Embedding in Go is record extension here. A pointer field is an \<open>option\<close>; the fields
  that refer to other nodes or users are arguments of the mutually recursive datatypes.
  A node is \<open>GraphNode attrs edges owner\<close>. Methods that write through their receiver return
  the new value; methods that can dereference nil return \<open>'a go\<close>.
\<close>

section \<open>Data\<close>

datatype float64 = NaN | PosInf | NegInf | Finite rat

type_synonym time = int   \<comment> \<open>nanoseconds since the epoch\<close>

record graph_base =
  Uid :: string
  DgraphType :: "string list"
  AuthzData :: string

record Geoloc =
  GeoType :: string
  Coords :: "float64 list"

record node_attrs = graph_base +
  PermRead :: "bool option"
  PermWrite :: "bool option"
  PermOutEdge :: "bool option"
  PermInEdge :: "bool option"
  PermDelete :: "bool option"
  PermShare :: "bool option"
  Id :: "string option"
  NType :: "string option"
  Sgi :: "string option"
  PrivateData :: "string option"
  String1 :: "string option"
  String2 :: "string option"
  String3 :: "string option"
  String4 :: "string option"
  Blob :: "string option"
  Vec :: "string option"
  Num1 :: "float64 option"
  Num2 :: "float64 option"
  TimeCreated :: "time option"
  TimeModified :: "time option"
  Time1 :: "time option"
  Time2 :: "time option"
  Location :: "Geoloc option"

record user_attrs = graph_base +
  Username :: "string option"
  PasswordHash :: "string option"
  UData :: "string option"
  InternalData :: "string option"
  URole :: "string option"

datatype graph_node =
    GraphNode (nattrs: node_attrs) (OutEdges: "graph_node option list option")
      (Owner: "graph_user option")
  and graph_user =
    GraphUser (uattrs: user_attrs) (Nodes: "graph_node option list option")
      (Shared: "graph_node option list option")

abbreviation NodeUid :: "graph_node \<Rightarrow> string" where
  "NodeUid n \<equiv> Uid (nattrs n)"

abbreviation UserUid :: "graph_user \<Rightarrow> string" where
  "UserUid u \<equiv> Uid (uattrs u)"

definition SetUid :: "string \<Rightarrow> graph_node \<Rightarrow> graph_node" where
  "SetUid uid n = GraphNode ((nattrs n)\<lparr>Uid := uid\<rparr>) (OutEdges n) (Owner n)"

definition node_attrs_of_uid :: "string \<Rightarrow> node_attrs" where
  "node_attrs_of_uid uid =
     \<lparr>Uid = uid, DgraphType = [], AuthzData = [], PermRead = None, PermWrite = None,
      PermOutEdge = None, PermInEdge = None, PermDelete = None, PermShare = None, Id = None,
      NType = None, Sgi = None, PrivateData = None, String1 = None, String2 = None,
      String3 = None, String4 = None, Blob = None, Vec = None, Num1 = None, Num2 = None,
      TimeCreated = None, TimeModified = None, Time1 = None, Time2 = None, Location = None\<rparr>"

definition NewGraphNodeJustUID :: "string \<Rightarrow> graph_node" where
  "NewGraphNodeJustUID uid = GraphNode (node_attrs_of_uid uid) None None"

definition NewGraphNodeEdge :: "string \<Rightarrow> string \<Rightarrow> graph_node" where
  "NewGraphNodeEdge parentUID childUID =
     GraphNode (node_attrs_of_uid parentUID) (Some [Some (NewGraphNodeJustUID childUID)]) None"

definition NewGraphUser :: "string \<Rightarrow> graph_user" where
  "NewGraphUser userUid =
     GraphUser \<lparr>Uid = userUid, DgraphType = [], AuthzData = [], Username = None, PasswordHash = None,
       UData = None, InternalData = None, URole = None\<rparr> None None"

definition NewGraphNodeJustOwnerAndPerms :: "graph_node option \<Rightarrow> graph_node option" where
  "NewGraphNodeJustOwnerAndPerms origNode =
     map_option (\<lambda>orig. let a = nattrs orig in
       GraphNode ((node_attrs_of_uid (Uid a))\<lparr>Sgi := Sgi a, PermRead := PermRead a,
         PermWrite := PermWrite a, PermOutEdge := PermOutEdge a, PermInEdge := PermInEdge a,
         PermDelete := PermDelete a, PermShare := PermShare a\<rparr>) None (Owner orig)) origNode"

section \<open>Permission bits\<close>

definition null_to_false :: "bool option \<Rightarrow> bool option" where
  "null_to_false b = Some (b = Some True)"

definition ConvertNullBoolFieldsToFalse :: "graph_node \<Rightarrow> graph_node" where
  "ConvertNullBoolFieldsToFalse n =
     (let a = nattrs n in
      GraphNode (a\<lparr>PermRead := null_to_false (PermRead a), PermWrite := null_to_false (PermWrite a),
        PermOutEdge := null_to_false (PermOutEdge a), PermInEdge := null_to_false (PermInEdge a),
        PermDelete := null_to_false (PermDelete a), PermShare := null_to_false (PermShare a)\<rparr>)
        (OutEdges n) (Owner n))"

definition perm_bit :: "node_attrs \<Rightarrow> char \<Rightarrow> bool option" where
  "perm_bit a c =
     (if c = CHR ''r'' then PermRead a
      else if c = CHR ''w'' then PermWrite a
      else if c = CHR ''o'' then PermOutEdge a
      else if c = CHR ''i'' then PermInEdge a
      else if c = CHR ''d'' then PermDelete a
      else if c = CHR ''s'' then PermShare a
      else Some True)"

definition perm_set :: "node_attrs \<Rightarrow> char \<Rightarrow> bool" where
  "perm_set a c \<longleftrightarrow> perm_bit a c = Some True"

text \<open>\<open>HasRequiredPermissions\<close> also turns nil bits of its receiver into false.\<close>

definition HasRequiredPermissions :: "graph_node \<Rightarrow> string \<Rightarrow> graph_node \<times> bool" where
  "HasRequiredPermissions n rp =
     (if rp = [] then (n, True)
      else (let n' = ConvertNullBoolFieldsToFalse n in (n', list_all (perm_set (nattrs n')) rp)))"

definition perm_chars :: string where
  "perm_chars = ''rwoids''"

definition perms_string :: "node_attrs \<Rightarrow> string" where
  "perms_string a = filter (perm_set a) perm_chars"

lemma null_to_false_eq [simp]:
  "null_to_false b = Some True \<longleftrightarrow> b = Some True" "null_to_false b \<noteq> None"
  by (auto simp: null_to_false_def)

lemma null_to_false_idem [simp]: "null_to_false (null_to_false b) = null_to_false b"
  by (simp add: null_to_false_def)

lemma perm_set_Convert [simp]:
  "perm_set (nattrs (ConvertNullBoolFieldsToFalse n)) = perm_set (nattrs n)"
  by (rule ext) (simp add: perm_set_def perm_bit_def ConvertNullBoolFieldsToFalse_def Let_def)

lemma Convert_frame [simp]:
  "NodeUid (ConvertNullBoolFieldsToFalse n) = NodeUid n"
  "Sgi (nattrs (ConvertNullBoolFieldsToFalse n)) = Sgi (nattrs n)"
  "Owner (ConvertNullBoolFieldsToFalse n) = Owner n"
  "OutEdges (ConvertNullBoolFieldsToFalse n) = OutEdges n"
  "PrivateData (nattrs (ConvertNullBoolFieldsToFalse n)) = PrivateData (nattrs n)"
  "AuthzData (nattrs (ConvertNullBoolFieldsToFalse n)) = AuthzData (nattrs n)"
  by (simp_all add: ConvertNullBoolFieldsToFalse_def Let_def)

lemma snd_HasRequiredPermissions [authz_simps]:
  "snd (HasRequiredPermissions n rp) \<longleftrightarrow> (\<forall>c \<in> set rp. perm_set (nattrs n) c)"
  by (simp add: HasRequiredPermissions_def Let_def list_all_iff)

lemma perm_chars_set [simp]:
  "perm_set a c \<longleftrightarrow> c \<notin> set perm_chars \<or> c \<in> set (perms_string a)"
  by (auto simp: perms_string_def perm_set_def perm_bit_def perm_chars_def)

declare perm_chars_set [simp del]

section \<open>Authorisation data of nodes\<close>

definition DecodeAndVerifyAD :: "crypto \<Rightarrow> string \<Rightarrow> string \<Rightarrow> string" where
  "DecodeAndVerifyAD C adAndMAC key =
     (let parts = split_on CHR ''.'' adAndMAC in
      if length parts = 2 \<and> IsValidMAC C (parts ! 0) (B64Decode (parts ! 1)) (B64Decode key)
      then B64Decode (parts ! 0) else [])"

definition has_perm :: "string \<Rightarrow> char \<Rightarrow> bool option" where
  "has_perm perms c = (if c \<in> set perms then Some True else None)"

definition node_of_ad :: "string \<Rightarrow> string \<Rightarrow> string \<Rightarrow> string \<Rightarrow> graph_node" where
  "node_of_ad uid own sgi perms =
     GraphNode ((node_attrs_of_uid uid)\<lparr>Sgi := Some sgi,
         PermRead := has_perm perms CHR ''r'', PermWrite := has_perm perms CHR ''w'',
         PermOutEdge := has_perm perms CHR ''o'', PermInEdge := has_perm perms CHR ''i'',
         PermDelete := has_perm perms CHR ''d'', PermShare := has_perm perms CHR ''s''\<rparr>)
       None (Some (NewGraphUser own))"

definition GraphNodeFromUnpackedAD :: "string \<Rightarrow> graph_node option" where
  "GraphNodeFromUnpackedAD adStr =
     (if adStr \<noteq> [] then
        (let parts = split_on CHR ''.'' adStr in
         if length parts = 4 then Some (node_of_ad (parts ! 0) (parts ! 1) (parts ! 2) (parts ! 3))
         else None)
      else None)"

definition GraphNodeFromAD :: "crypto \<Rightarrow> string \<Rightarrow> string \<Rightarrow> graph_node option" where
  "GraphNodeFromAD C packedAuthzData key =
     (let adStr = DecodeAndVerifyAD C packedAuthzData key in GraphNodeFromUnpackedAD adStr)"

definition owner_uid :: "graph_node \<Rightarrow> string" where
  "owner_uid n = (case Owner n of None \<Rightarrow> [] | Some u \<Rightarrow> UserUid u)"

definition ad_text :: "graph_node \<Rightarrow> string" where
  "ad_text n =
     NodeUid n @ ''.'' @ owner_uid n @ ''.''
     @ (case Sgi (nattrs n) of None \<Rightarrow> [] | Some g \<Rightarrow> g) @ ''.'' @ perms_string (nattrs n)"

text \<open>
  \<open>GraphNode.AuthzDataPack\<close>: nil permission bits become false, the node gets its AD, and
  so does every node behind its out-edges; a nil out-edge panics.
\<close>

definition set_AuthzData :: "string \<Rightarrow> graph_node \<Rightarrow> graph_node" where
  "set_AuthzData ad n = GraphNode ((nattrs n)\<lparr>AuthzData := ad\<rparr>) (OutEdges n) (Owner n)"

definition pack_self :: "crypto \<Rightarrow> UserAuthData \<Rightarrow> graph_node \<Rightarrow> graph_node" where
  "pack_self C uad n =
     set_AuthzData (MessageAndMAC C (ad_text n) (UadSecretKey uad)) (ConvertNullBoolFieldsToFalse n)"

fun NodeAuthzDataPack :: "crypto \<Rightarrow> UserAuthData \<Rightarrow> graph_node \<Rightarrow> graph_node go"
  and EdgesAuthzDataPack :: "crypto \<Rightarrow> UserAuthData \<Rightarrow> graph_node option list \<Rightarrow> graph_node option list go" where
  "NodeAuthzDataPack C uad (GraphNode a None ow) = Inr (pack_self C uad (GraphNode a None ow))"
| "NodeAuthzDataPack C uad (GraphNode a (Some es) ow) =
     go_bind (EdgesAuthzDataPack C uad es) (\<lambda>es'.
       Inr (GraphNode (nattrs (pack_self C uad (GraphNode a (Some es) ow))) (Some es') ow))"
| "EdgesAuthzDataPack C uad [] = Inr []"
| "EdgesAuthzDataPack C uad (None # es) = Inl NilDeref"
| "EdgesAuthzDataPack C uad (Some e # es) =
     go_bind (NodeAuthzDataPack C uad e) (\<lambda>e'.
       go_bind (EdgesAuthzDataPack C uad es) (\<lambda>es'. Inr (Some e' # es')))"

section \<open>Authorisation data of users\<close>

definition user_ad_text :: "graph_user \<Rightarrow> string" where
  "user_ad_text u = UserUid u @ ''.'' @ (case URole (uattrs u) of None \<Rightarrow> [] | Some r \<Rightarrow> r) @ ''.''"

definition UserAuthzDataPack :: "crypto \<Rightarrow> UserAuthData \<Rightarrow> graph_user \<Rightarrow> graph_user" where
  "UserAuthzDataPack C uad u =
     GraphUser ((uattrs u)\<lparr>AuthzData := MessageAndMAC C (user_ad_text u) (UadSecretKey uad)\<rparr>)
       (Nodes u) (Shared u)"

definition user_of_ad :: "string \<Rightarrow> string \<Rightarrow> string \<Rightarrow> graph_user" where
  "user_of_ad uid role data =
     GraphUser ((uattrs (NewGraphUser uid))\<lparr>URole := Some role, UData := Some data\<rparr>) None None"

definition GraphUserFromUnpackedAD :: "string \<Rightarrow> graph_user option" where
  "GraphUserFromUnpackedAD adStr =
     (if adStr \<noteq> [] then
        (let parts = split_on CHR ''.'' adStr in
         if length parts = 3 then Some (user_of_ad (parts ! 0) (parts ! 1) (parts ! 2)) else None)
      else None)"

definition GraphUserFromAD :: "crypto \<Rightarrow> string \<Rightarrow> string \<Rightarrow> graph_user option" where
  "GraphUserFromAD C packedAuthzData key =
     (let adStr = DecodeAndVerifyAD C packedAuthzData key in GraphUserFromUnpackedAD adStr)"

definition UserAuthzDataUnpack :: "crypto \<Rightarrow> graph_user \<Rightarrow> UserAuthData \<Rightarrow> bool" where
  "UserAuthzDataUnpack C u uad = (GraphUserFromAD C (AuthzData (uattrs u)) (UadSecretKey uad) \<noteq> None)"

section \<open>The interface of sealed text\<close>

text \<open>
  What authorisation data relies on: a text sealed under a key is opened by the same key
  to the same text, and an opened nonempty text was authenticated.
\<close>

locale sealed_text =
  fixes seal :: "string \<Rightarrow> string \<Rightarrow> string"
    and unseal :: "string \<Rightarrow> string \<Rightarrow> string"
    and authentic :: "string \<Rightarrow> string \<Rightarrow> bool"
  assumes unseal_seal: "unseal (seal m k) k = m"
    and unseal_authentic: "unseal s k \<noteq> [] \<Longrightarrow> authentic s k"
    and not_authentic: "\<not> authentic s k \<Longrightarrow> unseal s k = []"
begin

lemma seal_inj: "seal m k = seal m' k \<Longrightarrow> m = m'"
  by (metis unseal_seal)

lemma opened_fields4:
  "\<lbrakk>dot_free a; dot_free b; dot_free c; dot_free d\<rbrakk> \<Longrightarrow>
   split_on CHR ''.'' (unseal (seal (a @ ''.'' @ b @ ''.'' @ c @ ''.'' @ d) k) k) = [a, b, c, d]"
  unfolding unseal_seal by (rule split_dot4)

lemma opened_fields3:
  "\<lbrakk>dot_free a; dot_free b; dot_free c\<rbrakk> \<Longrightarrow>
   split_on CHR ''.'' (unseal (seal (a @ ''.'' @ b @ ''.'' @ c) k) k) = [a, b, c]"
  unfolding unseal_seal by (rule split_dot3)

end

definition ad_authentic :: "crypto \<Rightarrow> string \<Rightarrow> string \<Rightarrow> bool" where
  "ad_authentic C s key \<longleftrightarrow>
     (\<exists>m64 mac64. split_on CHR ''.'' s = [m64, mac64] \<and>
        B64Decode mac64 = hmac_sha256 C (B64Decode key) m64)"

lemma DecodeAndVerifyAD_eq:
  "DecodeAndVerifyAD C s key =
   (if ad_authentic C s key then B64Decode (hd (split_on CHR ''.'' s)) else [])"
proof (cases "length (split_on CHR ''.'' s) = 2")
  case True
  then obtain a b where "split_on CHR ''.'' s = [a, b]" by (auto simp: length_2_conv)
  then show ?thesis
    by (simp add: DecodeAndVerifyAD_def ad_authentic_def IsValidMAC_def MAC_def Let_def)
qed (auto simp: DecodeAndVerifyAD_def ad_authentic_def Let_def)

lemma ad_authentic_MessageAndMAC [simp]: "ad_authentic C (MessageAndMAC C m key) key"
  by (simp add: ad_authentic_def split_MessageAndMAC b64.dec_enc MAC_def)

lemma DecodeAndVerifyAD_MessageAndMAC: "DecodeAndVerifyAD C (MessageAndMAC C m key) key = m"
  by (simp add: DecodeAndVerifyAD_eq split_MessageAndMAC b64.dec_enc)

interpretation ad: sealed_text "MessageAndMAC C" "DecodeAndVerifyAD C" "ad_authentic C" for C
proof unfold_locales
  show "DecodeAndVerifyAD C (MessageAndMAC C m k) k = m" for m k
    by (rule DecodeAndVerifyAD_MessageAndMAC)
qed (auto simp: DecodeAndVerifyAD_eq split: if_splits)

section \<open>Lemmas on authorisation data\<close>

lemma dot_free_perms_string [simp]: "dot_free (perms_string a)"
  by (auto simp: perms_string_def perm_chars_def)

lemma perms_string_Convert [simp]:
  "perms_string (nattrs (ConvertNullBoolFieldsToFalse n)) = perms_string (nattrs n)"
  by (simp add: perms_string_def)

lemma ad_text_Convert [simp]: "ad_text (ConvertNullBoolFieldsToFalse n) = ad_text n"
  by (simp add: ad_text_def owner_uid_def)

lemma node_of_ad_simps [simp]:
  "NodeUid (node_of_ad u own g ps) = u" "owner_uid (node_of_ad u own g ps) = own"
  "Owner (node_of_ad u own g ps) = Some (NewGraphUser own)"
  "Sgi (nattrs (node_of_ad u own g ps)) = Some g" "OutEdges (node_of_ad u own g ps) = None"
  by (simp_all add: node_of_ad_def owner_uid_def NewGraphUser_def node_attrs_of_uid_def)

lemma perm_set_node_of_ad [simp]:
  "c \<in> set perm_chars \<Longrightarrow> perm_set (nattrs (node_of_ad u own g ps)) c \<longleftrightarrow> c \<in> set ps"
  by (auto simp: perm_set_def perm_bit_def perm_chars_def node_of_ad_def has_perm_def node_attrs_of_uid_def)

lemma GraphNodeFromUnpackedAD_iff:
  "GraphNodeFromUnpackedAD s = Some n \<longleftrightarrow>
   (\<exists>u own g ps. split_on CHR ''.'' s = [u, own, g, ps] \<and> n = node_of_ad u own g ps)"
  (is "?l \<longleftrightarrow> ?r")
proof
  assume ?l
  then have "length (split_on CHR ''.'' s) = 4"
    by (auto simp: GraphNodeFromUnpackedAD_def Let_def split: if_splits)
  then obtain a b c d where "split_on CHR ''.'' s = [a, b, c, d]" by (auto simp: length_4_conv)
  with \<open>?l\<close> show ?r by (auto simp: GraphNodeFromUnpackedAD_def Let_def split: if_splits)
next
  assume ?r
  then show ?l by (cases "s = []") (auto simp: GraphNodeFromUnpackedAD_def Let_def)
qed

lemma GraphUserFromUnpackedAD_iff:
  "GraphUserFromUnpackedAD s = Some u \<longleftrightarrow>
   (\<exists>a r d. split_on CHR ''.'' s = [a, r, d] \<and> u = user_of_ad a r d)"
  (is "?l \<longleftrightarrow> ?r")
proof
  assume ?l
  then have "length (split_on CHR ''.'' s) = 3"
    by (auto simp: GraphUserFromUnpackedAD_def Let_def split: if_splits)
  then obtain a b c where "split_on CHR ''.'' s = [a, b, c]" by (auto simp: length_3_conv)
  with \<open>?l\<close> show ?r by (auto simp: GraphUserFromUnpackedAD_def Let_def split: if_splits)
next
  assume ?r
  then show ?l by (cases "s = []") (auto simp: GraphUserFromUnpackedAD_def Let_def)
qed

lemma GraphNodeFromAD_owner_sgi:
  assumes "GraphNodeFromAD C s key = Some n"
  obtains o' g where "Owner n = Some o'" and "Sgi (nattrs n) = Some g" and "UserUid o' = owner_uid n"
  using assms
  by (auto simp: GraphNodeFromAD_def GraphNodeFromUnpackedAD_iff Let_def owner_uid_def)

lemma GraphNodeFromAD_nonempty:
  "GraphNodeFromAD C s key = Some n \<Longrightarrow> ad_authentic C s key"
  by (auto simp: GraphNodeFromAD_def GraphNodeFromUnpackedAD_def Let_def
      intro: ad.unseal_authentic split: if_splits)

definition sgi_text :: "graph_node \<Rightarrow> string" where
  "sgi_text n = (case Sgi (nattrs n) of None \<Rightarrow> [] | Some g \<Rightarrow> g)"

lemma pack_self_simps [simp]:
  "NodeUid (pack_self C uad n) = NodeUid n" "OutEdges (pack_self C uad n) = OutEdges n"
  "Owner (pack_self C uad n) = Owner n"
  "AuthzData (nattrs (pack_self C uad n)) = MessageAndMAC C (ad_text n) (UadSecretKey uad)"
  "PrivateData (nattrs (pack_self C uad n)) = PrivateData (nattrs n)"
  by (simp_all add: pack_self_def set_AuthzData_def)

text \<open>
  Property C39. Authorisation data round trip: the AD that \<open>AuthzDataPack\<close> puts on a node
  whose uid, owner and share group contain no dot is opened, under the same user's key, to
  a node with the same uid, owner uid and share group, that has exactly the permission
  bits that were set on the original (nil and false alike being absent).
\<close>

theorem node_ad_roundtrip:
  assumes "NodeAuthzDataPack C uad n = Inr n'"
    and "dot_free (NodeUid n)" and "dot_free (owner_uid n)" and "dot_free (sgi_text n)"
  shows "GraphNodeFromAD C (AuthzData (nattrs n')) (UadSecretKey uad) =
      Some (node_of_ad (NodeUid n) (owner_uid n) (sgi_text n) (perms_string (nattrs n)))
    \<and> (\<forall>c \<in> set perm_chars. c \<in> set (perms_string (nattrs n)) \<longleftrightarrow> perm_bit (nattrs n) c = Some True)"
proof -
  have ad: "AuthzData (nattrs n') = MessageAndMAC C (ad_text n) (UadSecretKey uad)"
  proof (cases n)
    case (GraphNode a es ow)
    with assms(1) show ?thesis by (cases es) (auto simp: go_bind_eq_Inr_iff)
  qed
  have "split_on CHR ''.'' (DecodeAndVerifyAD C (AuthzData (nattrs n')) (UadSecretKey uad)) =
      [NodeUid n, owner_uid n, sgi_text n, perms_string (nattrs n)]"
    unfolding ad ad_text_def sgi_text_def [symmetric]
    by (rule ad.opened_fields4 [OF assms(2-4)]) simp
  moreover have "\<forall>c \<in> set perm_chars. c \<in> set (perms_string (nattrs n)) \<longleftrightarrow> perm_bit (nattrs n) c = Some True"
    by (auto simp: perms_string_def perm_set_def)
  ultimately show ?thesis
    by (simp add: GraphNodeFromAD_def GraphNodeFromUnpackedAD_iff Let_def)
qed

definition example_uad :: UserAuthData where
  "example_uad = \<lparr>UadUid = ''0x1'', UadRole = ''user'', UadTokenId = ''t1'', UadTimestamp = ''0'',
     UadSecretKey = ''a2V5''\<rparr>"

definition example_node :: graph_node where
  "example_node = GraphNode ((node_attrs_of_uid ''0x5'')\<lparr>PermRead := Some True, PermShare := Some False,
     Sgi := Some ''grp1''\<rparr>) None (Some (NewGraphUser ''0x1''))"

lemma example_node_packs: "NodeAuthzDataPack toy_crypto example_uad example_node = Inr (pack_self toy_crypto example_uad example_node)"
  by (simp add: example_node_def)

lemma example_node_fields: "NodeUid example_node = ''0x5''" "owner_uid example_node = ''0x1''" "sgi_text example_node = ''grp1''"
    "perms_string (nattrs example_node) = ''r''"
  by (simp_all add: example_node_def node_attrs_of_uid_def owner_uid_def NewGraphUser_def sgi_text_def
      perms_string_def perm_chars_def perm_set_def perm_bit_def)

lemma example_node_ad_text: "ad_text example_node = ''0x5.0x1.grp1.r''"
  unfolding ad_text_def sgi_text_def [symmetric] by (simp add: example_node_fields)

theorem node_ad_roundtrip_witness:
  "GraphNodeFromAD toy_crypto (AuthzData (nattrs (pack_self toy_crypto example_uad example_node)))
     (UadSecretKey example_uad) = Some (node_of_ad ''0x5'' ''0x1'' ''grp1'' ''r'')"
  using node_ad_roundtrip [OF example_node_packs] by (simp add: example_node_fields)

lemma example_node_ad:
  "AuthzData (nattrs (pack_self toy_crypto example_uad example_node)) = MessageAndMAC toy_crypto ''0x5.0x1.grp1.r'' ''a2V5''"
  "DecodeAndVerifyAD toy_crypto (MessageAndMAC toy_crypto ''0x5.0x1.grp1.r'' ''a2V5'') ''a2V5'' = ''0x5.0x1.grp1.r''"
  "GraphNodeFromAD toy_crypto (MessageAndMAC toy_crypto ''0x5.0x1.grp1.r'' ''a2V5'') ''a2V5''
     = Some (node_of_ad ''0x5'' ''0x1'' ''grp1'' ''r'')"
proof -
  show "AuthzData (nattrs (pack_self toy_crypto example_uad example_node)) = MessageAndMAC toy_crypto ''0x5.0x1.grp1.r'' ''a2V5''"
    by (simp add: example_node_ad_text) (simp add: example_uad_def)
  show d: "DecodeAndVerifyAD toy_crypto (MessageAndMAC toy_crypto ''0x5.0x1.grp1.r'' ''a2V5'') ''a2V5'' = ''0x5.0x1.grp1.r''"
    by (rule ad.unseal_seal)
  show "GraphNodeFromAD toy_crypto (MessageAndMAC toy_crypto ''0x5.0x1.grp1.r'' ''a2V5'') ''a2V5''
     = Some (node_of_ad ''0x5'' ''0x1'' ''grp1'' ''r'')"
    by (simp add: GraphNodeFromAD_def d GraphNodeFromUnpackedAD_def)
qed

lemma ad_kinds_disjoint: "GraphNodeFromAD C s key = None \<or> GraphUserFromAD C s key = None"
proof (rule ccontr)
  assume "\<not> ?thesis"
  then obtain n u where "GraphNodeFromAD C s key = Some n" "GraphUserFromAD C s key = Some u" by auto
  then show False
    by (auto simp: GraphNodeFromAD_def GraphUserFromAD_def Let_def GraphNodeFromUnpackedAD_iff
        GraphUserFromUnpackedAD_iff)
qed

definition role_text :: "graph_user \<Rightarrow> string" where
  "role_text u = (case URole (uattrs u) of None \<Rightarrow> [] | Some r \<Rightarrow> r)"

text \<open>
  The AD of a user and the AD of a node are never confused: what
  \<open>AuthzDataPack\<close> seals for a user with dot-free uid and role opens to that uid and role as
  a user and does not open as a node, and what it seals for a node with dot-free fields does
  not open as a user. A role with a dot would break this: its AD has four fields.
\<close>

lemma user_ad_roundtrip:
  assumes "dot_free (UserUid u)" and "dot_free (role_text u)"
    and "dot_free (NodeUid n)" and "dot_free (owner_uid n)" and "dot_free (sgi_text n)"
  shows "let ad = AuthzData (uattrs (UserAuthzDataPack C uad u)); key = UadSecretKey uad;
             nad = AuthzData (nattrs (pack_self C uad n))
         in GraphUserFromAD C ad key = Some (user_of_ad (UserUid u) (role_text u) [])
            \<and> GraphNodeFromAD C ad key = None \<and> GraphUserFromAD C nad key = None"
proof -
  let ?key = "UadSecretKey uad"
  have ad: "AuthzData (uattrs (UserAuthzDataPack C uad u)) = MessageAndMAC C (user_ad_text u) ?key"
    by (simp add: UserAuthzDataPack_def)
  have "split_on CHR ''.'' (user_ad_text u) = [UserUid u, role_text u, []]"
    using split_dot3 [of "UserUid u" "role_text u" "[]"] assms(1,2)
    by (simp add: user_ad_text_def role_text_def)
  then have u: "GraphUserFromAD C (MessageAndMAC C (user_ad_text u) ?key) ?key =
      Some (user_of_ad (UserUid u) (role_text u) [])"
    by (simp add: GraphUserFromAD_def Let_def ad.unseal_seal GraphUserFromUnpackedAD_iff)
  have "split_on CHR ''.'' (ad_text n) = [NodeUid n, owner_uid n, sgi_text n, perms_string (nattrs n)]"
    unfolding ad_text_def sgi_text_def [symmetric] by (rule split_dot4 [OF assms(3-5)]) simp
  then have "GraphNodeFromAD C (MessageAndMAC C (ad_text n) ?key) ?key =
      Some (node_of_ad (NodeUid n) (owner_uid n) (sgi_text n) (perms_string (nattrs n)))"
    by (simp add: GraphNodeFromAD_def Let_def ad.unseal_seal GraphNodeFromUnpackedAD_iff)
  then have "GraphUserFromAD C (MessageAndMAC C (ad_text n) ?key) ?key = None"
    using ad_kinds_disjoint [of C "MessageAndMAC C (ad_text n) ?key" ?key] by simp
  moreover have "GraphNodeFromAD C (MessageAndMAC C (user_ad_text u) ?key) ?key = None"
    using ad_kinds_disjoint [of C "MessageAndMAC C (user_ad_text u) ?key" ?key] u by simp
  ultimately show ?thesis using u ad by (simp add: Let_def)
qed

lemma user_ad_roundtrip_witness:
  "GraphUserFromAD toy_crypto
     (AuthzData (uattrs (UserAuthzDataPack toy_crypto example_uad (NewGraphUser ''0x1'')))) ''a2V5'' =
   Some (user_of_ad ''0x1'' [] [])"
proof -
  have f: "dot_free (UserUid (NewGraphUser ''0x1''))" "dot_free (role_text (NewGraphUser ''0x1''))"
    "dot_free (NodeUid example_node)" "dot_free (owner_uid example_node)" "dot_free (sgi_text example_node)"
    by (simp_all add: example_node_def node_attrs_of_uid_def owner_uid_def NewGraphUser_def sgi_text_def role_text_def)
  from user_ad_roundtrip [OF f, of toy_crypto example_uad] show ?thesis
    by (simp add: Let_def example_uad_def role_text_def NewGraphUser_def)
qed

end
