(* ===== verification/NodeAuthz.thy ===== *)
theory NodeAuthz
  imports Node
begin

text \<open>
  The rest of \<open>models/node.go\<close> and \<open>models/user.go\<close>: unpacking client-supplied
  authorisation data into real uids, and redaction of owner-private data. The session
  manager is consulted for share group grants; it is not changed.
\<close>

section \<open>Unpacking authorisation data\<close>

text \<open>
  \<open>GraphNodeFromAD\<close> always sets the owner and the share group
  (\<open>GraphNodeFromAD_owner_sgi\<close>), so the dereferences of the source cannot fail here.
\<close>

definition AuthzDataUnpackADString ::
    "crypto \<Rightarrow> usm \<Rightarrow> string \<Rightarrow> UserAuthData \<Rightarrow> string \<Rightarrow> graph_node option" where
  "AuthzDataUnpackADString C s ads uad permsRequired =
     (case GraphNodeFromAD C ads (UadSecretKey uad) of
        None \<Rightarrow> None
      | Some tmpNode \<Rightarrow>
          if UadUid uad = owner_uid tmpNode \<or> UadRole uad = SYS_ROLE then Some tmpNode
          else if UsmUserCanAccessSgi s (UadUid uad) (sgi_text tmpNode) then
            (case HasRequiredPermissions tmpNode permsRequired of
               (tmpNode', met) \<Rightarrow> if met then Some tmpNode' else None)
          else None)"

text \<open>
  The loop over a slice of ADs replaces each entry by the uid and collects the nodes; it
  stops at the first refusal, leaving the rest of the slice as it was.
\<close>

fun unpack_ads ::
    "crypto \<Rightarrow> usm \<Rightarrow> UserAuthData \<Rightarrow> string \<Rightarrow> string list \<Rightarrow> string list \<times> graph_node list \<times> bool" where
  "unpack_ads C s uad perms [] = ([], [], True)"
| "unpack_ads C s uad perms (ads # rest) =
     (case AuthzDataUnpackADString C s ads uad perms of
        None \<Rightarrow> (ads # rest, [], False)
      | Some tmpNode \<Rightarrow>
          (case unpack_ads C s uad perms rest of
             (uids, nodes, ok) \<Rightarrow> (NodeUid tmpNode # uids, tmpNode # nodes, ok)))"

definition AuthzDataUnpackADStringSlicePlusNodes ::
    "crypto \<Rightarrow> usm \<Rightarrow> string list option \<Rightarrow> UserAuthData \<Rightarrow> string
     \<Rightarrow> string list option \<times> graph_node list \<times> bool" where
  "AuthzDataUnpackADStringSlicePlusNodes C s adSlice uad permsRequired =
     (case adSlice of
        None \<Rightarrow> (None, [], False)
      | Some ads \<Rightarrow>
          if ads = [] then (Some ads, [], False)
          else (case unpack_ads C s uad permsRequired ads of (uids, nodes, ok) \<Rightarrow> (Some uids, nodes, ok)))"

definition AuthzDataUnpackADStringSlice ::
    "crypto \<Rightarrow> usm \<Rightarrow> string list option \<Rightarrow> UserAuthData \<Rightarrow> string \<Rightarrow> string list option \<times> bool" where
  "AuthzDataUnpackADStringSlice C s adSlice uad permsRequired =
     (case AuthzDataUnpackADStringSlicePlusNodes C s adSlice uad permsRequired of
        (uids, nodes, ok) \<Rightarrow> (uids, ok))"

text \<open>Comparing the fields a client sent with those of its AD; a nil share group panics.\<close>

definition AuthzFieldsAreEqual ::
    "graph_node option \<Rightarrow> graph_node option \<Rightarrow> (graph_node option \<times> graph_node option \<times> bool) go" where
  "AuthzFieldsAreEqual n1 n2 =
     (case (n1, n2) of
        (Some m1, Some m2) \<Rightarrow>
          (let c1 = ConvertNullBoolFieldsToFalse m1; c2 = ConvertNullBoolFieldsToFalse m2 in
           if NodeUid c1 = NodeUid c2 \<and> Owner c1 \<noteq> None \<and> Owner c2 \<noteq> None \<and> owner_uid c1 = owner_uid c2
           then go_bind (deref (Sgi (nattrs c1))) (\<lambda>g1. go_bind (deref (Sgi (nattrs c2))) (\<lambda>g2.
                  Inr (Some c1, Some c2, g1 = g2 \<and>
                    list_all (\<lambda>c. perm_bit (nattrs c1) c = perm_bit (nattrs c2) c) perm_chars)))
           else Inr (Some c1, Some c2, False))
      | _ \<Rightarrow> Inr (n1, n2, False))"

definition unpack_node ::
    "crypto \<Rightarrow> usm \<Rightarrow> UserAuthData \<Rightarrow> string \<Rightarrow> graph_node option \<Rightarrow> (graph_node option \<times> bool) go" where
  "unpack_node C s uad perms np =
     (case np of
        None \<Rightarrow> Inr (np, False)
      | Some n \<Rightarrow>
          let ads = AuthzData (nattrs n) in
          if ads = [] then Inr (np, False)
          else
            (case GraphNodeFromAD C ads (UadSecretKey uad) of
               None \<Rightarrow> Inr (np, False)
             | Some tmpNode \<Rightarrow>
                 go_bind (AuthzFieldsAreEqual np (Some tmpNode)) (\<lambda>r.
                   Inr (fst r, snd (snd r) \<and>
                     (UadUid uad = owner_uid tmpNode \<or> UadRole uad = SYS_ROLE \<or>
                      (UsmUserCanAccessSgi s (UadUid uad) (sgi_text tmpNode)
                       \<and> snd (HasRequiredPermissions tmpNode perms)))))))"

primrec unpack_nodes ::
    "crypto \<Rightarrow> usm \<Rightarrow> UserAuthData \<Rightarrow> string \<Rightarrow> graph_node option list \<Rightarrow> (graph_node option list \<times> bool) go" where
  "unpack_nodes C s uad perms [] = Inr ([], True)"
| "unpack_nodes C s uad perms (np # rest) =
     go_bind (unpack_node C s uad perms np) (\<lambda>r.
       if snd r
       then go_bind (unpack_nodes C s uad perms rest) (\<lambda>q. Inr (fst r # fst q, snd q))
       else Inr (fst r # rest, False))"

definition AuthzDataUnpackNodeSlice ::
    "crypto \<Rightarrow> usm \<Rightarrow> graph_node option list option \<Rightarrow> UserAuthData \<Rightarrow> string
     \<Rightarrow> (graph_node option list option \<times> bool) go" where
  "AuthzDataUnpackNodeSlice C s nodeSlice uad permsRequired =
     (case nodeSlice of
        None \<Rightarrow> Inr (None, False)
      | Some ns \<Rightarrow>
          if ns = [] then Inr (Some ns, False)
          else go_bind (unpack_nodes C s uad permsRequired ns) (\<lambda>(ns', ok). Inr (Some ns', ok)))"

fun unpack_user_ads :: "crypto \<Rightarrow> UserAuthData \<Rightarrow> string list \<Rightarrow> string list \<times> bool" where
  "unpack_user_ads C uad [] = ([], True)"
| "unpack_user_ads C uad (ads # rest) =
     (let adStr = DecodeAndVerifyAD C ads (UadSecretKey uad) in
      if adStr \<noteq> [] then (case unpack_user_ads C uad rest of (out, ok) \<Rightarrow> (adStr # out, ok))
      else (ads # rest, False))"

definition AuthzDataUnpackUserADStringSlice ::
    "crypto \<Rightarrow> string list option \<Rightarrow> UserAuthData \<Rightarrow> string list option \<times> bool" where
  "AuthzDataUnpackUserADStringSlice C adSlice uad =
     (case adSlice of
        None \<Rightarrow> (None, False)
      | Some ads \<Rightarrow>
          if ads = [] then (Some ads, False)
          else (case unpack_user_ads C uad ads of (out, ok) \<Rightarrow> (Some out, ok)))"

definition AuthzDataUnpackUserSlice :: "crypto \<Rightarrow> graph_user option list option \<Rightarrow> UserAuthData \<Rightarrow> bool" where
  "AuthzDataUnpackUserSlice C userSlice uad =
     (case userSlice of
        None \<Rightarrow> False
      | Some us \<Rightarrow> us \<noteq> [] \<and>
          list_all (\<lambda>u. case u of None \<Rightarrow> False
            | Some n \<Rightarrow> AuthzData (uattrs n) \<noteq> [] \<and>
                GraphUserFromAD C (AuthzData (uattrs n)) (UadSecretKey uad) \<noteq> None) us)"

section \<open>The access rule\<close>

text \<open>
  The rule of the documentation: system users and owners may do everything; any other user
  needs a grant of the node's share group and the permission bits of the operation.
\<close>

definition may_access :: "usm \<Rightarrow> UserAuthData \<Rightarrow> string \<Rightarrow> string \<Rightarrow> string \<Rightarrow> string \<Rightarrow> bool" where
  "may_access s uad own sgi bits required \<longleftrightarrow>
     UadUid uad = own \<or> IsAdmin uad \<or>
     (UsmUserCanAccessSgi s (UadUid uad) sgi \<and> (\<forall>c \<in> set required. c \<in> set perm_chars \<longrightarrow> c \<in> set bits))"

lemma perm_set_node_of_ad_iff:
  "perm_set (nattrs (node_of_ad u own g ps)) c \<longleftrightarrow> (c \<in> set perm_chars \<longrightarrow> c \<in> set ps)"
proof (cases "c \<in> set perm_chars")
  case False
  then show ?thesis by (simp add: perm_set_def perm_bit_def perm_chars_def)
qed simp

lemma sgi_text_node_of_ad [simp]: "sgi_text (node_of_ad u own g ps) = g"
  by (simp add: sgi_text_def)

lemma HasRequiredPermissions_node_of_ad [authz_simps]:
  "snd (HasRequiredPermissions (node_of_ad u own g ps) rp) \<longleftrightarrow>
   (\<forall>c \<in> set rp. c \<in> set perm_chars \<longrightarrow> c \<in> set ps)"
  by (simp add: snd_HasRequiredPermissions perm_set_node_of_ad_iff)

lemma HasRequiredPermissions_frame [simp]:
  "NodeUid (fst (HasRequiredPermissions n rp)) = NodeUid n"
  "Owner (fst (HasRequiredPermissions n rp)) = Owner n"
  "Sgi (nattrs (fst (HasRequiredPermissions n rp))) = Sgi (nattrs n)"
  "perm_set (nattrs (fst (HasRequiredPermissions n rp))) = perm_set (nattrs n)"
  by (simp_all add: HasRequiredPermissions_def Let_def)

text \<open>What one accepted AD means: it is authentic, and the rule grants the access.\<close>

definition ad_grants :: "crypto \<Rightarrow> usm \<Rightarrow> UserAuthData \<Rightarrow> string \<Rightarrow> string \<Rightarrow> string \<Rightarrow> bool" where
  "ad_grants C s uad required ads uid \<longleftrightarrow>
     ad_authentic C ads (UadSecretKey uad) \<and>
     (\<exists>own sgi bits. split_on CHR ''.'' (DecodeAndVerifyAD C ads (UadSecretKey uad)) = [uid, own, sgi, bits]
        \<and> may_access s uad own sgi bits required)"

lemma GraphNodeFromAD_iff:
  "GraphNodeFromAD C ads key = Some n \<longleftrightarrow> ad_authentic C ads key \<and>
   (\<exists>u own g ps. split_on CHR ''.'' (DecodeAndVerifyAD C ads key) = [u, own, g, ps] \<and> n = node_of_ad u own g ps)"
  using GraphNodeFromAD_nonempty [of C ads key n]
  by (auto simp: GraphNodeFromAD_def GraphNodeFromUnpackedAD_iff Let_def)

lemma AuthzDataUnpackADString_Some:
  assumes "AuthzDataUnpackADString C s ads uad rp = Some n"
  obtains u own g ps where "ad_authentic C ads (UadSecretKey uad)"
    and "split_on CHR ''.'' (DecodeAndVerifyAD C ads (UadSecretKey uad)) = [u, own, g, ps]"
    and "n = node_of_ad u own g ps \<or> n = fst (HasRequiredPermissions (node_of_ad u own g ps) rp)"
    and "may_access s uad own g ps rp" and "NodeUid n = u"
proof -
  from assms obtain m where m: "GraphNodeFromAD C ads (UadSecretKey uad) = Some m"
    by (auto simp: AuthzDataUnpackADString_def split: option.splits)
  then obtain u own g ps where auth: "ad_authentic C ads (UadSecretKey uad)"
    and sp: "split_on CHR ''.'' (DecodeAndVerifyAD C ads (UadSecretKey uad)) = [u, own, g, ps]"
    and n: "m = node_of_ad u own g ps" by (auto simp: GraphNodeFromAD_iff)
  have "may_access s uad own g ps rp \<and> (n = m \<or> n = fst (HasRequiredPermissions m rp))"
    using assms HasRequiredPermissions_node_of_ad [of u own g ps rp] unfolding n [symmetric]
    by (auto simp: AuthzDataUnpackADString_def m n may_access_def IsAdmin_def split: if_splits prod.splits)
  with auth sp n that show thesis by auto
qed

lemma unpack_ad_char:
  "(\<exists>n. AuthzDataUnpackADString C s ads uad required = Some n \<and> NodeUid n = uid) \<longleftrightarrow>
   ad_grants C s uad required ads uid"
  (is "?l \<longleftrightarrow> ?r")
proof
  assume ?l
  then obtain n where "AuthzDataUnpackADString C s ads uad required = Some n" "NodeUid n = uid" by blast
  then show ?r
    by (elim AuthzDataUnpackADString_Some) (auto simp: ad_grants_def)
next
  assume ?r
  then obtain own g ps where n: "GraphNodeFromAD C ads (UadSecretKey uad) = Some (node_of_ad uid own g ps)"
    and acc: "may_access s uad own g ps required"
    by (auto simp: ad_grants_def GraphNodeFromAD_iff)
  show ?l
  proof (cases "UadUid uad = own \<or> UadRole uad = SYS_ROLE")
    case True
    then show ?thesis by (simp add: AuthzDataUnpackADString_def n)
  next
    case False
    with acc have "UsmUserCanAccessSgi s (UadUid uad) g"
      and "snd (HasRequiredPermissions (node_of_ad uid own g ps) required)"
      by (auto simp: may_access_def IsAdmin_def HasRequiredPermissions_node_of_ad)
    then show ?thesis using False
      by (simp add: AuthzDataUnpackADString_def n case_prod_unfold)
  qed
qed

text \<open>
  Property C1. Access to a node through its AD is exact: \<open>AuthzDataUnpackADString\<close> yields a
  node with a given uid if and only if the AD carries a valid HMAC under the caller's own
  key, its payload has exactly four fields of which the uid is the first, and the caller is
  the owner named there, or a system user, or has been granted the share group named there
  and the AD has every required permission bit.
\<close>

theorem unpack_ad_iff:
  "(\<exists>n. AuthzDataUnpackADString C s ads uad required = Some n \<and> NodeUid n = uid) \<longleftrightarrow>
   ad_grants C s uad required ads uid"
  by (rule unpack_ad_char)

lemma unpack_ads_Cons:
  "AuthzDataUnpackADString C s ad uad rp = Some n \<Longrightarrow>
   unpack_ads C s uad rp (ad # ads) =
     (NodeUid n # fst (unpack_ads C s uad rp ads), n # fst (snd (unpack_ads C s uad rp ads)),
      snd (snd (unpack_ads C s uad rp ads)))"
  by (simp add: case_prod_unfold)

lemma unpack_ads_ok:
  "snd (snd (unpack_ads C s uad rp ads)) \<Longrightarrow>
   list_all2 (\<lambda>ad n. AuthzDataUnpackADString C s ad uad rp = Some n) ads (fst (snd (unpack_ads C s uad rp ads)))
   \<and> fst (unpack_ads C s uad rp ads) = map NodeUid (fst (snd (unpack_ads C s uad rp ads)))"
proof (induction ads)
  case (Cons ad ads)
  then obtain n where n: "AuthzDataUnpackADString C s ad uad rp = Some n"
    by (auto split: option.splits)
  with Cons show ?case unfolding unpack_ads_Cons [OF n] by simp
qed simp

lemma unpack_ads_grants:
  assumes "snd (snd (unpack_ads C s uad rp ads))"
  shows "list_all2 (ad_grants C s uad rp) ads (fst (unpack_ads C s uad rp ads))"
proof -
  have "list_all2 (\<lambda>ad n. AuthzDataUnpackADString C s ad uad rp = Some n) ads (fst (snd (unpack_ads C s uad rp ads)))"
    and eq: "fst (unpack_ads C s uad rp ads) = map NodeUid (fst (snd (unpack_ads C s uad rp ads)))"
    using unpack_ads_ok [OF assms] by simp_all
  from this(1) show ?thesis unfolding eq list_all2_map2
    by (rule list_all2_mono) (use unpack_ad_char in blast)
qed

lemma UnpackADStringSlice_ok:
  assumes "AuthzDataUnpackADStringSlice C s adSlice uad rp = (out, True)"
  obtains ads uids where "adSlice = Some ads" and "out = Some uids" and "ads \<noteq> []"
    and "list_all2 (ad_grants C s uad rp) ads uids"
  using assms unpack_ads_grants [of C s uad rp]
  by (fastforce simp: AuthzDataUnpackADStringSlice_def AuthzDataUnpackADStringSlicePlusNodes_def
      case_prod_unfold split: option.splits if_splits)

section \<open>Node lists of update requests\<close>

lemma AuthzFieldsAreEqual_Some:
  "AuthzFieldsAreEqual (Some m1) (Some m2) =
     (if NodeUid m1 = NodeUid m2 \<and> Owner m1 \<noteq> None \<and> Owner m2 \<noteq> None \<and> owner_uid m1 = owner_uid m2
      then go_bind (deref (Sgi (nattrs m1))) (\<lambda>g1. go_bind (deref (Sgi (nattrs m2))) (\<lambda>g2.
        Inr (Some (ConvertNullBoolFieldsToFalse m1), Some (ConvertNullBoolFieldsToFalse m2),
          g1 = g2 \<and> (\<forall>c \<in> set perm_chars. perm_set (nattrs m1) c = perm_set (nattrs m2) c))))
      else Inr (Some (ConvertNullBoolFieldsToFalse m1), Some (ConvertNullBoolFieldsToFalse m2), False))"
proof -
  have bit: "perm_bit (nattrs (ConvertNullBoolFieldsToFalse n)) c = Some (perm_set (nattrs n) c)"
    if "c \<in> set perm_chars" for n c
    using that by (auto simp: perm_chars_def perm_bit_def perm_set_def ConvertNullBoolFieldsToFalse_def
        null_to_false_def Let_def)
  have perms: "list_all (\<lambda>c. perm_bit (nattrs (ConvertNullBoolFieldsToFalse m1)) c =
        perm_bit (nattrs (ConvertNullBoolFieldsToFalse m2)) c) perm_chars \<longleftrightarrow>
      (\<forall>c \<in> set perm_chars. perm_set (nattrs m1) c = perm_set (nattrs m2) c)"
    unfolding list_all_iff using bit by auto
  have own: "owner_uid (ConvertNullBoolFieldsToFalse n) = owner_uid n" for n
    by (simp add: owner_uid_def)
  show ?thesis
    unfolding AuthzFieldsAreEqual_def Let_def by (simp only: prod.case option.case Convert_frame own perms)
qed

text \<open>What an accepted entry of an update request satisfies.\<close>

definition node_authorised :: "crypto \<Rightarrow> usm \<Rightarrow> UserAuthData \<Rightarrow> string \<Rightarrow> graph_node option \<Rightarrow> bool" where
  "node_authorised C s uad required np \<longleftrightarrow>
     (\<exists>n g. np = Some n \<and> ad_grants C s uad required (AuthzData (nattrs n)) (NodeUid n) \<and>
        Owner n \<noteq> None \<and> Sgi (nattrs n) = Some g \<and>
        (\<exists>ps. split_on CHR ''.'' (DecodeAndVerifyAD C (AuthzData (nattrs n)) (UadSecretKey uad))
             = [NodeUid n, owner_uid n, g, ps]
           \<and> (\<forall>c \<in> set perm_chars. perm_set (nattrs n) c \<longleftrightarrow> c \<in> set ps)))"

lemma unpack_node_True:
  assumes "unpack_node C s uad required np = Inr (np', True)"
  shows "node_authorised C s uad required np \<and> np' = map_option ConvertNullBoolFieldsToFalse np"
proof -
  from assms obtain n where np: "np = Some n" by (auto simp: unpack_node_def split: option.splits)
  from assms obtain tmp where tmp: "GraphNodeFromAD C (AuthzData (nattrs n)) (UadSecretKey uad) = Some tmp"
    by (auto simp: unpack_node_def np Let_def split: option.splits if_splits)
  then obtain u own g ps where f: "ad_authentic C (AuthzData (nattrs n)) (UadSecretKey uad)"
    "split_on CHR ''.'' (DecodeAndVerifyAD C (AuthzData (nattrs n)) (UadSecretKey uad)) = [u, own, g, ps]"
    and t: "tmp = node_of_ad u own g ps"
    by (auto simp: GraphNodeFromAD_iff)
  have acc: "UadUid uad = own \<or> UadRole uad = SYS_ROLE \<or>
      (UsmUserCanAccessSgi s (UadUid uad) g \<and> snd (HasRequiredPermissions tmp required))"
    and eqs: "NodeUid n = u" "Owner n \<noteq> None" "owner_uid n = own" "Sgi (nattrs n) = Some g"
      "\<forall>c \<in> set perm_chars. perm_set (nattrs n) c = perm_set (nattrs tmp) c"
    and np': "np' = Some (ConvertNullBoolFieldsToFalse n)"
    using assms tmp unfolding np t
    by (auto simp: unpack_node_def AuthzFieldsAreEqual_Some Let_def go_bind_eq_Inr_iff split: if_splits)
  from acc have "may_access s uad own g ps required"
    by (auto simp: may_access_def IsAdmin_def t HasRequiredPermissions_node_of_ad)
  with f eqs t np np' show ?thesis
    by (auto simp: node_authorised_def ad_grants_def)
qed

lemma unpack_nodes_True:
  "unpack_nodes C s uad required ns = Inr (ns', True) \<Longrightarrow>
   list_all (node_authorised C s uad required) ns \<and> ns' = map (map_option ConvertNullBoolFieldsToFalse) ns"
proof (induction ns arbitrary: ns')
  case (Cons np ns)
  then obtain r where r: "unpack_node C s uad required np = Inr r"
    by (auto simp: go_bind_eq_Inr_iff)
  with Cons.prems have "snd r" and
    rest: "go_bind (unpack_nodes C s uad required ns) (\<lambda>q. Inr (fst r # fst q, snd q)) = Inr (ns', True)"
    by (auto split: if_splits)
  then obtain q where q: "unpack_nodes C s uad required ns = Inr (q, True)" and ns': "ns' = fst r # q"
    by (auto simp: go_bind_eq_Inr_iff)
  have "unpack_node C s uad required np = Inr (fst r, True)" using r \<open>snd r\<close> by (cases r) simp
  from unpack_node_True [OF this] Cons.IH [OF q] ns' show ?case by simp
qed simp

text \<open>
  Property C8. Update requests are fully authorised: when \<open>AuthzDataUnpackNodeSlice\<close>
  accepts the node list of an update, the list is not empty, no entry is null, and every
  entry carries an authentic AD for exactly its uid, owner, share group and permission
  bits, that grants the caller the required access; the list is returned with nil
  permission bits made false and nothing else changed.
\<close>

theorem update_nodes_authorised:
  assumes "AuthzDataUnpackNodeSlice C s nl uad required = Inr (nl', True)"
  shows "\<exists>ns. nl = Some ns \<and> ns \<noteq> [] \<and> list_all (node_authorised C s uad required) ns
    \<and> nl' = Some (map (map_option ConvertNullBoolFieldsToFalse) ns)"
  using assms
  by (auto simp: AuthzDataUnpackNodeSlice_def go_bind_eq_Inr_iff split: option.splits if_splits
      dest: unpack_nodes_True)

definition example_packed :: graph_node where
  "example_packed = pack_self toy_crypto example_uad example_node"

lemma example_packed_ad:
  "GraphNodeFromAD toy_crypto (AuthzData (nattrs example_packed)) ''a2V5'' = Some (node_of_ad ''0x5'' ''0x1'' ''grp1'' ''r'')"
  unfolding example_packed_def example_node_ad(1) by (rule example_node_ad(3))

lemma example_packed_text:
  "DecodeAndVerifyAD toy_crypto (AuthzData (nattrs example_packed)) ''a2V5'' = ''0x5.0x1.grp1.r''"
  unfolding example_packed_def example_node_ad(1) by (rule example_node_ad(2))

lemma example_packed_fields:
  "NodeUid example_packed = ''0x5''" "owner_uid example_packed = ''0x1''" "Sgi (nattrs example_packed) = Some ''grp1''"
  "Owner example_packed = Some (NewGraphUser ''0x1'')" "perm_set (nattrs example_packed) c \<longleftrightarrow> perm_set (nattrs example_node) c"
  by (simp_all add: example_packed_def example_node_def node_attrs_of_uid_def owner_uid_def NewGraphUser_def
      pack_self_def set_AuthzData_def ConvertNullBoolFieldsToFalse_def Let_def perm_set_def perm_bit_def)

lemma example_packed_perms:
  "c \<in> set perm_chars \<Longrightarrow> perm_set (nattrs example_node) c \<longleftrightarrow> c = CHR ''r''"
  by (auto simp: example_node_def node_attrs_of_uid_def perm_set_def perm_bit_def perm_chars_def)

lemma example_unpack:
  "AuthzDataUnpackADString toy_crypto s (AuthzData (nattrs example_packed)) example_uad rp =
   Some (node_of_ad ''0x5'' ''0x1'' ''grp1'' ''r'')"
  using example_packed_ad by (simp add: AuthzDataUnpackADString_def example_uad_def)

theorem update_nodes_authorised_witness:
  "AuthzDataUnpackNodeSlice toy_crypto UsmInit (Some [Some example_packed]) example_uad ''w''
     = Inr (Some [Some (ConvertNullBoolFieldsToFalse example_packed)], True)
   \<and> (\<exists>ns. Some [Some example_packed] = Some ns \<and> list_all (node_authorised toy_crypto UsmInit example_uad ''w'') ns)"
proof -
  have k: "UadSecretKey example_uad = ''a2V5''" "UadUid example_uad = ''0x1''" by (simp_all add: example_uad_def)
  have "AuthzData (nattrs example_packed) \<noteq> []" by (simp add: example_packed_def MessageAndMAC_def Let_def)
  then have "unpack_node toy_crypto UsmInit example_uad ''w'' (Some example_packed)
      = Inr (Some (ConvertNullBoolFieldsToFalse example_packed), True)"
    by (simp add: unpack_node_def Let_def k example_packed_ad AuthzFieldsAreEqual_Some example_packed_fields
        example_packed_perms)
  then have r: "AuthzDataUnpackNodeSlice toy_crypto UsmInit (Some [Some example_packed]) example_uad ''w''
     = Inr (Some [Some (ConvertNullBoolFieldsToFalse example_packed)], True)"
    by (simp add: AuthzDataUnpackNodeSlice_def)
  from update_nodes_authorised [OF this] r show ?thesis by blast
qed

text \<open>
  Checking an update request panics exactly when a client leaves out the
  share group of a node whose AD it otherwise presents correctly: with a valid AD for the
  node's own uid and owner, an absent \<open>sgi\<close> dereferences nil; in every other case the check
  returns a verdict.
\<close>

lemma unpack_node_panics_iff:
  "panics (unpack_node C s uad required np) \<longleftrightarrow>
   (\<exists>n u own g ps. np = Some n \<and> AuthzData (nattrs n) \<noteq> [] \<and>
      ad_authentic C (AuthzData (nattrs n)) (UadSecretKey uad) \<and>
      split_on CHR ''.'' (DecodeAndVerifyAD C (AuthzData (nattrs n)) (UadSecretKey uad)) = [u, own, g, ps] \<and>
      NodeUid n = u \<and> Owner n \<noteq> None \<and> owner_uid n = own \<and> Sgi (nattrs n) = None)"
  (is "?l \<longleftrightarrow> ?r")
proof
  assume ?l
  then obtain n tmp where np: "np = Some n" and ne: "AuthzData (nattrs n) \<noteq> []"
    and tmp: "GraphNodeFromAD C (AuthzData (nattrs n)) (UadSecretKey uad) = Some tmp"
    and p: "panics (AuthzFieldsAreEqual (Some n) (Some tmp))"
    by (auto simp: unpack_node_def Let_def go_bind_eq_Inl_iff split: option.splits if_splits)
  from tmp obtain u own g ps where t: "ad_authentic C (AuthzData (nattrs n)) (UadSecretKey uad)"
    "split_on CHR ''.'' (DecodeAndVerifyAD C (AuthzData (nattrs n)) (UadSecretKey uad)) = [u, own, g, ps]"
    "tmp = node_of_ad u own g ps"
    by (auto simp: GraphNodeFromAD_iff)
  from p t(3) have "NodeUid n = u" "Owner n \<noteq> None" "owner_uid n = own" "Sgi (nattrs n) = None"
    by (auto simp: AuthzFieldsAreEqual_Some go_bind_eq_Inl_iff split: if_splits)
  with np ne t show ?r by blast
next
  assume ?r
  then obtain n u own g ps where np: "np = Some n" and ne: "AuthzData (nattrs n) \<noteq> []"
    and n: "NodeUid n = u" "Owner n \<noteq> None" "owner_uid n = own" "Sgi (nattrs n) = None"
    and t: "GraphNodeFromAD C (AuthzData (nattrs n)) (UadSecretKey uad) = Some (node_of_ad u own g ps)"
    unfolding GraphNodeFromAD_iff by blast
  have "AuthzFieldsAreEqual (Some n) (Some (node_of_ad u own g ps)) = Inl NilDeref"
    unfolding AuthzFieldsAreEqual_Some by (simp add: n)
  with np ne t show ?l by (simp add: unpack_node_def Let_def)
qed

end
