(* ===== verification/NodeTree.thy ===== *)
theory NodeTree
  imports NodeAuthz
begin

text \<open>
  Operations of \<open>models/node.go\<close> that walk the out-edges of a node: redaction of the
  owner-private \<open>p\<close> field and, from the theory before, packing of authorisation data.
  \<open>reach\<close> lists a node and all nodes behind its out-edges, in the order of the walk.
\<close>

section \<open>Redaction\<close>

definition owned_by :: "UserAuthData \<Rightarrow> graph_user option \<Rightarrow> bool" where
  "owned_by uad ow \<longleftrightarrow> (case ow of None \<Rightarrow> False | Some o' \<Rightarrow> UserUid o' = UadUid uad)"

definition redact_self :: "UserAuthData option \<Rightarrow> graph_user option \<Rightarrow> node_attrs \<Rightarrow> node_attrs" where
  "redact_self uad ow a =
     (case uad of
        None \<Rightarrow> a\<lparr>PrivateData := None\<rparr>
      | Some u \<Rightarrow> if owned_by u ow then a else a\<lparr>PrivateData := None\<rparr>)"

definition admin_uad :: "UserAuthData option \<Rightarrow> bool" where
  "admin_uad uad \<longleftrightarrow> (case uad of None \<Rightarrow> False | Some u \<Rightarrow> IsAdmin u)"

fun RedactPrivateDataFor :: "UserAuthData option \<Rightarrow> graph_node \<Rightarrow> graph_node"
  and RedactEdges :: "UserAuthData option \<Rightarrow> graph_node option list \<Rightarrow> graph_node option list" where
  "RedactPrivateDataFor uad (GraphNode a None ow) =
     (if admin_uad uad then GraphNode a None ow else GraphNode (redact_self uad ow a) None ow)"
| "RedactPrivateDataFor uad (GraphNode a (Some es) ow) =
     (if admin_uad uad then GraphNode a (Some es) ow
      else GraphNode (redact_self uad ow a) (Some (RedactEdges uad es)) ow)"
| "RedactEdges uad [] = []"
| "RedactEdges uad (None # es) = None # RedactEdges uad es"
| "RedactEdges uad (Some e # es) = Some (RedactPrivateDataFor uad e) # RedactEdges uad es"

fun reach :: "graph_node \<Rightarrow> graph_node list"
  and reach_edges :: "graph_node option list \<Rightarrow> graph_node list" where
  "reach (GraphNode a None ow) = [GraphNode a None ow]"
| "reach (GraphNode a (Some es) ow) = GraphNode a (Some es) ow # reach_edges es"
| "reach_edges [] = []"
| "reach_edges (None # es) = reach_edges es"
| "reach_edges (Some e # es) = reach e @ reach_edges es"

fun has_nil_edge :: "graph_node \<Rightarrow> bool"
  and nil_in_edges :: "graph_node option list \<Rightarrow> bool" where
  "has_nil_edge (GraphNode a None ow) = False"
| "has_nil_edge (GraphNode a (Some es) ow) = nil_in_edges es"
| "nil_in_edges [] = False"
| "nil_in_edges (None # es) = True"
| "nil_in_edges (Some e # es) = (has_nil_edge e \<or> nil_in_edges es)"

text \<open>The fields of a node that a walk over its out-edges reports.\<close>

definition flat :: "graph_node \<Rightarrow> node_attrs \<times> graph_user option" where
  "flat m = (nattrs m, Owner m)"

lemma reach_redact:
  "map flat (reach (RedactPrivateDataFor uad n)) =
     map (\<lambda>m. (if admin_uad uad then nattrs m else redact_self uad (Owner m) (nattrs m), Owner m)) (reach n)"
  "map flat (reach_edges (RedactEdges uad es)) =
     map (\<lambda>m. (if admin_uad uad then nattrs m else redact_self uad (Owner m) (nattrs m), Owner m)) (reach_edges es)"
  by (induction uad n and uad es rule: RedactPrivateDataFor_RedactEdges.induct)
    (auto simp: flat_def)

lemma self_in_reach: "n \<in> set (reach n)"
  by (cases n; cases "OutEdges n") auto

lemma redact_char:
  "map flat (reach (RedactPrivateDataFor (Some u) n)) =
     map (\<lambda>m. if IsAdmin u \<or> owned_by u (Owner m) then flat m
              else ((nattrs m)\<lparr>PrivateData := None\<rparr>, Owner m)) (reach n)
   \<and> list_all (\<lambda>m. PrivateData (nattrs m) = None \<or> IsAdmin u \<or> owned_by u (Owner m))
        (reach (RedactPrivateDataFor (Some u) n))"
  (is "?eq \<and> ?safe")
proof
  show eq: ?eq
    unfolding reach_redact by (auto simp: admin_uad_def redact_self_def flat_def)
  show ?safe
    unfolding list_all_iff
  proof
    fix m assume "m \<in> set (reach (RedactPrivateDataFor (Some u) n))"
    then have "flat m \<in> set (map flat (reach (RedactPrivateDataFor (Some u) n)))" by simp
    then show "PrivateData (nattrs m) = None \<or> IsAdmin u \<or> owned_by u (Owner m)"
      unfolding eq by (auto simp: flat_def split: if_splits)
  qed
qed

text \<open>
  Property C33. Owner-private data never leaves for others: after \<open>RedactPrivateDataFor\<close> for
  a caller, every node reachable through out-edges that still has \<open>p\<close> is owned by the
  caller, unless the caller is a system user; nodes the caller owns keep \<open>p\<close>, and owner,
  order and all other fields of every reachable node are unchanged.
\<close>

theorem redact_exact:
  "map flat (reach (RedactPrivateDataFor (Some u) n)) =
     map (\<lambda>m. if IsAdmin u \<or> owned_by u (Owner m) then flat m
              else ((nattrs m)\<lparr>PrivateData := None\<rparr>, Owner m)) (reach n)
   \<and> list_all (\<lambda>m. PrivateData (nattrs m) = None \<or> IsAdmin u \<or> owned_by u (Owner m))
        (reach (RedactPrivateDataFor (Some u) n))"
  by (rule redact_char)

section \<open>Packing\<close>

lemma pack_total:
  "(\<exists>n'. NodeAuthzDataPack C uad n = Inr n') \<longleftrightarrow> \<not> has_nil_edge n"
  "(\<exists>es'. EdgesAuthzDataPack C uad es = Inr es') \<longleftrightarrow> \<not> nil_in_edges es"
  by (induction C uad n and C uad es rule: NodeAuthzDataPack_EdgesAuthzDataPack.induct)
    (auto simp: go_bind_eq_Inr_iff)

lemma pack_self_flat: "nattrs (pack_self C uad (GraphNode a es ow)) = nattrs (pack_self C uad (GraphNode a es' ow))"
  by (simp add: pack_self_def set_AuthzData_def ad_text_def owner_uid_def ConvertNullBoolFieldsToFalse_def Let_def)

lemma reach_pack:
  "NodeAuthzDataPack C uad n = Inr n' \<Longrightarrow>
     map flat (reach n') = map (flat \<circ> pack_self C uad) (reach n)"
  "EdgesAuthzDataPack C uad es = Inr es' \<Longrightarrow>
     map flat (reach_edges es') = map (flat \<circ> pack_self C uad) (reach_edges es)"
proof (induction C uad n and C uad es arbitrary: n' and es' rule: NodeAuthzDataPack_EdgesAuthzDataPack.induct)
  case (1 C uad a ow)
  then have "n' = GraphNode (nattrs n') None (Owner n')" and "flat n' = flat (pack_self C uad (GraphNode a None ow))"
    by (auto simp: pack_self_def set_AuthzData_def ConvertNullBoolFieldsToFalse_def Let_def)
  then show ?case by (metis (no_types) comp_def list.simps(8,9) reach.simps(1))
next
  case (2 C uad a es ow)
  then show ?case by (auto simp: go_bind_eq_Inr_iff flat_def)
qed (auto simp: go_bind_eq_Inr_iff)

text \<open>
  Packing covers the whole response tree: \<open>AuthzDataPack\<close> succeeds exactly on
  nodes without a nil out-edge at any depth, and then every reachable node, in order,
  carries the sealed text of its own uid, owner, share group and permission bits, with its
  owner unchanged.
\<close>

lemma pack_covers_tree:
  "(if has_nil_edge n then NodeAuthzDataPack C uad n = Inl NilDeref
    else \<exists>n'. NodeAuthzDataPack C uad n = Inr n' \<and>
      map (\<lambda>m. (NodeUid m, Owner m, AuthzData (nattrs m))) (reach n') =
      map (\<lambda>m. (NodeUid m, Owner m, MessageAndMAC C (ad_text m) (UadSecretKey uad))) (reach n))"
proof (cases "has_nil_edge n")
  case True
  then obtain p where "NodeAuthzDataPack C uad n = Inl p"
    using pack_total(1) [of C uad n] by (cases "NodeAuthzDataPack C uad n") auto
  moreover have "NodeAuthzDataPack C uad n = Inl p \<Longrightarrow> p = NilDeref"
    "EdgesAuthzDataPack C uad es = Inl p \<Longrightarrow> p = NilDeref" for es
    by (induction C uad n and C uad es rule: NodeAuthzDataPack_EdgesAuthzDataPack.induct)
      (auto simp: go_bind_eq_Inl_iff)
  ultimately show ?thesis using True by simp
next
  case False
  then obtain n' where n': "NodeAuthzDataPack C uad n = Inr n'"
    using pack_total(1) [of C uad n] by auto
  let ?f = "\<lambda>(a, ow). (Uid a, ow, AuthzData a)"
  have "map (\<lambda>m. (NodeUid m, Owner m, AuthzData (nattrs m))) (reach n') = map ?f (map flat (reach n'))"
    by (simp add: flat_def)
  also have "\<dots> = map (\<lambda>m. (NodeUid m, Owner m, MessageAndMAC C (ad_text m) (UadSecretKey uad))) (reach n)"
    unfolding reach_pack(1) [OF n'] by (simp add: flat_def)
  finally show ?thesis using False n' by simp
qed

end
