(* ===== verification/Responses.thy ===== *)
theory Responses
  imports NodeTree
begin

text \<open>
  The package \<open>responses\<close>: response structures, and the output filter that drops nodes and
  users the caller may not see, redacts private data, and seals authorisation data. The
  server time is an argument of the constructors.
\<close>

record CoggedResponse =
  ResultNodes :: "graph_node option list option"
  ResultUsers :: "graph_user option list option"
  CreatedNodes :: "(string \<times> graph_node option) list option"
  CreatedUids :: "(string \<times> string) list option"
  ServerTime :: "time option"
  RError :: string

record UserResponse =
  RUser :: "graph_user option"
  UError :: string

record TokenResponse =
  Token :: string
  Expires :: int

section \<open>Constructors\<close>

definition clear_type_node :: "graph_node \<Rightarrow> graph_node" where
  "clear_type_node n = GraphNode ((nattrs n)\<lparr>DgraphType := []\<rparr>) (OutEdges n) (Owner n)"

definition clear_type_user :: "graph_user \<Rightarrow> graph_user" where
  "clear_type_user u = GraphUser ((uattrs u)\<lparr>DgraphType := []\<rparr>) (Nodes u) (Shared u)"

definition empty_response :: "time \<Rightarrow> CoggedResponse" where
  "empty_response tnow = \<lparr>ResultNodes = None, ResultUsers = None, CreatedNodes = None, CreatedUids = None,
     ServerTime = Some tnow, RError = []\<rparr>"

text \<open>Assigning \<open>DgraphType\<close> of a null entry panics.\<close>

definition CoggedResponseFromNodes :: "time \<Rightarrow> graph_node option list option \<Rightarrow> CoggedResponse go" where
  "CoggedResponseFromNodes tnow nodes =
     (case nodes of
        None \<Rightarrow> Inr (empty_response tnow)
      | Some ns \<Rightarrow> go_bind (go_map deref ns) (\<lambda>ms.
          Inr ((empty_response tnow)\<lparr>ResultNodes := Some (map (Some \<circ> clear_type_node) ms)\<rparr>)))"

definition CoggedResponseFromUsers :: "time \<Rightarrow> graph_user option list option \<Rightarrow> CoggedResponse go" where
  "CoggedResponseFromUsers tnow users =
     (case users of
        None \<Rightarrow> Inr (empty_response tnow)
      | Some us \<Rightarrow> go_bind (go_map deref us) (\<lambda>vs.
          Inr ((empty_response tnow)\<lparr>ResultUsers := Some (map (Some \<circ> clear_type_user) vs)\<rparr>)))"

definition CoggedResponseFromNodesMap :: "time \<Rightarrow> (string \<times> graph_node option) list \<Rightarrow> CoggedResponse" where
  "CoggedResponseFromNodesMap tnow m = (empty_response tnow)\<lparr>CreatedNodes := Some m\<rparr>"

definition CoggedResponseFromUidsMap :: "time \<Rightarrow> (string \<times> string) list \<Rightarrow> CoggedResponse" where
  "CoggedResponseFromUidsMap tnow m = (empty_response tnow)\<lparr>CreatedUids := Some m\<rparr>"

definition CoggedResponseFromError :: "time \<Rightarrow> string \<Rightarrow> CoggedResponse" where
  "CoggedResponseFromError tnow e = (empty_response tnow)\<lparr>RError := e\<rparr>"

definition UserResponseFromError :: "string \<Rightarrow> UserResponse" where
  "UserResponseFromError e = \<lparr>RUser = None, UError = e\<rparr>"

definition UserResponseFromUser :: "graph_user \<Rightarrow> UserResponse" where
  "UserResponseFromUser u = \<lparr>RUser = Some u, UError = []\<rparr>"

section \<open>The output filter\<close>

definition readable :: "usm \<Rightarrow> UserAuthData \<Rightarrow> graph_node \<Rightarrow> bool" where
  "readable s uad node \<longleftrightarrow>
     owned_by uad (Owner node) \<or> IsAdmin uad \<or>
     (case Sgi (nattrs node) of
        None \<Rightarrow> False
      | Some sgi \<Rightarrow> UsmUserCanAccessSgi s (UadUid uad) sgi \<and> PermRead (nattrs node) = Some True)"

primrec filter_nodes ::
    "crypto \<Rightarrow> usm \<Rightarrow> UserAuthData \<Rightarrow> graph_node option list \<Rightarrow> graph_node option list go" where
  "filter_nodes C s uad [] = Inr []"
| "filter_nodes C s uad (np # ns) =
     go_bind (deref np) (\<lambda>node.
       if readable s uad node
       then go_bind (NodeAuthzDataPack C uad (RedactPrivateDataFor (Some uad) node)) (\<lambda>node'.
              go_bind (filter_nodes C s uad ns) (\<lambda>ns'. Inr (Some node' # ns')))
       else filter_nodes C s uad ns)"

text \<open>
  The user filter reads the role only for callers that are not system users; a null user or
  an absent role then panics.
\<close>

definition user_visible :: "UserAuthData \<Rightarrow> graph_user option \<Rightarrow> bool go" where
  "user_visible uad up =
     (if IsAdmin uad then Inr True
      else go_bind (deref up) (\<lambda>u. go_bind (deref (URole (uattrs u))) (\<lambda>role. Inr (role \<noteq> ''sys''))))"

primrec filter_users ::
    "crypto \<Rightarrow> UserAuthData \<Rightarrow> graph_user option list \<Rightarrow> graph_user option list go" where
  "filter_users C uad [] = Inr []"
| "filter_users C uad (up # us) =
     go_bind (user_visible uad up) (\<lambda>vis.
       if vis
       then go_bind (deref up) (\<lambda>u. go_bind (filter_users C uad us) (\<lambda>us'.
              Inr (Some (UserAuthzDataPack C uad u) # us')))
       else filter_users C uad us)"

definition pack_created ::
    "crypto \<Rightarrow> UserAuthData \<Rightarrow> string \<times> graph_node option \<Rightarrow> (string \<times> graph_node option) go" where
  "pack_created C uad e =
     go_bind (deref (snd e)) (\<lambda>n. go_bind (NodeAuthzDataPack C uad n) (\<lambda>n'. Inr (fst e, Some n')))"

definition go_option :: "('a \<Rightarrow> 'b go) \<Rightarrow> 'a option \<Rightarrow> 'b option go" where
  "go_option f p = (case p of None \<Rightarrow> Inr None | Some x \<Rightarrow> go_bind (f x) (\<lambda>y. Inr (Some y)))"

definition CoggedResponse_AuthzDataPack ::
    "crypto \<Rightarrow> usm \<Rightarrow> UserAuthData \<Rightarrow> CoggedResponse \<Rightarrow> CoggedResponse go" where
  "CoggedResponse_AuthzDataPack C s uad resp =
     go_bind (go_option (filter_nodes C s uad) (ResultNodes resp)) (\<lambda>ns.
       go_bind (go_option (filter_users C uad) (ResultUsers resp)) (\<lambda>us.
         go_bind (go_option (go_map (pack_created C uad)) (CreatedNodes resp)) (\<lambda>cs.
           Inr (resp\<lparr>ResultNodes := ns, ResultUsers := us, CreatedNodes := cs\<rparr>))))"

definition UserResponse_AuthzDataPack :: "crypto \<Rightarrow> UserAuthData \<Rightarrow> UserResponse \<Rightarrow> UserResponse" where
  "UserResponse_AuthzDataPack C uad resp = resp\<lparr>RUser := map_option (UserAuthzDataPack C uad) (RUser resp)\<rparr>"

section \<open>What a response can contain\<close>

lemma go_option_Inr:
  "go_option f p = Inr q \<longleftrightarrow> rel_option (\<lambda>x y. f x = Inr y) p q"
  by (cases p; cases q) (auto simp: go_option_def go_bind_eq_Inr_iff)

lemma filter_nodes_Inr:
  "filter_nodes C s uad ns = Inr ns' \<Longrightarrow>
   (\<forall>np \<in> set ns. np \<noteq> None) \<and>
   list_all2 (\<lambda>n np'. \<exists>n'. np' = Some n' \<and> NodeAuthzDataPack C uad (RedactPrivateDataFor (Some uad) n) = Inr n')
     (filter (readable s uad) (map the ns)) ns'"
  by (induction ns arbitrary: ns') (auto simp: go_bind_eq_Inr_iff split: if_splits)

lemma list_all2_Some_map:
  "list_all2 (\<lambda>x q. \<exists>y. q = Some y \<and> P x y) xs qs \<Longrightarrow> \<exists>ys. qs = map Some ys \<and> list_all2 P xs ys"
proof (induction rule: list_all2_induct)
  case (Cons x xs q qs)
  then obtain y ys where "q = Some y" "P x y" "qs = map Some ys" "list_all2 P xs ys" by auto
  then have "q # qs = map Some (y # ys) \<and> list_all2 P (x # xs) (y # ys)" by simp
  then show ?case by (rule exI)
qed simp

lemma flat_eqD: "flat m = flat m' \<Longrightarrow> nattrs m = nattrs m' \<and> Owner m = Owner m'"
  by (simp add: flat_def)

lemma pack_self_reach_Private:
  assumes "NodeAuthzDataPack C uad n = Inr n'" and "m' \<in> set (reach n')"
  shows "\<exists>m \<in> set (reach n). PrivateData (nattrs m') = PrivateData (nattrs m) \<and> Owner m' = Owner m
    \<and> AuthzData (nattrs m') = MessageAndMAC C (ad_text m) (UadSecretKey uad)"
proof -
  have "flat m' \<in> set (map flat (reach n'))" using assms(2) by simp
  then obtain m where "m \<in> set (reach n)" "flat m' = flat (pack_self C uad m)"
    unfolding reach_pack(1) [OF assms(1)] by auto
  then show ?thesis by (auto dest!: flat_eqD)
qed

lemma packed_node_private:
  assumes "NodeAuthzDataPack C uad (RedactPrivateDataFor (Some uad) n) = Inr n'" and "m' \<in> set (reach n')"
  shows "PrivateData (nattrs m') = None \<or> IsAdmin uad \<or> owned_by uad (Owner m')"
  using pack_self_reach_Private [OF assms] redact_char [of uad n] by (auto simp: list_all_iff)

text \<open>
  Property C2. A response shows a caller only what the read rule allows: after
  \<open>AuthzDataPack\<close>, the result nodes are, in order and without omission, the redacted and
  sealed forms of exactly those nodes of the database result that the caller owns, or may
  see as a system user, or has a share group grant with read permission for; and no node
  in the response, at any depth of out-edges, has private data unless the caller owns it
  or is a system user.
\<close>

theorem response_nodes_exact:
  assumes "CoggedResponse_AuthzDataPack C s uad resp = Inr resp'" and "ResultNodes resp = Some ns"
  shows "\<exists>ns'. ResultNodes resp' = Some (map Some ns') \<and>
    list_all2 (\<lambda>n n'. NodeAuthzDataPack C uad (RedactPrivateDataFor (Some uad) n) = Inr n')
      (filter (readable s uad) (map the ns)) ns'
    \<and> (\<forall>n' \<in> set ns'. \<forall>m \<in> set (reach n').
         PrivateData (nattrs m) = None \<or> IsAdmin uad \<or> owned_by uad (Owner m))"
proof -
  from assms obtain out where out: "filter_nodes C s uad ns = Inr out" and r: "ResultNodes resp' = Some out"
    by (auto simp: CoggedResponse_AuthzDataPack_def go_bind_eq_Inr_iff go_option_Inr option_rel_Some1)
  let ?P = "\<lambda>n n'. NodeAuthzDataPack C uad (RedactPrivateDataFor (Some uad) n) = Inr n'"
  from filter_nodes_Inr [OF out]
  have l: "list_all2 (\<lambda>n np'. \<exists>n'. np' = Some n' \<and> ?P n n') (filter (readable s uad) (map the ns)) out" by simp
  from list_all2_Some_map [where P = ?P, OF l] obtain outs
    where o: "out = map Some outs" and l2: "list_all2 ?P (filter (readable s uad) (map the ns)) outs"
    by (elim exE conjE)
  have "PrivateData (nattrs m) = None \<or> IsAdmin uad \<or> owned_by uad (Owner m)"
    if "n' \<in> set outs" and "m \<in> set (reach n')" for n' m
  proof -
    from that(1) obtain i where i: "i < length outs" "outs ! i = n'" by (auto simp: in_set_conv_nth)
    from list_all2_nthD2 [OF l2 i(1)] obtain n where "?P n n'" unfolding i(2) ..
    from packed_node_private [OF this that(2)] show ?thesis .
  qed
  then have "\<forall>n' \<in> set outs. \<forall>m \<in> set (reach n').
      PrivateData (nattrs m) = None \<or> IsAdmin uad \<or> owned_by uad (Owner m)"
    by (intro ballI)
  with l2 r o show ?thesis by (intro exI [of _ outs] conjI) simp_all
qed

theorem response_nodes_exact_witness:
  "\<exists>resp' ns'. CoggedResponse_AuthzDataPack toy_crypto UsmInit example_uad
       ((empty_response 0)\<lparr>ResultNodes := Some [Some example_node, Some (NewGraphNodeJustUID ''0x9'')]\<rparr>) = Inr resp'
     \<and> ResultNodes resp' = Some (map Some ns') \<and> length ns' = 1"
proof -
  let ?ns = "[Some example_node, Some (NewGraphNodeJustUID ''0x9'')]"
  let ?resp = "(empty_response 0)\<lparr>ResultNodes := Some ?ns\<rparr>"
  have rd: "readable UsmInit example_uad example_node" "\<not> readable UsmInit example_uad (NewGraphNodeJustUID ''0x9'')"
    by (simp_all add: readable_def owned_by_def example_node_def example_uad_def NewGraphUser_def
        NewGraphNodeJustUID_def IsAdmin_def SYS_ROLE_def node_attrs_of_uid_def)
  have "\<not> admin_uad (Some example_uad)"
    by (simp add: admin_uad_def IsAdmin_def example_uad_def SYS_ROLE_def)
  then obtain n' where n': "NodeAuthzDataPack toy_crypto example_uad (RedactPrivateDataFor (Some example_uad) example_node) = Inr n'"
    by (simp add: example_node_def)
  have f: "filter_nodes toy_crypto UsmInit example_uad ?ns = Inr [Some n']"
    by (simp add: rd n')
  have p: "CoggedResponse_AuthzDataPack toy_crypto UsmInit example_uad ?resp = Inr (?resp\<lparr>ResultNodes := Some [Some n']\<rparr>)"
    by (simp add: CoggedResponse_AuthzDataPack_def go_option_def f empty_response_def del: filter_nodes.simps)
  have "ResultNodes ?resp = Some ?ns" by simp
  from response_nodes_exact [OF p this] obtain ns' where
    ns': "ResultNodes (?resp\<lparr>ResultNodes := Some [Some n']\<rparr>) = Some (map Some ns')" by blast
  then have "map Some ns' = [Some n']" by simp
  then have "length ns' = 1" by (metis length_map length_Cons list.size(3) One_nat_def)
  with p ns' show ?thesis by blast
qed

text \<open>
  Property C34. Users with the system role are hidden from everybody else: when a response
  with users is packed for a caller who is not a system user, exactly the users whose role
  is not \<open>sys\<close> remain, in order, each with its AD and otherwise unchanged.
\<close>

theorem response_users_exact:
  assumes "CoggedResponse_AuthzDataPack C s uad resp = Inr resp'" and "ResultUsers resp = Some us"
    and "\<not> IsAdmin uad"
  shows "ResultUsers resp' =
    Some (map (Some \<circ> UserAuthzDataPack C uad) (filter (\<lambda>u. URole (uattrs u) \<noteq> Some SYS_ROLE) (map the us)))"
proof -
  have "filter_users C uad us = Inr us' \<Longrightarrow>
    us' = map (Some \<circ> UserAuthzDataPack C uad) (filter (\<lambda>u. URole (uattrs u) \<noteq> Some SYS_ROLE) (map the us))" for us'
  proof (induction us arbitrary: us')
    case (Cons up us)
    then show ?case
      using assms(3)
      by (auto simp: user_visible_def go_bind_eq_Inr_iff SYS_ROLE_def split: if_splits)
  qed simp
  with assms show ?thesis
    by (auto simp: CoggedResponse_AuthzDataPack_def go_bind_eq_Inr_iff go_option_Inr option_rel_Some1)
qed

definition user_with_role :: "string \<Rightarrow> string \<Rightarrow> graph_user" where
  "user_with_role uid role = GraphUser ((uattrs (NewGraphUser uid))\<lparr>URole := Some role\<rparr>) None None"

theorem response_users_exact_witness:
  "\<exists>resp'. CoggedResponse_AuthzDataPack toy_crypto UsmInit example_uad
      ((empty_response 0)\<lparr>ResultUsers := Some [Some (user_with_role ''0x2'' ''sys''), Some (user_with_role ''0x3'' ''user'')]\<rparr>)
      = Inr resp' \<and> ResultUsers resp' = Some [Some (UserAuthzDataPack toy_crypto example_uad (user_with_role ''0x3'' ''user''))]"
proof -
  let ?us = "[Some (user_with_role ''0x2'' ''sys''), Some (user_with_role ''0x3'' ''user'')]"
  let ?resp = "(empty_response 0)\<lparr>ResultUsers := Some ?us\<rparr>"
  have na: "\<not> IsAdmin example_uad" by (simp add: IsAdmin_def example_uad_def SYS_ROLE_def)
  obtain resp' where r: "CoggedResponse_AuthzDataPack toy_crypto UsmInit example_uad ?resp = Inr resp'"
    by (simp add: CoggedResponse_AuthzDataPack_def go_option_def empty_response_def user_visible_def na
        user_with_role_def)
  have "ResultUsers resp' = Some [Some (UserAuthzDataPack toy_crypto example_uad (user_with_role ''0x3'' ''user''))]"
    using response_users_exact [OF r _ na, of ?us] by (simp add: user_with_role_def SYS_ROLE_def)
  with r show ?thesis by blast
qed

end
