(* ===== verification/Requests.thy ===== *)
theory Requests
  imports NodeTree
begin

text \<open>
  The package \<open>requests\<close>: request structures, their validation, and the replacement of
  authorisation data by real uids. A handler receives the decoded JSON body, \<open>None\<close> when it
  does not unmarshal into the structure; from there \<open>BindToRequest\<close> is as in the source.
  JSON \<open>null\<close> and absent arrays are \<open>None\<close>, which the code tells apart from empty ones.
\<close>

section \<open>Binding\<close>

record UnpackData =
  UAD :: "UserAuthData option"
  RequiredPermissions :: string

datatype bind_error = BindError string

definition empty_uad :: UserAuthData where
  "empty_uad = \<lparr>UadUid = [], UadRole = [], UadTokenId = [], UadTimestamp = [], UadSecretKey = []\<rparr>"

definition TryAuthzDataUnpack ::
    "('r \<Rightarrow> UserAuthData \<Rightarrow> string \<Rightarrow> ('r \<times> bool) go) \<Rightarrow> 'r \<Rightarrow> UnpackData \<Rightarrow> ('r \<times> bool) go" where
  "TryAuthzDataUnpack unpack v ud =
     (let uad = (case UAD ud of None \<Rightarrow> empty_uad | Some u \<Rightarrow> u)
      in unpack v uad (RequiredPermissions ud))"

text \<open>
  Every request type implements both interfaces, so the reflective lookups of the source
  find the methods \<open>unpack\<close> and \<open>validate\<close>.
\<close>

definition BindToRequest ::
    "('r \<Rightarrow> UserAuthData \<Rightarrow> string \<Rightarrow> ('r \<times> bool) go) \<Rightarrow> ('r \<Rightarrow> bool) \<Rightarrow> 'r option \<Rightarrow> UnpackData
     \<Rightarrow> (bind_error + 'r) go" where
  "BindToRequest unpack validate body ud =
     (case body of
        None \<Rightarrow> Inr (Inl (BindError ''unpack and validate failed''))
      | Some r \<Rightarrow>
          go_bind (TryAuthzDataUnpack unpack r ud) (\<lambda>res.
            if snd res \<and> validate (fst res) then Inr (Inr (fst res))
            else Inr (Inl (BindError ''unpack and validate failed''))))"

lemma BindToRequest_Inr:
  "BindToRequest unpack validate body ud = Inr (Inr r') \<longleftrightarrow>
   (\<exists>r. body = Some r \<and> TryAuthzDataUnpack unpack r ud = Inr (r', True) \<and> validate r')"
  by (auto simp: BindToRequest_def go_bind_eq_Inr_iff split: option.splits if_splits)

section \<open>Login and users\<close>

record LoginRequest =
  LR_Username :: string
  LR_Password :: string

definition LoginRequest_AuthzDataUnpack :: "LoginRequest \<Rightarrow> UserAuthData \<Rightarrow> string \<Rightarrow> (LoginRequest \<times> bool) go" where
  "LoginRequest_AuthzDataUnpack r uad perms = Inr (r, True)"

definition LoginRequest_Validate :: "LoginRequest \<Rightarrow> bool" where
  "LoginRequest_Validate lr \<longleftrightarrow> 0 < length (LR_Username lr) \<and> \<not> has_prefix (LR_Username lr) ''~''"

definition MIN_USER_PASS_LENGTH :: nat where
  "MIN_USER_PASS_LENGTH = 4"

record CreateUserRequest =
  CU_Username :: string
  CU_Password :: string
  CU_UserData :: "string option"
  CU_Internal :: "string option"
  CU_Role :: string

definition CreateUserRequest_AuthzDataUnpack ::
    "CreateUserRequest \<Rightarrow> UserAuthData \<Rightarrow> string \<Rightarrow> (CreateUserRequest \<times> bool) go" where
  "CreateUserRequest_AuthzDataUnpack r uad perms = Inr (r, True)"

definition CreateUserRequest_Validate :: "CreateUserRequest \<Rightarrow> bool" where
  "CreateUserRequest_Validate c \<longleftrightarrow>
     0 < length (CU_Username c) \<and> MIN_USER_PASS_LENGTH < length (CU_Password c) \<and> \<not> has_prefix (CU_Username c) ''~''"

record UsersRequest =
  UR_Users :: "graph_user option list option"

definition UsersRequest_AuthzDataUnpack :: "UsersRequest \<Rightarrow> UserAuthData \<Rightarrow> string \<Rightarrow> (UsersRequest \<times> bool) go" where
  "UsersRequest_AuthzDataUnpack r uad perms = Inr (r, True)"

definition UsersRequest_Validate :: "UsersRequest \<Rightarrow> bool" where
  "UsersRequest_Validate u \<longleftrightarrow> (case UR_Users u of None \<Rightarrow> False | Some us \<Rightarrow> 1 \<le> length us)"

section \<open>New nodes\<close>

definition TMP_UID_PREFIX :: string where
  "TMP_UID_PREFIX = ''$''"

definition CheckUidIsPlaceholder :: "string \<Rightarrow> bool" where
  "CheckUidIsPlaceholder uid \<longleftrightarrow> has_prefix uid TMP_UID_PREFIX"

fun placeholder_node :: "graph_node \<Rightarrow> bool"
  and placeholder_list :: "graph_node option list \<Rightarrow> bool" where
  "placeholder_node (GraphNode a None ow) = CheckUidIsPlaceholder (Uid a)"
| "placeholder_node (GraphNode a (Some es) ow) = (CheckUidIsPlaceholder (Uid a) \<and> placeholder_list es)"
| "placeholder_list [] = True"
| "placeholder_list (None # es) = False"
| "placeholder_list (Some e # es) = (placeholder_node e \<and> placeholder_list es)"

definition CheckUidsArePlaceholders :: "graph_node option list option \<Rightarrow> bool" where
  "CheckUidsArePlaceholders nl = (case nl of None \<Rightarrow> True | Some ns \<Rightarrow> placeholder_list ns)"

record CreateNodesRequest =
  CN_Nodes :: "graph_node option list option"
  CN_ResetSgi :: bool

definition CreateNodesRequest_AuthzDataUnpack ::
    "CreateNodesRequest \<Rightarrow> UserAuthData \<Rightarrow> string \<Rightarrow> (CreateNodesRequest \<times> bool) go" where
  "CreateNodesRequest_AuthzDataUnpack r uad perms = Inr (r, True)"

definition CreateNodesRequest_Validate :: "CreateNodesRequest \<Rightarrow> bool" where
  "CreateNodesRequest_Validate req \<longleftrightarrow>
     (case CN_Nodes req of
        None \<Rightarrow> False
      | Some ns \<Rightarrow> 0 < length ns \<and> CheckUidsArePlaceholders (Some ns))"

record UserNodeRequest =
  UN_Node :: "graph_node option"

definition UserNodeRequest_AuthzDataUnpack ::
    "UserNodeRequest \<Rightarrow> UserAuthData \<Rightarrow> string \<Rightarrow> (UserNodeRequest \<times> bool) go" where
  "UserNodeRequest_AuthzDataUnpack r uad perms = Inr (r, True)"

definition UserNodeRequest_Validate :: "UserNodeRequest \<Rightarrow> bool" where
  "UserNodeRequest_Validate req \<longleftrightarrow>
     (case UN_Node req of None \<Rightarrow> False | Some n \<Rightarrow> CheckUidIsPlaceholder (NodeUid n))"

lemma placeholder_iff:
  "placeholder_node n \<longleftrightarrow> \<not> has_nil_edge n \<and> (\<forall>m \<in> set (reach n). CheckUidIsPlaceholder (NodeUid m))"
  "placeholder_list es \<longleftrightarrow> \<not> nil_in_edges es \<and> (\<forall>m \<in> set (reach_edges es). CheckUidIsPlaceholder (NodeUid m))"
  by (induction n and es rule: placeholder_node_placeholder_list.induct) auto

text \<open>
  A create request passes validation exactly when its node list is not empty,
  no entry and no out-edge at any depth is null, and every node and every node reachable
  through out-edges has a temporary uid starting with a dollar sign. So no existing node
  can be named in a create request.
\<close>

lemma CreateNodesRequest_Validate_iff:
  "CreateNodesRequest_Validate req \<longleftrightarrow>
   (\<exists>ns. CN_Nodes req = Some ns \<and> ns \<noteq> [] \<and> \<not> nil_in_edges ns \<and>
      list_all (\<lambda>m. NodeUid m \<noteq> [] \<and> hd (NodeUid m) = CHR ''$'') (reach_edges ns))"
proof -
  have "CheckUidIsPlaceholder uid \<longleftrightarrow> uid \<noteq> [] \<and> hd uid = CHR ''$''" for uid
    by (cases uid) (auto simp: CheckUidIsPlaceholder_def TMP_UID_PREFIX_def)
  then show ?thesis
    by (auto simp: CreateNodesRequest_Validate_def CheckUidsArePlaceholders_def placeholder_iff(2)
        list_all_iff split: option.splits)
qed

section \<open>Updates\<close>

record UpdateNodesRequest =
  UP_Nodes :: "graph_node option list option"

definition UpdateNodesRequest_AuthzDataUnpack ::
    "crypto \<Rightarrow> usm \<Rightarrow> UpdateNodesRequest \<Rightarrow> UserAuthData \<Rightarrow> string \<Rightarrow> (UpdateNodesRequest \<times> bool) go" where
  "UpdateNodesRequest_AuthzDataUnpack C s req uad permissionsRequired =
     go_bind (AuthzDataUnpackNodeSlice C s (UP_Nodes req) uad permissionsRequired) (\<lambda>r.
       Inr (req\<lparr>UP_Nodes := fst r\<rparr>, snd r))"

definition UpdateNodesRequest_Validate :: "UpdateNodesRequest \<Rightarrow> bool" where
  "UpdateNodesRequest_Validate req \<longleftrightarrow> True"

section \<open>Edges\<close>

record EdgesRequest =
  ER_SubjectIds :: "string list option"
  ER_IncomingIds :: "string list option"
  ER_OutgoingIds :: "string list option"

definition present :: "string list option \<Rightarrow> bool" where
  "present ids \<longleftrightarrow> (case ids of None \<Rightarrow> False | Some xs \<Rightarrow> 0 < length xs)"

definition authzOptionalIDs ::
    "crypto \<Rightarrow> usm \<Rightarrow> string list option \<Rightarrow> UserAuthData \<Rightarrow> string \<Rightarrow> string list option \<times> bool" where
  "authzOptionalIDs C s ids uad perms =
     (if \<not> present ids then (ids, True) else AuthzDataUnpackADStringSlice C s ids uad perms)"

definition subject_permissions :: "EdgesRequest \<Rightarrow> string" where
  "subject_permissions req =
     (if present (ER_IncomingIds req) then ''i'' else []) @ (if present (ER_OutgoingIds req) then ''o'' else [])"

definition EdgesRequest_AuthzDataUnpack ::
    "crypto \<Rightarrow> usm \<Rightarrow> EdgesRequest \<Rightarrow> UserAuthData \<Rightarrow> string \<Rightarrow> (EdgesRequest \<times> bool) go" where
  "EdgesRequest_AuthzDataUnpack C s req uad permissionsRequired =
     (case AuthzDataUnpackADStringSlice C s (ER_SubjectIds req) uad (subject_permissions req) of
        (subj, ok1) \<Rightarrow>
          if \<not> ok1 then Inr (req\<lparr>ER_SubjectIds := subj\<rparr>, False)
          else (case authzOptionalIDs C s (ER_IncomingIds req) uad ''o'' of
            (inc, ok2) \<Rightarrow>
              if \<not> ok2 then Inr (req\<lparr>ER_SubjectIds := subj, ER_IncomingIds := inc\<rparr>, False)
              else (case authzOptionalIDs C s (ER_OutgoingIds req) uad ''i'' of
                (out, ok3) \<Rightarrow>
                  Inr (\<lparr>ER_SubjectIds = subj, ER_IncomingIds = inc, ER_OutgoingIds = out\<rparr>, ok3))))"

definition EdgesRequest_Validate :: "EdgesRequest \<Rightarrow> bool" where
  "EdgesRequest_Validate req \<longleftrightarrow>
     (if \<not> present (ER_SubjectIds req) then False
      else (let hasIn = present (ER_IncomingIds req); hasOut = present (ER_OutgoingIds req) in hasIn \<or> hasOut))"

text \<open>An id list after authorisation: every uid is granted by the AD in its place.\<close>

definition ids_granted :: "crypto \<Rightarrow> usm \<Rightarrow> UserAuthData \<Rightarrow> string \<Rightarrow> string list option \<Rightarrow> string list option \<Rightarrow> bool" where
  "ids_granted C s uad required ads uids \<longleftrightarrow>
     rel_option (list_all2 (ad_grants C s uad required)) ads uids"

lemma authzOptionalIDs_ok:
  assumes "authzOptionalIDs C s ids uad perms = (out, True)"
  shows "ids_granted C s uad perms ids out"
proof (cases "present ids")
  case True
  with assms have "AuthzDataUnpackADStringSlice C s ids uad perms = (out, True)"
    by (simp add: authzOptionalIDs_def)
  then show ?thesis
    by (elim UnpackADStringSlice_ok) (simp add: ids_granted_def)
next
  case False
  with assms show ?thesis
    by (cases ids) (auto simp: authzOptionalIDs_def ids_granted_def present_def)
qed

lemma present_granted: "ids_granted C s uad perms ads uids \<Longrightarrow> present ads = present uids"
  by (cases ads; cases uids) (auto simp: ids_granted_def present_def dest: list_all2_lengthD)

definition edges_bind :: "crypto \<Rightarrow> usm \<Rightarrow> EdgesRequest option \<Rightarrow> UserAuthData \<Rightarrow> (bind_error + EdgesRequest) go" where
  "edges_bind C s body uad =
     BindToRequest (EdgesRequest_AuthzDataUnpack C s) EdgesRequest_Validate body
       \<lparr>UAD = Some uad, RequiredPermissions = []\<rparr>"

text \<open>
  Property C7. Edge requests are fully authorised: when an edge request binds, it names at
  least one subject and at least one neighbour; every subject uid comes from an authentic
  AD granting the caller incoming-edge permission if there are incoming ids and
  outgoing-edge permission if there are outgoing ids, every incoming neighbour grants
  outgoing-edge permission, and every outgoing neighbour grants incoming-edge permission.
\<close>

theorem edges_request_authorised:
  assumes "edges_bind C s (Some req) uad = Inr (Inr r)"
  shows "present (ER_SubjectIds r) \<and> (present (ER_IncomingIds r) \<or> present (ER_OutgoingIds r))
    \<and> ids_granted C s uad ((if present (ER_IncomingIds r) then ''i'' else []) @ (if present (ER_OutgoingIds r) then ''o'' else []))
        (ER_SubjectIds req) (ER_SubjectIds r)
    \<and> ids_granted C s uad ''o'' (ER_IncomingIds req) (ER_IncomingIds r)
    \<and> ids_granted C s uad ''i'' (ER_OutgoingIds req) (ER_OutgoingIds r)"
proof -
  from assms have v: "EdgesRequest_Validate r"
    and u: "EdgesRequest_AuthzDataUnpack C s req uad [] = Inr (r, True)"
    by (auto simp: edges_bind_def BindToRequest_Inr TryAuthzDataUnpack_def)
  from u obtain subj inc out where
    1: "AuthzDataUnpackADStringSlice C s (ER_SubjectIds req) uad (subject_permissions req) = (subj, True)"
    and 2: "authzOptionalIDs C s (ER_IncomingIds req) uad ''o'' = (inc, True)"
    and 3: "authzOptionalIDs C s (ER_OutgoingIds req) uad ''i'' = (out, True)"
    and r: "r = \<lparr>ER_SubjectIds = subj, ER_IncomingIds = inc, ER_OutgoingIds = out\<rparr>"
    by (auto simp: EdgesRequest_AuthzDataUnpack_def split: prod.splits if_splits)
  from 1 have s: "ids_granted C s uad (subject_permissions req) (ER_SubjectIds req) subj"
    by (elim UnpackADStringSlice_ok) (simp add: ids_granted_def)
  note g2 = authzOptionalIDs_ok [OF 2] and g3 = authzOptionalIDs_ok [OF 3]
  from v s g2 g3 show ?thesis
    by (simp add: r EdgesRequest_Validate_def Let_def subject_permissions_def
        present_granted [OF g2] present_granted [OF g3] split: if_splits)
qed

definition example_edges :: EdgesRequest where
  "example_edges = \<lparr>ER_SubjectIds = Some [AuthzData (nattrs example_packed)], ER_IncomingIds = None,
     ER_OutgoingIds = Some [AuthzData (nattrs example_packed)]\<rparr>"

theorem edges_request_authorised_witness:
  "edges_bind toy_crypto UsmInit (Some example_edges) example_uad =
     Inr (Inr \<lparr>ER_SubjectIds = Some [''0x5''], ER_IncomingIds = None, ER_OutgoingIds = Some [''0x5'']\<rparr>)
   \<and> ids_granted toy_crypto UsmInit example_uad ''i'' (ER_OutgoingIds example_edges) (Some [''0x5''])"
proof -
  have b: "edges_bind toy_crypto UsmInit (Some example_edges) example_uad =
     Inr (Inr \<lparr>ER_SubjectIds = Some [''0x5''], ER_IncomingIds = None, ER_OutgoingIds = Some [''0x5'']\<rparr>)"
    by (simp add: edges_bind_def BindToRequest_def TryAuthzDataUnpack_def EdgesRequest_AuthzDataUnpack_def
        AuthzDataUnpackADStringSlice_def AuthzDataUnpackADStringSlicePlusNodes_def authzOptionalIDs_def
        example_edges_def example_unpack present_def EdgesRequest_Validate_def)
  from edges_request_authorised [OF b] show ?thesis by (simp add: b)
qed

section \<open>Sharing\<close>

record ShareNodesRequest =
  SN_Nodes :: "string list option"
  SN_Users :: "string list option"
  SN_UnpackedNodes :: "graph_node list"

definition ShareNodesRequest_AuthzDataUnpack ::
    "crypto \<Rightarrow> usm \<Rightarrow> ShareNodesRequest \<Rightarrow> UserAuthData \<Rightarrow> string \<Rightarrow> (ShareNodesRequest \<times> bool) go" where
  "ShareNodesRequest_AuthzDataUnpack C s req uad permissionsRequired =
     (case AuthzDataUnpackADStringSlicePlusNodes C s (SN_Nodes req) uad permissionsRequired of
        (uids, nodes, ok1) \<Rightarrow>
          if \<not> ok1 then Inr (req\<lparr>SN_Nodes := uids, SN_UnpackedNodes := nodes\<rparr>, False)
          else (case AuthzDataUnpackUserADStringSlice C (SN_Users req) uad of
            (users, ok2) \<Rightarrow>
              Inr (\<lparr>SN_Nodes = uids, SN_Users = users, SN_UnpackedNodes = nodes\<rparr>, ok2)))"

definition ShareNodesRequest_Validate :: "ShareNodesRequest \<Rightarrow> bool" where
  "ShareNodesRequest_Validate req \<longleftrightarrow> True"

section \<open>Queries\<close>

record QueryGeo =
  Point :: "float64 list"
  Distance :: float64

record QuerySimilarity =
  Vector :: string
  TopK :: nat

datatype query_clause =
  QueryRequestClause (qc_And: "query_clause list option") (qc_Or: "query_clause list option")
    (qc_Field: string) (qc_Op: string) (qc_Val: string) (qc_Geo: "QueryGeo option")

record QueryRequest =
  RootIDs :: "string list"
  RootQuery :: "query_clause option"
  Depth :: nat
  Filters :: "query_clause option"
  Select :: "string list"
  First :: "int option"
  Offset :: "int option"
  After :: "string option"
  OrderBy :: "string option"
  OrderDesc :: bool
  Similar :: "QuerySimilarity option"
  Geo :: "QueryGeo option"

definition QueryRequest_AuthzDataUnpack ::
    "crypto \<Rightarrow> usm \<Rightarrow> QueryRequest \<Rightarrow> UserAuthData \<Rightarrow> string \<Rightarrow> (QueryRequest \<times> bool) go" where
  "QueryRequest_AuthzDataUnpack C s req uad permissionsRequired =
     (if UadRole uad \<noteq> SYS_ROLE \<and> RootQuery req \<noteq> None then Inr (req, False)
      else if length (RootIDs req) < 1 then Inr (req, True)
      else (case AuthzDataUnpackADStringSlice C s (Some (RootIDs req)) uad permissionsRequired of
              (ids, ok) \<Rightarrow> Inr (req\<lparr>RootIDs := (case ids of None \<Rightarrow> [] | Some xs \<Rightarrow> xs)\<rparr>, ok)))"

definition QueryRequest_Validate :: "QueryRequest \<Rightarrow> bool" where
  "QueryRequest_Validate req \<longleftrightarrow> True"

lemma query_request_authorised:
  assumes "QueryRequest_AuthzDataUnpack C s req uad required = Inr (r, True)"
  shows "(RootQuery r = None \<or> IsAdmin uad) \<and> RootQuery r = RootQuery req \<and> Filters r = Filters req
    \<and> list_all2 (ad_grants C s uad required) (RootIDs req) (RootIDs r)"
proof (cases "RootIDs req = []")
  case True
  with assms show ?thesis
    by (auto simp: QueryRequest_AuthzDataUnpack_def IsAdmin_def split: if_splits)
next
  case False
  with assms obtain ids where u: "AuthzDataUnpackADStringSlice C s (Some (RootIDs req)) uad required = (ids, True)"
    and r: "r = req\<lparr>RootIDs := (case ids of None \<Rightarrow> [] | Some xs \<Rightarrow> xs)\<rparr>"
    and a: "RootQuery req = None \<or> IsAdmin uad"
    by (auto simp: QueryRequest_AuthzDataUnpack_def IsAdmin_def split: if_splits prod.splits)
  from u obtain uids where "ids = Some uids" "list_all2 (ad_grants C s uad required) (RootIDs req) uids"
    by (elim UnpackADStringSlice_ok) auto
  with r a show ?thesis by simp
qed

end
