(* ===== verification/Dql.thy ===== *)
theory Dql
  imports Responses Requests
begin

text \<open>
  The text fragments of which \<open>services/db.go\<close> builds its queries: sanitised uids, operator
  and field names, escaped search patterns, geographic and vector literals, pagination, and
  the template substitution. What depends on the runtime and not on the program is a
  record: the shortest decimal rendering of a float, the local rendering of the epoch, and
  the order in which a map is iterated.
\<close>

record runtime =
  format_float :: "float64 \<Rightarrow> string"
  epoch_string :: string
  map_order :: "string list \<Rightarrow> string list"

type_synonym vars = "(string \<times> string) list"

section \<open>Constants\<close>

datatype EdgeType = NODENODE | USERNODE | USERSHARE | USERSHAREDWITH

datatype UpdateType = ADD | DELETE

definition OP_TEXTSEARCH :: string where
  "OP_TEXTSEARCH = ''has''"

definition allowedOps :: "string list" where
  "allowedOps = [OP_TEXTSEARCH, ''eq'', ''gt'', ''lt'', ''ge'', ''le'']"

definition PRIVATE_FIELD :: string where
  "PRIVATE_FIELD = ''p''"

definition GEO_FIELD :: string where
  "GEO_FIELD = ''g''"

definition MAX_QUERY_RECURSE_DEPTH :: nat where
  "MAX_QUERY_RECURSE_DEPTH = 20"

definition MAX_GEO_DISTANCE_METRES :: rat where
  "MAX_GEO_DISTANCE_METRES = 20100000"

definition DEFAULT_SIMILAR_TOPK :: nat where
  "DEFAULT_SIMILAR_TOPK = 10"

definition MAX_SIMILAR_TOPK :: nat where
  "MAX_SIMILAR_TOPK = 1000"

definition allowedFields :: "string list" where
  "allowedFields = [''e'', ''ty'', ''id'', ''p'', ''s1'', ''s2'', ''s3'', ''s4'', ''b'', ''n1'', ''n2'',
     ''c'', ''m'', ''t1'', ''t2'', ''g'']"

definition alnum_char :: "char \<Rightarrow> bool" where
  "alnum_char c \<longleftrightarrow> (65 \<le> ord c \<and> ord c \<le> 90) \<or> (97 \<le> ord c \<and> ord c \<le> 122) \<or> (48 \<le> ord c \<and> ord c \<le> 57)"

definition digit_char :: "char \<Rightarrow> bool" where
  "digit_char c \<longleftrightarrow> 48 \<le> ord c \<and> ord c \<le> 57"

text \<open>The patterns \<open>[A-Za-z0-9 ,]\<close> (not anchored) and \<open>^0x[0-9a-f]+$\<close>.\<close>

definition plain_char :: "char \<Rightarrow> bool" where
  "plain_char c \<longleftrightarrow> alnum_char c \<or> c = CHR '' '' \<or> c = CHR '',''"

definition rgxAlphaNumSpace :: "string \<Rightarrow> bool" where
  "rgxAlphaNumSpace s \<longleftrightarrow> list_ex plain_char s"

definition rgxUid :: "string \<Rightarrow> bool" where
  "rgxUid s \<longleftrightarrow> has_prefix s ''0x'' \<and> 2 < length s \<and> list_all hex_char (drop 2 s)"

section \<open>Search patterns\<close>

definition escape_rune :: "string \<Rightarrow> string" where
  "escape_rune p = (let sc = rune_string p in if rgxAlphaNumSpace sc then sc else CHR 0x5C # sc)"

definition escapeAllNonAlphanumOrSpaceChars :: "string \<Rightarrow> string" where
  "escapeAllNonAlphanumOrSpaceChars strVal = concat (map escape_rune (rune_chunks strVal))"

definition createRegex :: "string \<Rightarrow> string" where
  "createRegex strVal = ''/'' @ escapeAllNonAlphanumOrSpaceChars strVal @ ''/i''"

definition renderOp :: "string \<Rightarrow> string" where
  "renderOp op = (let opL = to_lower op in if opL \<in> set allowedOps then opL else OP_TEXTSEARCH)"

definition renderField :: "string \<Rightarrow> string" where
  "renderField field = (let fL = to_lower field in if fL \<in> set allowedFields then fL else [])"

section \<open>Uids\<close>

definition SanitiseUID :: "string \<Rightarrow> string" where
  "SanitiseUID uid =
     ''0x'' @ hex_of_nat (fst (parse_uint 16 (if has_prefix uid ''0x'' then drop 2 uid else uid)))"

definition sanitiseListOfUids :: "string list \<Rightarrow> string list" where
  "sanitiseListOfUids uids = filter (\<lambda>u. u \<noteq> ''0x0'') (map SanitiseUID uids)"

definition getEdgePredicateName :: "EdgeType \<Rightarrow> string" where
  "getEdgePredicateName et =
     (case et of NODENODE \<Rightarrow> ''e'' | USERNODE \<Rightarrow> ''nodes'' | USERSHARE \<Rightarrow> ''shr'' | USERSHAREDWITH \<Rightarrow> ''~shr'')"

section \<open>Parameters, fields, pagination\<close>

definition renderQueryVarsString :: "runtime \<Rightarrow> vars \<Rightarrow> string" where
  "renderQueryVarsString rt vs =
     (let tmpV = filter (\<lambda>k. has_prefix k ''$vv'') (map_order rt (map fst vs))
      in if tmpV = [] then [] else join_with '': string, '' tmpV @ '': string'')"

definition renderQueryParams :: "runtime \<Rightarrow> string list \<Rightarrow> vars \<Rightarrow> string" where
  "renderQueryParams rt fixed vs =
     (let v = renderQueryVarsString rt vs
      in join_with '', '' (if v = [] then fixed else fixed @ [v]))"

definition renderFields :: "string list \<Rightarrow> string" where
  "renderFields flds =
     join_with '' '' (map (\<lambda>f. if f = ''e'' then f @ '' {uid own {uid} sgi r w o i d s}'' else f)
       (filter (\<lambda>f. f \<in> set allowedFields) flds))"

definition renderPagination :: "QueryRequest \<Rightarrow> string" where
  "renderPagination q =
     (let f = (case OrderBy q of None \<Rightarrow> [] | Some o' \<Rightarrow> renderField o');
          p1 = (if f = [] then [] else [(if OrderDesc q then ''orderdesc: '' else ''orderasc: '') @ f]);
          p2 = (case First q of None \<Rightarrow> [] | Some n \<Rightarrow> [''first: '' @ dec_of_int n]);
          p3 = (case Offset q of None \<Rightarrow> [] | Some n \<Rightarrow> [''offset: '' @ dec_of_int n]);
          p4 = (case After q of None \<Rightarrow> [] | Some a \<Rightarrow> if a = [] then [] else [''after: '' @ SanitiseUID a]);
          parts = p1 @ p2 @ p3 @ p4
      in if parts = [] then [] else '', '' @ join_with '', '' parts)"

section \<open>Geographic literals\<close>

definition formatCoord :: "runtime \<Rightarrow> float64 \<Rightarrow> string" where
  "formatCoord rt f = format_float rt f"

text \<open>Comparison of floats with a finite constant: false whenever the float is not a number.\<close>

fun float_less :: "float64 \<Rightarrow> rat \<Rightarrow> bool" where
  "float_less (Finite x) r = (x < r)"
| "float_less NegInf r = True"
| "float_less _ r = False"

fun float_greater :: "float64 \<Rightarrow> rat \<Rightarrow> bool" where
  "float_greater (Finite x) r = (r < x)"
| "float_greater PosInf r = True"
| "float_greater _ r = False"

fun float_le :: "float64 \<Rightarrow> rat \<Rightarrow> bool" where
  "float_le (Finite x) r = (x \<le> r)"
| "float_le NegInf r = True"
| "float_le _ r = False"

fun finite_float :: "float64 \<Rightarrow> bool" where
  "finite_float (Finite x) = True"
| "finite_float _ = False"

definition validateGeo :: "QueryGeo \<Rightarrow> string option" where
  "validateGeo g =
     (case Point g of
        [lon, lat] \<Rightarrow>
          if \<not> list_all finite_float [lon, lat, Distance g]
          then Some ''geo point and distance must be finite numbers''
          else if float_less lon (-180) \<or> float_greater lon 180
          then Some ''geo longitude must be between -180 and 180 (point is [longitude, latitude])''
          else if float_less lat (-90) \<or> float_greater lat 90
          then Some ''geo latitude must be between -90 and 90 (point is [longitude, latitude])''
          else if float_le (Distance g) 0
          then Some ''geo distance must be greater than 0 metres''
          else if float_greater (Distance g) MAX_GEO_DISTANCE_METRES
          then Some ''geo distance must be at most 20100000 metres''
          else None
      | _ \<Rightarrow> Some ''geo point must be [longitude, latitude]'')"

text \<open>Indexing the point panics on fewer than two coordinates.\<close>

definition renderGeoFunc :: "runtime \<Rightarrow> QueryGeo \<Rightarrow> string go" where
  "renderGeoFunc rt g =
     go_bind (index_go (Point g) 0) (\<lambda>lon. go_bind (index_go (Point g) 1) (\<lambda>lat.
       Inr (''near('' @ GEO_FIELD @ '', ['' @ formatCoord rt lon @ '', '' @ formatCoord rt lat @ ''], ''
            @ formatCoord rt (Distance g) @ '')'')))"

definition renderGeoRootFunc :: "runtime \<Rightarrow> QueryGeo \<Rightarrow> (string + string) go" where
  "renderGeoRootFunc rt g =
     (case validateGeo g of
        Some err \<Rightarrow> Inr (Inl err)
      | None \<Rightarrow> go_bind (renderGeoFunc rt g) (\<lambda>f. Inr (Inr f)))"

section \<open>Character patterns\<close>

text \<open>\<open>rgxSgiChars\<close>: \<open>^[A-Za-z0-9_-]+$\<close>.\<close>

definition rgxSgiChars :: "string \<Rightarrow> bool" where
  "rgxSgiChars s \<longleftrightarrow> s \<noteq> [] \<and> list_all (\<lambda>c. alnum_char c \<or> c = CHR ''_'' \<or> c = CHR ''-'') s"

text \<open>
  \<open>rgxVectorLiteral\<close>, the pattern of a bracketed list of numbers, as the deterministic
  automaton of the regular expression: the state says what has been read.
\<close>

datatype vec_state =
    VBegin | VItem | VSign | VInt | VDot | VFrac | VExp | VExpSign | VExpInt | VAfter | VEnd | VFail

definition space_char :: "char \<Rightarrow> bool" where
  "space_char c \<longleftrightarrow> ord c \<in> {9, 10, 12, 13, 32}"

definition after_number :: "char \<Rightarrow> vec_state" where
  "after_number c =
     (if space_char c then VAfter else if c = CHR '','' then VItem else if c = CHR '']'' then VEnd else VFail)"

definition exp_char :: "char \<Rightarrow> bool" where
  "exp_char c \<longleftrightarrow> c = CHR ''e'' \<or> c = CHR ''E''"

fun vec_step :: "vec_state \<Rightarrow> char \<Rightarrow> vec_state" where
  "vec_step VBegin c = (if c = CHR ''['' then VItem else VFail)"
| "vec_step VItem c =
     (if space_char c then VItem else if c = CHR ''-'' then VSign else if digit_char c then VInt else VFail)"
| "vec_step VSign c = (if digit_char c then VInt else VFail)"
| "vec_step VInt c =
     (if digit_char c then VInt else if c = CHR ''.'' then VDot else if exp_char c then VExp else after_number c)"
| "vec_step VDot c = (if digit_char c then VFrac else VFail)"
| "vec_step VFrac c = (if digit_char c then VFrac else if exp_char c then VExp else after_number c)"
| "vec_step VExp c =
     (if c = CHR ''+'' \<or> c = CHR ''-'' then VExpSign else if digit_char c then VExpInt else VFail)"
| "vec_step VExpSign c = (if digit_char c then VExpInt else VFail)"
| "vec_step VExpInt c = (if digit_char c then VExpInt else after_number c)"
| "vec_step VAfter c = after_number c"
| "vec_step VEnd c = VFail"
| "vec_step VFail c = VFail"

definition rgxVectorLiteral :: "string \<Rightarrow> bool" where
  "rgxVectorLiteral s \<longleftrightarrow> foldl vec_step VBegin s = VEnd"

section \<open>Template substitution\<close>

text \<open>\<open>strings.ReplaceAll\<close> for a nonempty pattern; the number counts matched bytes to skip.\<close>

fun replace_loop :: "string \<Rightarrow> string \<Rightarrow> nat \<Rightarrow> string \<Rightarrow> string" where
  "replace_loop pat new n [] = []"
| "replace_loop pat new 0 (c # cs) =
     (if has_prefix (c # cs) pat then new @ replace_loop pat new (length pat - 1) cs
      else c # replace_loop pat new 0 cs)"
| "replace_loop pat new (Suc n) (c # cs) = replace_loop pat new n cs"

definition ReplaceAll :: "string \<Rightarrow> string \<Rightarrow> string \<Rightarrow> string" where
  "ReplaceAll s pat new = replace_loop pat new 0 s"

section \<open>Names and uids are canonical\<close>

lemma renderOp_allowed: "renderOp op \<in> set allowedOps"
  by (simp add: renderOp_def Let_def) (simp add: allowedOps_def)

lemma renderField_allowed: "renderField f = [] \<or> renderField f \<in> set allowedFields"
  by (simp add: renderField_def Let_def)

lemma renderField_single:
  assumes "renderField f = [x]" and "x \<in> {CHR ''p'', CHR ''g''}"
  shows "equal_fold f [x]"
proof -
  from assms have "to_lower f = [x]" by (auto simp: renderField_def Let_def split: if_splits)
  then show ?thesis using assms(2) by (intro equal_fold_if_lower) (auto simp: lower_ascii_def)
qed

lemma rgxUid_hex [simp]: "rgxUid (CHR ''0'' # CHR ''x'' # hex_of_nat n)"
proof -
  have "list_all hex_char (hex_of_nat n)" by (auto simp: list_all_iff dest: hex_of_nat_chars)
  moreover have "0 < length (hex_of_nat n)" by simp
  ultimately show ?thesis by (simp add: rgxUid_def)
qed

lemma rgxUid_SanitiseUID [simp]: "rgxUid (SanitiseUID uid)"
  by (simp add: SanitiseUID_def)

lemma SanitiseUID_hex [str_simps]:
  "n < 2 ^ 64 \<Longrightarrow> SanitiseUID (CHR ''0'' # CHR ''x'' # hex_of_nat n) = ''0x'' @ hex_of_nat n"
  by (simp add: SanitiseUID_def parse_uint_hex)

text \<open>
  Every uid that is inlined into a query or bound to a uid variable is
  canonical: sanitising yields text that matches \<open>^0x[0-9a-f]+$\<close>, keeps the value of a
  canonical 64-bit uid, is idempotent, and a sanitised list contains no zero uid.
\<close>

lemma SanitiseUID_canonical:
  "rgxUid (SanitiseUID uid) \<and> SanitiseUID (SanitiseUID uid) = SanitiseUID uid
   \<and> SanitiseUID (''0x'' @ hex_of_nat (n mod 2 ^ 64)) = ''0x'' @ hex_of_nat (n mod 2 ^ 64)
   \<and> list_all (\<lambda>u. rgxUid u \<and> SanitiseUID u = u \<and> u \<noteq> ''0x0'') (sanitiseListOfUids uids)"
proof -
  have idem: "SanitiseUID (SanitiseUID u) = SanitiseUID u" for u
    using SanitiseUID_hex [OF parse_uint_bound] by (simp add: SanitiseUID_def)
  moreover have "SanitiseUID (''0x'' @ hex_of_nat (n mod 2 ^ 64)) = ''0x'' @ hex_of_nat (n mod 2 ^ 64)"
    using SanitiseUID_hex [of "n mod 2 ^ 64"] by simp
  ultimately show ?thesis by (auto simp: sanitiseListOfUids_def list_all_iff)
qed

section \<open>Escaping\<close>

text \<open>
  The reading of a pattern as a literal by the regular expression syntax: a backslash before
  ASCII punctuation stands for that character, an escape of a letter, a digit or a byte
  beyond ASCII is not a literal, and neither is an unescaped meta character or the slash
  that ends the pattern.
\<close>

definition meta_char :: "char \<Rightarrow> bool" where
  "meta_char c \<longleftrightarrow> ord c \<in> {0x24, 0x28, 0x29, 0x2A, 0x2B, 0x2E, 0x2F, 0x3F, 0x5B, 0x5C, 0x5D, 0x5E, 0x7B, 0x7C, 0x7D}"

definition escapable :: "char \<Rightarrow> bool" where
  "escapable c \<longleftrightarrow> ord c < 128 \<and> \<not> alnum_char c"

fun pattern_literal :: "string \<Rightarrow> string option" where
  "pattern_literal [] = Some []"
| "pattern_literal (c # cs) =
     (if c = CHR 0x5C
      then (case cs of
              [] \<Rightarrow> None
            | d # ds \<Rightarrow> if escapable d then map_option (Cons d) (pattern_literal ds) else None)
      else if meta_char c then None
      else map_option (Cons c) (pattern_literal cs))"

lemma plain_char_not_meta: "plain_char c \<Longrightarrow> \<not> meta_char c \<and> c \<noteq> CHR 0x5C"
  by (auto simp: plain_char_def alnum_char_def meta_char_def)

lemma escape_ascii_Cons:
  "ord c < 128 \<Longrightarrow> escapeAllNonAlphanumOrSpaceChars (c # cs) =
     (if plain_char c then [c] else [CHR 0x5C, c]) @ escapeAllNonAlphanumOrSpaceChars cs"
  by (simp add: escapeAllNonAlphanumOrSpaceChars_def rune_chunks_ascii_Cons escape_rune_def
      rune_string_def rgxAlphaNumSpace_def Let_def)

lemma pattern_literal_escape:
  "\<forall>c \<in> set s. ord c < 128 \<Longrightarrow> pattern_literal (escapeAllNonAlphanumOrSpaceChars s) = Some s"
proof (induction s)
  case Nil
  show ?case by (simp add: escapeAllNonAlphanumOrSpaceChars_def)
next
  case (Cons c cs)
  then have "escapable c" if "\<not> plain_char c"
    using that by (auto simp: escapable_def plain_char_def)
  with Cons show ?case
    using plain_char_not_meta [of c] by (auto simp: escape_ascii_Cons)
qed

text \<open>
  A text search for an ASCII value searches for exactly that value: the escaped
  pattern, read by the regular expression syntax, is the literal value, so no character of
  it acts as an operator or ends the pattern. A value that starts with a character beyond
  ASCII becomes an escape that the syntax rejects.
\<close>

lemma escape_roundtrip:
  "pattern_literal (escapeAllNonAlphanumOrSpaceChars (map (\<lambda>n. chr (n mod 128)) codes)) = Some (map (\<lambda>n. chr (n mod 128)) codes)
   \<and> pattern_literal (escapeAllNonAlphanumOrSpaceChars ([CHR 0xC3, CHR 0xA9] @ s)) = None"
proof
  show "pattern_literal (escapeAllNonAlphanumOrSpaceChars (map (\<lambda>n. chr (n mod 128)) codes)) = Some (map (\<lambda>n. chr (n mod 128)) codes)"
    by (rule pattern_literal_escape) (auto intro: le_less_trans [OF mod_less_eq_dividend] simp: take_bit_nat_eq_self_iff)
  have "rune_width ([CHR 0xC3, CHR 0xA9] @ s) = 2"
    by (simp add: rune_width_def cont_byte_def)
  then have "rune_chunks ([CHR 0xC3, CHR 0xA9] @ s) = [CHR 0xC3, CHR 0xA9] # rune_chunks s"
    by (simp add: rune_chunks.simps [of "CHR 0xC3 # CHR 0xA9 # s"])
  then show "pattern_literal (escapeAllNonAlphanumOrSpaceChars ([CHR 0xC3, CHR 0xA9] @ s)) = None"
    by (simp add: escapeAllNonAlphanumOrSpaceChars_def escape_rune_def rune_string_def
        rgxAlphaNumSpace_def plain_char_def alnum_char_def escapable_def Let_def)
qed

section \<open>Geographic bounds\<close>

definition near_text :: "runtime \<Rightarrow> float64 \<Rightarrow> float64 \<Rightarrow> float64 \<Rightarrow> string" where
  "near_text rt lon lat d = ''near(g, ['' @ formatCoord rt lon @ '', '' @ formatCoord rt lat @ ''], '' @ formatCoord rt d @ '')''"

lemma renderGeoFunc_pair:
  "Point g = [lon, lat] \<Longrightarrow> renderGeoFunc rt g = Inr (near_text rt lon lat (Distance g))"
  by (simp add: renderGeoFunc_def index_go_def near_text_def GEO_FIELD_def)

lemma validateGeo_point: "validateGeo g = None \<Longrightarrow> \<exists>lon lat. Point g = [lon, lat]"
  by (auto simp: validateGeo_def split: list.splits)

lemma validateGeo_finite:
  assumes "Point g = [Finite lon, Finite lat]" and "Distance g = Finite d"
  shows "validateGeo g = None \<longleftrightarrow> \<bar>lon\<bar> \<le> 180 \<and> \<bar>lat\<bar> \<le> 90 \<and> 0 < d \<and> d \<le> 20100000"
proof -
  have b: "(x < - r \<or> r < x) = (\<not> \<bar>x\<bar> \<le> r)" for x r :: rat
    by (simp only: abs_le_iff) linarith
  show ?thesis
    by (simp add: validateGeo_def assms b MAX_GEO_DISTANCE_METRES_def not_less not_le)
qed

lemma validateGeo_not_finite:
  "\<lbrakk>Point g = [lon, lat]; \<not> list_all finite_float [lon, lat, Distance g]\<rbrakk> \<Longrightarrow> validateGeo g \<noteq> None"
  by (simp add: validateGeo_def)

lemma finite_float_iff: "finite_float f \<longleftrightarrow> (\<exists>x. f = Finite x)"
  by (cases f) simp_all

lemma valid_geo_renders:
  "validateGeo g = None \<Longrightarrow> \<exists>lon lat. Point g = [lon, lat] \<and> renderGeoFunc rt g = Inr (near_text rt lon lat (Distance g))"
  using validateGeo_point renderGeoFunc_pair by blast

lemma renderGeoRootFunc_total: "\<not> panics (renderGeoRootFunc rt g)"
proof (cases "validateGeo g")
  case None
  with valid_geo_renders [OF None, of rt] show ?thesis by (auto simp: renderGeoRootFunc_def)
qed (simp add: renderGeoRootFunc_def)

text \<open>
  Property C40. Geographic values are validated exactly: \<open>validateGeo\<close> accepts a value if and
  only if it is a pair of finite coordinates within the longitude and latitude ranges with
  a positive distance of at most 20100000 metres, and rendering an accepted value never
  indexes out of range.
\<close>

theorem validateGeo_iff:
  "(validateGeo g = None \<longleftrightarrow>
     (\<exists>lon lat d. Point g = [Finite lon, Finite lat] \<and> Distance g = Finite d \<and> \<bar>lon\<bar> \<le> 180 \<and> \<bar>lat\<bar> \<le> 90
        \<and> 0 < d \<and> d \<le> 20100000))
   \<and> \<not> panics (renderGeoRootFunc rt g)"
proof
  show "validateGeo g = None \<longleftrightarrow>
     (\<exists>lon lat d. Point g = [Finite lon, Finite lat] \<and> Distance g = Finite d \<and> \<bar>lon\<bar> \<le> 180 \<and> \<bar>lat\<bar> \<le> 90
        \<and> 0 < d \<and> d \<le> 20100000)"
  proof (cases "\<exists>lon lat. Point g = [lon, lat]")
    case True
    then obtain lon lat where p: "Point g = [lon, lat]" by blast
    show ?thesis
    proof (cases "list_all finite_float [lon, lat, Distance g]")
      case fin: True
      then obtain x y d where f: "lon = Finite x" "lat = Finite y" "Distance g = Finite d"
        by (auto simp: finite_float_iff)
      show ?thesis
        using validateGeo_finite [OF p [unfolded f(1,2)] f(3)] by (simp add: p f)
    next
      case nf: False
      have "validateGeo g \<noteq> None" by (rule validateGeo_not_finite [OF p nf])
      with nf show ?thesis by (auto simp: p)
    qed
  next
    case False
    then have "validateGeo g \<noteq> None" using validateGeo_point by blast
    with False show ?thesis by blast
  qed
  show "\<not> panics (renderGeoRootFunc rt g)"
    by (rule renderGeoRootFunc_total)
qed

end
