(* ===== verification/Query.thy ===== *)
theory Query
  imports Dql
begin

text \<open>
  The query compiler of \<open>services/db.go\<close>: the checks on the fields a request may name, the
  compilation of filter clauses to text with bound variables, the read rule pushed into the
  query, and \<open>QueryWithOptions\<close>. The database is a parameter: a function from the query
  text and its variables to the decoded nodes.
\<close>

section \<open>Filter clauses\<close>

definition bind_name :: "crypto \<Rightarrow> string \<Rightarrow> string" where
  "bind_name C clVal = ''$vv'' @ take 20 (MD5SumHex C clVal)"

definition leaf_value :: "runtime \<Rightarrow> string \<Rightarrow> string \<Rightarrow> string" where
  "leaf_value rt field clVal =
     (let v = (if clVal = [] then ''0'' else clVal)
      in if field = ''m'' \<and> v = ''0'' then epoch_string rt else v)"

definition compile_leaf ::
    "crypto \<Rightarrow> runtime \<Rightarrow> string \<Rightarrow> string \<Rightarrow> string \<Rightarrow> vars \<Rightarrow> string \<times> vars" where
  "compile_leaf C rt clField clOp clVal queryvars =
     (let op = renderOp clOp;
          field = renderField clField;
          v = leaf_value rt field clVal;
          valStr = bind_name C v;
          trimmed = trim_space v;
          pattern = op = OP_TEXTSEARCH \<and> 2 < length trimmed;
          op' = (if pattern then ''regexp'' else op);
          v' = (if pattern then createRegex trimmed else if op = OP_TEXTSEARCH then trimmed else v)
      in (op' @ ''('' @ field @ '','' @ valStr @ '')'', AList.update valStr v' queryvars))"

definition compile_end ::
    "crypto \<Rightarrow> runtime \<Rightarrow> string \<Rightarrow> string \<Rightarrow> string \<Rightarrow> QueryGeo option \<Rightarrow> vars \<Rightarrow> (string \<times> vars) go" where
  "compile_end C rt f p v g queryvars =
     (case g of
        Some geo \<Rightarrow> go_bind (renderGeoFunc rt geo) (\<lambda>t. Inr (t, queryvars))
      | None \<Rightarrow> Inr (compile_leaf C rt f p v queryvars))"

definition nest :: "string \<Rightarrow> (string list \<times> vars) go \<Rightarrow> (string \<times> vars) go" where
  "nest opstr r = go_bind r (\<lambda>x. Inr (''('' @ join_with opstr (fst x) @ '')'', snd x))"

fun constructQueryStringAndAddVars ::
      "crypto \<Rightarrow> runtime \<Rightarrow> query_clause \<Rightarrow> vars \<Rightarrow> (string \<times> vars) go"
  and compile_list :: "crypto \<Rightarrow> runtime \<Rightarrow> query_clause list \<Rightarrow> vars \<Rightarrow> (string list \<times> vars) go" where
  "constructQueryStringAndAddVars C rt (QueryRequestClause (Some (c # cs)) os f p v g) queryvars =
     nest '' and '' (compile_list C rt (c # cs) queryvars)"
| "constructQueryStringAndAddVars C rt (QueryRequestClause None (Some (c # cs)) f p v g) queryvars =
     nest '' or '' (compile_list C rt (c # cs) queryvars)"
| "constructQueryStringAndAddVars C rt (QueryRequestClause (Some []) os f p v g) queryvars =
     compile_end C rt f p v g queryvars"
| "constructQueryStringAndAddVars C rt (QueryRequestClause None (Some []) f p v g) queryvars =
     compile_end C rt f p v g queryvars"
| "constructQueryStringAndAddVars C rt (QueryRequestClause None None f p v g) queryvars =
     compile_end C rt f p v g queryvars"
| "compile_list C rt [] queryvars = Inr ([], queryvars)"
| "compile_list C rt (c # cs) queryvars =
     go_bind (constructQueryStringAndAddVars C rt c queryvars) (\<lambda>r.
       go_bind (compile_list C rt cs (snd r)) (\<lambda>q. Inr (fst r # fst q, snd q)))"

section \<open>Checks\<close>

fun clause_names :: "string \<Rightarrow> query_clause \<Rightarrow> bool"
  and clauses_name :: "string \<Rightarrow> query_clause list \<Rightarrow> bool"
  and clauses_opt_name :: "string \<Rightarrow> query_clause list option \<Rightarrow> bool" where
  "clause_names field (QueryRequestClause as os f p v g) =
     (equal_fold f field \<or> clauses_opt_name field as \<or> clauses_opt_name field os)"
| "clauses_name field [] = False"
| "clauses_name field (c # cs) = (clause_names field c \<or> clauses_name field cs)"
| "clauses_opt_name field None = False"
| "clauses_opt_name field (Some cs) = clauses_name field cs"

definition clauseNamesField :: "query_clause option \<Rightarrow> string \<Rightarrow> bool" where
  "clauseNamesField clause field = (case clause of None \<Rightarrow> False | Some c \<Rightarrow> clause_names field c)"

definition queryNamesField :: "QueryRequest \<Rightarrow> string \<Rightarrow> bool" where
  "queryNamesField q field \<longleftrightarrow>
     clauseNamesField (Filters q) field \<or> clauseNamesField (RootQuery q) field \<or>
     (case OrderBy q of None \<Rightarrow> False | Some ob \<Rightarrow> equal_fold ob field)"

definition first_error :: "string option \<Rightarrow> string option \<Rightarrow> string option" where
  "first_error a b = (case a of None \<Rightarrow> b | Some e \<Rightarrow> Some e)"

definition check_geo_clause :: "string \<Rightarrow> string \<Rightarrow> string \<Rightarrow> QueryGeo option \<Rightarrow> string option" where
  "check_geo_clause f p v g =
     (case g of
        None \<Rightarrow> None
      | Some geo \<Rightarrow>
          if f \<noteq> [] \<or> p \<noteq> [] \<or> v \<noteq> [] then Some ''a geo filter clause must not also set field, op or val''
          else validateGeo geo)"

fun check_clause :: "query_clause \<Rightarrow> string option"
  and check_clauses :: "query_clause list \<Rightarrow> string option"
  and check_clauses_opt :: "query_clause list option \<Rightarrow> string option" where
  "check_clause (QueryRequestClause as os f p v g) =
     first_error (check_geo_clause f p v g) (first_error (check_clauses_opt as) (check_clauses_opt os))"
| "check_clauses [] = None"
| "check_clauses (c # cs) = first_error (check_clause c) (check_clauses cs)"
| "check_clauses_opt None = None"
| "check_clauses_opt (Some cs) = check_clauses cs"

definition validateGeoClauses :: "query_clause option \<Rightarrow> string option" where
  "validateGeoClauses clause = (case clause of None \<Rightarrow> None | Some c \<Rightarrow> check_clause c)"

definition checkPrivateFieldQueryable :: "QueryRequest \<Rightarrow> UserAuthData option \<Rightarrow> string option" where
  "checkPrivateFieldQueryable q uad =
     (case uad of
        None \<Rightarrow> None
      | Some u \<Rightarrow>
          if IsAdmin u then None
          else if queryNamesField q PRIVATE_FIELD
          then Some ''field 'p' is private and cannot be used in filters or order_by''
          else None)"

definition checkGeoFieldNotFiltered :: "QueryRequest \<Rightarrow> string option" where
  "checkGeoFieldNotFiltered q =
     (if queryNamesField q GEO_FIELD
      then Some (''field 'g' is a geo predicate: use a 'geo' block (on the request for a radius search, '' @
        ''or on a filter clause to combine proximity with other filters), '' @
        ''it cannot be used as a filter field or in order_by'')
      else None)"

definition checkQueryFields :: "QueryRequest \<Rightarrow> UserAuthData option \<Rightarrow> string option" where
  "checkQueryFields q uad =
     first_error (checkPrivateFieldQueryable q uad)
      (first_error (checkGeoFieldNotFiltered q)
        (if Similar q \<noteq> None \<and> Geo q \<noteq> None
         then Some '''similar' and 'geo' cannot be combined in one query''
         else first_error (validateGeoClauses (Filters q)) (validateGeoClauses (RootQuery q))))"

section \<open>The read rule in the query\<close>

definition dquote :: char where
  "dquote = CHR 0x22"

definition renderReadAuthzFilter :: "EdgeType \<Rightarrow> UserAuthData option \<Rightarrow> string list \<Rightarrow> string" where
  "renderReadAuthzFilter et uad allowedSgis =
     (case uad of
        None \<Rightarrow> []
      | Some u \<Rightarrow>
          if et \<noteq> NODENODE \<or> IsAdmin u then []
          else (let ownClause = ''uid_in(own, '' @ SanitiseUID (UadUid u) @ '')'';
                    sgiVals = map (\<lambda>s. dquote # s @ [dquote]) (filter rgxSgiChars allowedSgis)
                in if sgiVals = [] then ownClause
                   else ''('' @ ownClause @ '' OR '' @
                     ''(eq(sgi, ['' @ join_with '', '' sgiVals @ '']) AND eq(r, true))'' @ '')''))"

section \<open>QueryWithOptions\<close>

definition nl :: char where
  "nl = CHR 0x0A"

definition tabs :: "nat \<Rightarrow> string" where
  "tabs n = replicate n (CHR 0x09)"

text \<open>The root part of the query: its template, its variables and its fixed parameters.\<close>

definition root_function :: "string \<Rightarrow> string" where
  "root_function f =
     [nl] @ tabs 2 @ ''query q(__QVARS__) {'' @ [nl] @ tabs 3 @ ''qr(func: '' @ f @ ''__PAGEARGS__)'' @ [nl] @ tabs 2"

definition similar_root :: "QuerySimilarity \<Rightarrow> string + string" where
  "similar_root sim =
     (let vec = trim_space (Vector sim)
      in if \<not> rgxVectorLiteral vec then Inl ''invalid similarity query vector''
         else (let k = (if TopK sim = 0 then DEFAULT_SIMILAR_TOPK else TopK sim);
                   topK = (if MAX_SIMILAR_TOPK < k then MAX_SIMILAR_TOPK else k)
               in Inr (''similar_to(vec, '' @ dec_of_nat topK @ '', '' @ [dquote] @ vec @ [dquote] @ '')'')))"

definition uids_root :: "QueryRequest \<Rightarrow> EdgeType \<Rightarrow> string + (string \<times> vars \<times> string list)" where
  "uids_root q et =
     (let recurseDepth = (if MAX_QUERY_RECURSE_DEPTH < Depth q then MAX_QUERY_RECURSE_DEPTH else Depth q)
      in if length (RootIDs q) < 1 then Inl ''Root nodes list cannot be null or empty''
         else (let ids = ''['' @ join_with '','' (sanitiseListOfUids (RootIDs q)) @ '']''
               in if 0 < recurseDepth
                  then Inr (ReplaceAll
                         (''query q(__QVARS__) {'' @ [nl] @ tabs 4 @ ''var(func: uid($ids)) @recurse(depth: $rdepth) '' @ [nl] @
                          tabs 4 @ ''{'' @ [nl] @ tabs 4 @ ''  NID as uid'' @ [nl] @ tabs 4 @ ''  __EDGETYPE__'' @ [nl] @
                          tabs 4 @ ''}'' @ [nl] @ tabs 3 @ ''  '' @ [nl] @ tabs 4 @ ''qr(func: uid(NID)__PAGEARGS__)'')
                         ''__EDGETYPE__'' (getEdgePredicateName et),
                       [(''$ids'', ids), (''$rdepth'', dec_of_nat recurseDepth)],
                       [''$ids: string'', ''$rdepth: int''])
                  else Inr (''query q(__QVARS__) {'' @ [nl] @ tabs 4 @ ''qr(func: uid($ids)__PAGEARGS__)'',
                       [(''$ids'', ids)], [''$ids: string''])))"

definition query_root ::
    "crypto \<Rightarrow> runtime \<Rightarrow> QueryRequest \<Rightarrow> EdgeType \<Rightarrow> (string + (string \<times> vars \<times> string list)) go" where
  "query_root C rt q et =
     (case Similar q of
        Some sim \<Rightarrow> (case similar_root sim of
            Inl e \<Rightarrow> Inr (Inl e) | Inr f \<Rightarrow> Inr (Inr (root_function f, [], [])))
      | None \<Rightarrow> (case Geo q of
            Some g \<Rightarrow> go_bind (renderGeoRootFunc rt g) (\<lambda>r. case r of
              Inl e \<Rightarrow> Inr (Inl e) | Inr f \<Rightarrow> Inr (Inr (root_function f, [], [])))
          | None \<Rightarrow> (case RootQuery q of
                Some c \<Rightarrow> go_bind (constructQueryStringAndAddVars C rt c []) (\<lambda>r.
                  Inr (Inr (ReplaceAll (root_function '' __ROOTQUERY__'') ''__ROOTQUERY__'' (fst r), snd r, [])))
              | None \<Rightarrow> Inr (uids_root q et))))"

definition default_filter :: "runtime \<Rightarrow> query_clause" where
  "default_filter rt = QueryRequestClause None None ''m'' ''gt'' (epoch_string rt) None"

definition query_tail :: string where
  "query_tail = ''  @filter(__FILTERS__)'' @ [nl] @ tabs 3 @ ''{'' @ [nl] @
     tabs 4 @ ''uid own {uid} sgi r w o i d s __FIELDS__'' @ [nl] @ tabs 3 @ ''}'' @ [nl] @ tabs 2 @ ''}''"

definition with_read_filter :: "string \<Rightarrow> string \<Rightarrow> string" where
  "with_read_filter userFilter authz =
     (if authz \<noteq> [] then ''('' @ userFilter @ '') AND '' @ authz else userFilter)"

definition compile_query ::
    "crypto \<Rightarrow> runtime \<Rightarrow> QueryRequest \<Rightarrow> EdgeType \<Rightarrow> UserAuthData option \<Rightarrow> string list
     \<Rightarrow> (string + (string \<times> vars)) go" where
  "compile_query C rt q et uad allowedSgis =
     (case checkQueryFields q uad of
        Some e \<Rightarrow> Inr (Inl e)
      | None \<Rightarrow> go_bind (query_root C rt q et) (\<lambda>root.
          case root of
            Inl e \<Rightarrow> Inr (Inl e)
          | Inr (tmpl, vars0, fixedParams) \<Rightarrow>
              (let flt = (case Filters q of None \<Rightarrow> default_filter rt | Some c \<Rightarrow> c);
                   q1 = ReplaceAll (tmpl @ query_tail) ''__FIELDS__'' (renderFields (Select q))
               in go_bind (constructQueryStringAndAddVars C rt flt vars0) (\<lambda>r.
                 let q2 = ReplaceAll q1 ''__FILTERS__'' (with_read_filter (fst r) (renderReadAuthzFilter et uad allowedSgis));
                     q3 = ReplaceAll q2 ''__PAGEARGS__'' (renderPagination q);
                     q4 = ReplaceAll q3 ''__QVARS__'' (renderQueryParams rt fixedParams (snd r))
                 in Inr (Inr (q4, snd r))))))"

text \<open>
  The database runs a query and yields its decoded result list: \<open>None\<close> when the call
  fails, \<open>Some None\<close> when the answer does not decode.
\<close>

definition QueryWithOptions ::
    "crypto \<Rightarrow> runtime \<Rightarrow> time \<Rightarrow> (string \<Rightarrow> vars \<Rightarrow> graph_node option list option option) \<Rightarrow>
     QueryRequest \<Rightarrow> EdgeType \<Rightarrow> UserAuthData option \<Rightarrow> string list \<Rightarrow> CoggedResponse go" where
  "QueryWithOptions C rt tnow run q et uad allowedSgis =
     go_bind (compile_query C rt q et uad allowedSgis) (\<lambda>c.
       case c of
         Inl e \<Rightarrow> Inr (CoggedResponseFromError tnow e)
       | Inr (query, vs) \<Rightarrow>
           (case run query vs of
              None \<Rightarrow> Inr (CoggedResponseFromError tnow ''DB query failed'')
            | Some nodes \<Rightarrow> CoggedResponseFromNodes tnow nodes))"

section \<open>What a compiled filter says\<close>

text \<open>
  The abstract filter: its structure with operators, fields and variable names. The clause
  compiler prints it, and binds the variables of its leaves from left to right.
\<close>

datatype filter_ast =
    Conj "filter_ast list"
  | Disj "filter_ast list"
  | Near QueryGeo
  | Leaf string string string

definition leaf_pattern :: "string \<Rightarrow> string \<Rightarrow> bool" where
  "leaf_pattern op v \<longleftrightarrow> op = OP_TEXTSEARCH \<and> 2 < length (trim_space v)"

definition leaf_ast :: "crypto \<Rightarrow> runtime \<Rightarrow> string \<Rightarrow> string \<Rightarrow> string \<Rightarrow> filter_ast" where
  "leaf_ast C rt f p v =
     (let w = leaf_value rt (renderField f) v
      in Leaf (if leaf_pattern (renderOp p) w then ''regexp'' else renderOp p) (renderField f) (bind_name C w))"

definition leaf_binding :: "crypto \<Rightarrow> runtime \<Rightarrow> string \<Rightarrow> string \<Rightarrow> string \<Rightarrow> string \<times> string" where
  "leaf_binding C rt f p v =
     (let w = leaf_value rt (renderField f) v
      in (bind_name C w,
          if leaf_pattern (renderOp p) w then createRegex (trim_space w)
          else if renderOp p = OP_TEXTSEARCH then trim_space w else w))"

definition end_ast :: "crypto \<Rightarrow> runtime \<Rightarrow> string \<Rightarrow> string \<Rightarrow> string \<Rightarrow> QueryGeo option \<Rightarrow> filter_ast" where
  "end_ast C rt f p v g = (case g of Some geo \<Rightarrow> Near geo | None \<Rightarrow> leaf_ast C rt f p v)"

definition end_bindings :: "crypto \<Rightarrow> runtime \<Rightarrow> string \<Rightarrow> string \<Rightarrow> string \<Rightarrow> QueryGeo option \<Rightarrow> vars" where
  "end_bindings C rt f p v g = (case g of Some geo \<Rightarrow> [] | None \<Rightarrow> [leaf_binding C rt f p v])"

fun clause_ast :: "crypto \<Rightarrow> runtime \<Rightarrow> query_clause \<Rightarrow> filter_ast"
  and clause_asts :: "crypto \<Rightarrow> runtime \<Rightarrow> query_clause list \<Rightarrow> filter_ast list" where
  "clause_ast C rt (QueryRequestClause (Some (c # cs)) os f p v g) = Conj (clause_asts C rt (c # cs))"
| "clause_ast C rt (QueryRequestClause None (Some (c # cs)) f p v g) = Disj (clause_asts C rt (c # cs))"
| "clause_ast C rt (QueryRequestClause (Some []) os f p v g) = end_ast C rt f p v g"
| "clause_ast C rt (QueryRequestClause None (Some []) f p v g) = end_ast C rt f p v g"
| "clause_ast C rt (QueryRequestClause None None f p v g) = end_ast C rt f p v g"
| "clause_asts C rt [] = []"
| "clause_asts C rt (c # cs) = clause_ast C rt c # clause_asts C rt cs"

fun clause_bindings :: "crypto \<Rightarrow> runtime \<Rightarrow> query_clause \<Rightarrow> vars"
  and clauses_bindings :: "crypto \<Rightarrow> runtime \<Rightarrow> query_clause list \<Rightarrow> vars" where
  "clause_bindings C rt (QueryRequestClause (Some (c # cs)) os f p v g) = clauses_bindings C rt (c # cs)"
| "clause_bindings C rt (QueryRequestClause None (Some (c # cs)) f p v g) = clauses_bindings C rt (c # cs)"
| "clause_bindings C rt (QueryRequestClause (Some []) os f p v g) = end_bindings C rt f p v g"
| "clause_bindings C rt (QueryRequestClause None (Some []) f p v g) = end_bindings C rt f p v g"
| "clause_bindings C rt (QueryRequestClause None None f p v g) = end_bindings C rt f p v g"
| "clauses_bindings C rt [] = []"
| "clauses_bindings C rt (c # cs) = clause_bindings C rt c @ clauses_bindings C rt cs"

primrec print_ast :: "runtime \<Rightarrow> filter_ast \<Rightarrow> string go"
  and print_asts :: "runtime \<Rightarrow> filter_ast list \<Rightarrow> string list go" where
  "print_ast rt (Conj fs) = go_bind (print_asts rt fs) (\<lambda>ts. Inr (''('' @ join_with '' and '' ts @ '')''))"
| "print_ast rt (Disj fs) = go_bind (print_asts rt fs) (\<lambda>ts. Inr (''('' @ join_with '' or '' ts @ '')''))"
| "print_ast rt (Near g) = renderGeoFunc rt g"
| "print_ast rt (Leaf p f v) = Inr (p @ ''('' @ f @ '','' @ v @ '')'')"
| "print_asts rt [] = Inr []"
| "print_asts rt (f # fs) = go_bind (print_ast rt f) (\<lambda>t. go_bind (print_asts rt fs) (\<lambda>ts. Inr (t # ts)))"

abbreviation bind_all :: "vars \<Rightarrow> vars \<Rightarrow> vars" where
  "bind_all bs vs \<equiv> fold (\<lambda>b. AList.update (fst b) (snd b)) bs vs"

lemma compile_leaf_ast:
  "Inr (compile_leaf C rt f p v vs) = go_bind (print_ast rt (leaf_ast C rt f p v))
     (\<lambda>t. Inr (t, bind_all [leaf_binding C rt f p v] vs))"
  by (simp add: compile_leaf_def leaf_ast_def leaf_binding_def leaf_pattern_def Let_def)

lemma compile_end_ast:
  "compile_end C rt f p v g vs = go_bind (print_ast rt (end_ast C rt f p v g))
     (\<lambda>t. Inr (t, bind_all (end_bindings C rt f p v g) vs))"
  by (cases g) (simp_all add: compile_end_def end_ast_def end_bindings_def compile_leaf_ast)

lemma go_bind_assoc: "go_bind (go_bind m f) h = go_bind m (\<lambda>x. go_bind (f x) h)"
  by (cases m) simp_all

lemma compile_is_print:
  "constructQueryStringAndAddVars C rt c vs =
     go_bind (print_ast rt (clause_ast C rt c)) (\<lambda>t. Inr (t, bind_all (clause_bindings C rt c) vs))"
  "compile_list C rt cs vs =
     go_bind (print_asts rt (clause_asts C rt cs)) (\<lambda>ts. Inr (ts, bind_all (clauses_bindings C rt cs) vs))"
  by (induction c and cs arbitrary: vs and vs rule: clause_ast_clause_asts.induct)
    (simp_all add: nest_def go_bind_assoc compile_end_ast)

text \<open>
  Property C17. The clause compiler prints the structure of the clause and nothing else: its
  text is the printed abstract filter, in which a leaf shows an operator, a field and a
  variable name, while every client value goes to the variables, bound from left to right.
\<close>

theorem clause_compiler_refines:
  "constructQueryStringAndAddVars C rt c vs =
     go_bind (print_ast rt (clause_ast C rt c)) (\<lambda>t. Inr (t, bind_all (clause_bindings C rt c) vs))"
  by (rule compile_is_print(1))

section \<open>Fields a request can filter and order by\<close>

primrec ast_leaves :: "filter_ast \<Rightarrow> (string \<times> string) list"
  and asts_leaves :: "filter_ast list \<Rightarrow> (string \<times> string) list" where
  "ast_leaves (Conj fs) = asts_leaves fs"
| "ast_leaves (Disj fs) = asts_leaves fs"
| "ast_leaves (Near g) = []"
| "ast_leaves (Leaf p f v) = [(p, f)]"
| "asts_leaves [] = []"
| "asts_leaves (f # fs) = ast_leaves f @ asts_leaves fs"

definition queryable :: "string list \<Rightarrow> string \<times> string \<Rightarrow> bool" where
  "queryable forbidden pf \<longleftrightarrow>
     fst pf \<in> insert ''regexp'' (set allowedOps) \<and> snd pf \<in> insert [] (set allowedFields - set forbidden)"

definition hidden_name :: "string \<Rightarrow> bool" where
  "hidden_name x \<longleftrightarrow> x = PRIVATE_FIELD \<or> x = GEO_FIELD"

lemma renderField_not_named:
  assumes "\<not> equal_fold f x" and "hidden_name x"
  shows "renderField f \<in> insert [] (set allowedFields - {x})"
  using assms renderField_allowed [of f] renderField_single [of f]
  by (auto simp: hidden_name_def PRIVATE_FIELD_def GEO_FIELD_def)

lemma leaf_queryable:
  assumes "\<forall>x \<in> set forbidden. hidden_name x \<and> \<not> equal_fold f x" and "leaf_ast C rt f p v = Leaf op fld nm"
  shows "queryable forbidden (op, fld)"
proof -
  have "renderField f \<in> insert [] (set allowedFields - set forbidden)"
    using assms(1) renderField_not_named [of f] renderField_allowed [of f] by blast
  then show ?thesis
    using assms(2) renderOp_allowed [of p] by (auto simp: leaf_ast_def queryable_def Let_def split: if_splits)
qed

lemma end_queryable:
  "\<forall>x \<in> set forbidden. hidden_name x \<and> \<not> equal_fold f x \<Longrightarrow>
   list_all (queryable forbidden) (ast_leaves (end_ast C rt f p v g))"
  using leaf_queryable [of forbidden f C rt p v]
  by (cases g) (auto simp: end_ast_def leaf_ast_def Let_def)

lemma clause_queryable:
  "\<forall>x \<in> set forbidden. hidden_name x \<and> \<not> clause_names x c \<Longrightarrow>
   list_all (queryable forbidden) (ast_leaves (clause_ast C rt c))"
  "\<forall>x \<in> set forbidden. hidden_name x \<and> \<not> clauses_name x cs \<Longrightarrow>
   list_all (queryable forbidden) (asts_leaves (clause_asts C rt cs))"
  by (induction c and cs rule: clause_ast_clause_asts.induct) (auto intro!: end_queryable)

definition forbidden_fields :: "UserAuthData option \<Rightarrow> string list" where
  "forbidden_fields uad =
     (case uad of None \<Rightarrow> [''g''] | Some u \<Rightarrow> if IsAdmin u then [''g''] else [''p'', ''g''])"

lemma first_error_None: "first_error a b = None \<longleftrightarrow> a = None \<and> b = None"
  by (cases a) (simp_all add: first_error_def)

lemma checkQueryFields_None:
  assumes "checkQueryFields q uad = None" and "x \<in> set (forbidden_fields uad)"
  shows "hidden_name x \<and> \<not> queryNamesField q x"
  using assms
  by (auto simp: checkQueryFields_def first_error_None checkPrivateFieldQueryable_def checkGeoFieldNotFiltered_def
      forbidden_fields_def hidden_name_def PRIVATE_FIELD_def GEO_FIELD_def split: option.splits if_splits)

definition order_field :: "QueryRequest \<Rightarrow> string" where
  "order_field q = (case OrderBy q of None \<Rightarrow> [] | Some ob \<Rightarrow> renderField ob)"

text \<open>
  Property C16. Private data cannot be probed: when the checks of a query pass, every leaf of
  the compiled filter and of the compiled root query has an allowed operator on an allowed
  field, and neither such a leaf nor the order of the result is on the private field unless
  the caller is a system user (or an internal one), nor ever on the geographic field,
  whatever the case of the names in the request.
\<close>

theorem private_field_not_queryable:
  assumes "checkQueryFields q uad = None"
  shows "list_all (queryable (forbidden_fields uad)) (case Filters q of None \<Rightarrow> [] | Some c \<Rightarrow> ast_leaves (clause_ast C rt c))
    \<and> list_all (queryable (forbidden_fields uad)) (case RootQuery q of None \<Rightarrow> [] | Some c \<Rightarrow> ast_leaves (clause_ast C rt c))
    \<and> order_field q \<in> insert [] (set allowedFields - set (forbidden_fields uad))"
proof -
  note n = checkQueryFields_None [OF assms]
  have "list_all (queryable (forbidden_fields uad)) (ast_leaves (clause_ast C rt c))"
    if "Filters q = Some c \<or> RootQuery q = Some c" for c
    using that n by (intro clause_queryable(1)) (auto simp: queryNamesField_def clauseNamesField_def)
  moreover have "order_field q \<in> insert [] (set allowedFields - set (forbidden_fields uad))"
  proof (cases "OrderBy q")
    case (Some ob)
    then have "renderField ob \<in> insert [] (set allowedFields - {x})" if "x \<in> set (forbidden_fields uad)" for x
      using n [OF that] by (intro renderField_not_named) (auto simp: queryNamesField_def)
    then show ?thesis
      using Some renderField_allowed [of ob] by (auto simp: order_field_def)
  qed (simp add: order_field_def)
  ultimately show ?thesis by (simp split: option.split)
qed

definition example_query :: QueryRequest where
  "example_query = \<lparr>RootIDs = [''0x5''], RootQuery = None, Depth = 0,
     Filters = Some (QueryRequestClause None (Some
       [QueryRequestClause None None ''S1'' ''HAS'' ''abc'' None,
        QueryRequestClause None None [] [] [] (Some \<lparr>Point = [Finite 1, Finite 2], Distance = Finite 3\<rparr>)]) [] [] [] None),
     Select = [''s1''], First = Some 10, Offset = None, After = None, OrderBy = Some ''C'', OrderDesc = True,
     Similar = None, Geo = None\<rparr>"

lemma example_query_checked: "checkQueryFields example_query (Some example_uad) = None"
proof -
  have g: "validateGeo \<lparr>Point = [Finite 1, Finite 2], Distance = Finite 3\<rparr> = None"
    by (subst validateGeo_finite [where lon = 1 and lat = 2 and d = 3]) simp_all
  have l: "lower_ascii CHR ''C'' = CHR ''c''" "lower_ascii CHR ''S'' = CHR ''s''"
    by code_simp+
  show ?thesis
    by (simp add: checkQueryFields_def first_error_def checkPrivateFieldQueryable_def checkGeoFieldNotFiltered_def
        queryNamesField_def clauseNamesField_def example_query_def PRIVATE_FIELD_def GEO_FIELD_def equal_fold_def
        rune_chunks_ascii fold_rune_def validateGeoClauses_def check_geo_clause_def g l)
      (simp add: lower_ascii_def)
qed

theorem private_field_not_queryable_witness:
  "checkQueryFields example_query (Some example_uad) = None
   \<and> order_field example_query \<in> insert [] (set allowedFields - {''p'', ''g''})"
proof -
  have "forbidden_fields (Some example_uad) = [''p'', ''g'']"
    by (simp add: forbidden_fields_def IsAdmin_def example_uad_def SYS_ROLE_def)
  then show ?thesis
    using private_field_not_queryable [OF example_query_checked] example_query_checked by simp
qed

section \<open>Compilation does not panic\<close>

lemma checked_clause_prints:
  "check_clause c = None \<Longrightarrow> \<exists>t. print_ast rt (clause_ast C rt c) = Inr t"
  "check_clauses cs = None \<Longrightarrow> \<exists>ts. print_asts rt (clause_asts C rt cs) = Inr ts"
proof (induction c and cs rule: clause_ast_clause_asts.induct)
  have e: "\<exists>t. print_ast rt (end_ast C rt f p v g) = Inr t" if "check_geo_clause f p v g = None" for C rt f p v g
    using that valid_geo_renders [of _ rt]
    by (cases g) (auto simp: end_ast_def leaf_ast_def check_geo_clause_def Let_def split: if_splits)
  {
    case 3 then show ?case by (auto simp: first_error_None intro: e)
  next
    case 4 then show ?case by (auto simp: first_error_None intro: e)
  next
    case 5 then show ?case by (auto simp: first_error_None intro: e)
  }
qed (auto simp: first_error_None)

lemma checked_clause_compiles:
  assumes "checkQueryFields q uad = None" and "Filters q = Some c \<or> RootQuery q = Some c"
  shows "\<not> panics (constructQueryStringAndAddVars C rt c vs)"
proof -
  have "check_clause c = None"
    using assms by (auto simp: checkQueryFields_def first_error_None validateGeoClauses_def split: if_splits)
  from checked_clause_prints(1) [OF this, of rt C] show ?thesis by (auto simp: compile_is_print)
qed

lemma query_root_total:
  assumes "checkQueryFields q uad = None"
  shows "\<not> panics (query_root C rt q et)"
proof -
  have "\<not> panics (constructQueryStringAndAddVars C rt c [])" if "RootQuery q = Some c" for c
    using checked_clause_compiles [OF assms] that by blast
  then show ?thesis
    using renderGeoRootFunc_total [of rt]
    by (auto simp: query_root_def go_bind_eq_Inl_iff split: option.splits sum.splits)
qed

text \<open>
  Compiling a query never panics: whatever the request, the caller and the
  database of grants, every geographic value that is rendered has been validated before, so
  the unchecked indexing of its point is in range. The only panic of a query is a null
  entry in the answer of the database.
\<close>

lemma compile_query_never_panics:
  "\<not> panics (compile_query C rt q et uad sgis)
   \<and> (panics (QueryWithOptions C rt tnow run q et uad sgis) \<longleftrightarrow>
        (\<exists>text vs ns. compile_query C rt q et uad sgis = Inr (Inr (text, vs)) \<and> run text vs = Some (Some ns) \<and> None \<in> set ns))"
proof
  show np: "\<not> panics (compile_query C rt q et uad sgis)"
  proof (cases "checkQueryFields q uad")
    case None
    have d: "\<not> panics (constructQueryStringAndAddVars C rt (default_filter rt) vs)" for vs
      by (simp add: default_filter_def compile_end_def)
    have f: "\<not> panics (constructQueryStringAndAddVars C rt (case Filters q of None \<Rightarrow> default_filter rt | Some c \<Rightarrow> c) vs)" for vs
      using checked_clause_compiles [OF None] d by (auto split: option.split)
    show ?thesis
      using query_root_total [OF None, of C rt et] f
      by (auto simp: compile_query_def None go_bind_eq_Inl_iff Let_def split: sum.splits)
  qed (simp add: compile_query_def)
  have m: "panics (go_map deref ns) \<longleftrightarrow> None \<in> set ns" for ns :: "graph_node option list"
  proof (induction ns)
    case (Cons n ns)
    then show ?case by (cases n) (auto simp: go_bind_eq_Inl_iff)
  qed simp
  obtain c where "compile_query C rt q et uad sgis = Inr c" using np by (cases "compile_query C rt q et uad sgis") auto
  then show "panics (QueryWithOptions C rt tnow run q et uad sgis) \<longleftrightarrow>
        (\<exists>text vs ns. compile_query C rt q et uad sgis = Inr (Inr (text, vs)) \<and> run text vs = Some (Some ns) \<and> None \<in> set ns)"
    by (cases c)
      (auto simp: QueryWithOptions_def CoggedResponseFromNodes_def go_bind_eq_Inl_iff m [symmetric] split: option.split prod.split)
qed

section \<open>The pushed read rule is the output rule\<close>

definition own_clause :: "string \<Rightarrow> string" where
  "own_clause u = ''uid_in(own, '' @ u @ '')''"

definition group_clause :: "string list \<Rightarrow> string" where
  "group_clause gs = ''eq(sgi, ['' @ join_with '', '' (map (\<lambda>s. dquote # s @ [dquote]) gs) @ ''])''"

definition read_clause :: string where
  "read_clause = ''eq(r, true)''"

definition owner_is :: "string \<Rightarrow> graph_node \<Rightarrow> bool" where
  "owner_is u node = (case Owner node of None \<Rightarrow> False | Some ow \<Rightarrow> UserUid ow = u)"

text \<open>
  The evaluation of filters belongs to the database and is an argument: \<open>holds f n\<close> says that
  the stored node \<open>n\<close> passes the filter text \<open>f\<close>. What is assumed of it is what the
  documentation of the query language says of the clauses that the program writes:
  \<open>uid_in(own, u)\<close> asks whether the owner edge leads to \<open>u\<close>, \<open>eq\<close> with a list whether the
  value is in the list, \<open>eq(r, true)\<close> whether the bit is stored as true, and \<open>AND\<close> and \<open>OR\<close>
  in parentheses combine two clauses. Stored nodes have canonical uids.
\<close>

definition canonical_owner :: "graph_node \<Rightarrow> bool" where
  "canonical_owner n \<longleftrightarrow> (case Owner n of None \<Rightarrow> True | Some ow \<Rightarrow> SanitiseUID (UserUid ow) = UserUid ow)"

definition documented_clauses :: "(string \<Rightarrow> graph_node \<Rightarrow> bool) \<Rightarrow> bool" where
  "documented_clauses holds \<longleftrightarrow>
     (\<forall>u n. rgxUid u \<longrightarrow> canonical_owner n \<longrightarrow> holds (own_clause u) n = owner_is u n)
   \<and> (\<forall>gs n. gs \<noteq> [] \<longrightarrow> list_all rgxSgiChars gs \<longrightarrow> holds (group_clause gs) n = (\<exists>g \<in> set gs. Sgi (nattrs n) = Some g))
   \<and> (\<forall>n. holds read_clause n = (PermRead (nattrs n) = Some True))"

definition documented_connectives :: "(string \<Rightarrow> graph_node \<Rightarrow> bool) \<Rightarrow> bool" where
  "documented_connectives holds \<longleftrightarrow>
     (\<forall>gs n. gs \<noteq> [] \<longrightarrow> list_all rgxSgiChars gs \<longrightarrow>
        holds (''('' @ group_clause gs @ '' AND '' @ read_clause @ '')'') n = (holds (group_clause gs) n \<and> holds read_clause n))
   \<and> (\<forall>u gs n. rgxUid u \<longrightarrow> gs \<noteq> [] \<longrightarrow> list_all rgxSgiChars gs \<longrightarrow>
        holds (''('' @ own_clause u @ '' OR '' @ (''('' @ group_clause gs @ '' AND '' @ read_clause @ '')'') @ '')'') n
          = (holds (own_clause u) n \<or> holds (''('' @ group_clause gs @ '' AND '' @ read_clause @ '')'') n))"

lemma rendered_clauses:
  "renderReadAuthzFilter NODENODE (Some uad) sgis =
     (let u = SanitiseUID (UadUid uad); gs = filter rgxSgiChars sgis in
      if IsAdmin uad then []
      else if gs = [] then own_clause u
      else ''('' @ own_clause u @ '' OR '' @ (''('' @ group_clause gs @ '' AND '' @ read_clause @ '')'') @ '')'')"
  by (simp add: renderReadAuthzFilter_def own_clause_def group_clause_def read_clause_def Let_def)


text \<open>An evaluation that reads the uid and the groups from the text of the clause.\<close>

definition clause_uid :: "string \<Rightarrow> string" where
  "clause_uid t = takeWhile (\<lambda>c. c \<noteq> CHR '')'') (drop 12 t)"

definition clause_groups :: "string \<Rightarrow> string list" where
  "clause_groups t = split_on CHR '','' (filter (\<lambda>c. c \<noteq> dquote \<and> c \<noteq> CHR '' '')
     (takeWhile (\<lambda>c. c \<noteq> CHR '']'') (tl (dropWhile (\<lambda>c. c \<noteq> CHR ''['') t))))"

definition toy_holds :: "string \<Rightarrow> graph_node \<Rightarrow> bool" where
  "toy_holds t n =
     (let grp = (case Sgi (nattrs n) of None \<Rightarrow> False | Some g \<Rightarrow> g \<in> set (clause_groups t)); rd = (PermRead (nattrs n) = Some True)
      in if has_prefix t ''uid_in('' then owner_is (clause_uid t) n
         else if has_prefix t ''(uid_in('' then owner_is (clause_uid (tl t)) n \<or> grp \<and> rd
         else if has_prefix t ''(eq'' then grp \<and> rd
         else if has_prefix t ''eq(s'' then grp else rd)"

lemma rgxUid_chars: "rgxUid u \<Longrightarrow> c \<in> set u \<Longrightarrow> c \<notin> {CHR '')'', CHR ''[''}"
  by (cases u; cases "tl u") (auto simp: rgxUid_def list_all_iff hex_char_def)

lemma clause_uid_own: "rgxUid u \<Longrightarrow> clause_uid (own_clause u @ rest) = u"
proof -
  assume "rgxUid u"
  then have "takeWhile (\<lambda>c. c \<noteq> CHR '')'') (u @ CHR '')'' # rest) = u"
    using rgxUid_chars by (subst takeWhile_append2) auto
  then show ?thesis by (simp add: clause_uid_def own_clause_def)
qed

lemma rgxSgiChars_chars: "rgxSgiChars g \<Longrightarrow> c \<in> set g \<Longrightarrow> c \<notin> {dquote, CHR '' '', CHR '','', CHR '']''}"
  by (auto simp: rgxSgiChars_def list_all_iff alnum_char_def dquote_def)

lemma filter_quoted:
  "list_all rgxSgiChars gs \<Longrightarrow>
   filter (\<lambda>c. c \<noteq> dquote \<and> c \<noteq> CHR '' '') (join_with '', '' (map (\<lambda>s. dquote # s @ [dquote]) gs)) = join_with '','' gs
   \<and> CHR '']'' \<notin> set (join_with '', '' (map (\<lambda>s. dquote # s @ [dquote]) gs))"
proof (induction gs)
  case (Cons g gs)
  have g: "filter (\<lambda>c. c \<noteq> dquote \<and> c \<noteq> CHR '' '') g = g" "CHR '']'' \<notin> set g"
    using rgxSgiChars_chars [of g] Cons.prems by (auto simp: filter_id_conv)
  show ?case
  proof (cases gs)
    case Nil
    with g show ?thesis by (simp add: dquote_def)
  next
    case (Cons h hs)
    with Cons.IH Cons.prems g show ?thesis by (simp add: dquote_def)
  qed
qed simp

lemma clause_groups_text:
  assumes "gs \<noteq> []" and "list_all rgxSgiChars gs" and "CHR ''['' \<notin> set pre"
  shows "clause_groups (pre @ group_clause gs @ rest) = gs"
proof -
  let ?j = "join_with '', '' (map (\<lambda>s. dquote # s @ [dquote]) gs)"
  have "dropWhile (\<lambda>c. c \<noteq> CHR ''['') (pre @ group_clause gs @ rest) = CHR ''['' # ?j @ '']'' @ '')'' @ rest"
    using assms(3) by (subst dropWhile_append2) (auto simp: group_clause_def)
  moreover have "takeWhile (\<lambda>c. c \<noteq> CHR '']'') (?j @ CHR '']'' # x) = ?j" for x
    using filter_quoted [OF assms(2)] by (subst takeWhile_append2) auto
  moreover have "split_on CHR '','' (join_with '','' gs) = gs"
    using assms rgxSgiChars_chars by (intro split_on_join) (auto simp: list_all_iff)
  ultimately show ?thesis using filter_quoted [OF assms(2)] by (simp add: clause_groups_def)
qed

lemma toy_documented: "documented_clauses toy_holds" "documented_connectives toy_holds"
proof -
  have own: "toy_holds (own_clause u) n = owner_is u n" if "rgxUid u" for u n
    using clause_uid_own [OF that, of "[]"] by (simp add: toy_holds_def Let_def own_clause_def)
  have grp: "toy_holds (group_clause gs) n = (\<exists>g \<in> set gs. Sgi (nattrs n) = Some g)"
    if "gs \<noteq> []" "list_all rgxSgiChars gs" for gs n
    using clause_groups_text [OF that, of "[]" "[]"]
    by (simp add: toy_holds_def Let_def group_clause_def split: option.split)
  have rd: "toy_holds read_clause n = (PermRead (nattrs n) = Some True)" for n
    by (simp add: toy_holds_def Let_def read_clause_def)
  show "documented_clauses toy_holds" using own grp rd by (auto simp: documented_clauses_def)
  let ?and = "\<lambda>gs. ''('' @ group_clause gs @ '' AND '' @ read_clause @ '')''"
  have conj: "toy_holds (?and gs) n = (toy_holds (group_clause gs) n \<and> toy_holds read_clause n)"
    if "gs \<noteq> []" "list_all rgxSgiChars gs" for gs n
    unfolding grp [OF that] rd using clause_groups_text [OF that, of "''(''" "'' AND '' @ read_clause @ '')''"]
    by (simp add: toy_holds_def Let_def group_clause_def split: option.split)
  have disj: "toy_holds (''('' @ own_clause u @ '' OR '' @ ?and gs @ '')'') n = (toy_holds (own_clause u) n \<or> toy_holds (?and gs) n)"
    if "rgxUid u" "gs \<noteq> []" "list_all rgxSgiChars gs" for u gs n
  proof -
    have "CHR ''['' \<notin> set (''('' @ own_clause u @ '' OR ('')"
      using rgxUid_chars [OF that(1)] by (auto simp: own_clause_def)
    from clause_groups_text [OF that(2,3) this, of "'' AND '' @ read_clause @ ''))''"]
      clause_uid_own [OF that(1), of "'' OR '' @ ?and gs @ '')''"]
    show ?thesis unfolding conj [OF that(2,3)] grp [OF that(2,3)] rd own [OF that(1)]
      by (simp add: toy_holds_def Let_def own_clause_def split: option.split)
  qed
  show "documented_connectives toy_holds" using conj disj unfolding documented_connectives_def by blast
qed


end
