(* ===== verification/World.thy ===== *)
theory World
  imports Query
begin

text \<open>
  The state that request handlers share, and actions on it. The world holds the database and
  the session manager. An action yields a new world and a result or a panic, so that what
  was done before a panic stays done. The database is a parameter: the record \<open>dgraph\<close>
  answers queries with decoded lists and applies mutations, where a mutation carries the
  Go value that is marshalled to JSON.
\<close>

datatype payload =
    NodeList "graph_node option list"
  | UserList "graph_user option list"
  | UserObject graph_user

record 'd world =
  database :: 'd
  sessions :: usm

text \<open>
  \<open>run_nodes\<close> and \<open>run_users\<close> yield \<open>None\<close> when the call fails and \<open>Some None\<close> when its answer
  does not decode; \<open>apply_mutation\<close> yields the uids given to blank nodes, or \<open>None\<close> when it
  fails.
\<close>

record 'd dgraph =
  run_nodes :: "'d \<Rightarrow> string \<Rightarrow> vars \<Rightarrow> graph_node option list option option"
  run_users :: "'d \<Rightarrow> string \<Rightarrow> vars \<Rightarrow> graph_user option list option option"
  apply_mutation :: "'d \<Rightarrow> UpdateType \<Rightarrow> payload \<Rightarrow> 'd \<times> vars option"

type_synonym ('d, 'a) act = "'d world \<Rightarrow> 'd world \<times> 'a go"

definition act_return :: "'a \<Rightarrow> ('d, 'a) act" where
  "act_return x w = (w, Inr x)"

definition act_go :: "'a go \<Rightarrow> ('d, 'a) act" where
  "act_go m w = (w, m)"

definition act_bind :: "('d, 'a) act \<Rightarrow> ('a \<Rightarrow> ('d, 'b) act) \<Rightarrow> ('d, 'b) act" where
  "act_bind m f w = (case snd (m w) of Inl p \<Rightarrow> (fst (m w), Inl p) | Inr x \<Rightarrow> f x (fst (m w)))"

definition Mutate :: "'d dgraph \<Rightarrow> payload \<Rightarrow> UpdateType \<Rightarrow> ('d, vars option) act" where
  "Mutate D i ut w =
     (let r = apply_mutation D (database w) ut i in (w\<lparr>database := fst r\<rparr>, Inr (snd r)))"

definition update_sessions :: "(usm \<Rightarrow> usm) \<Rightarrow> ('d, unit) act" where
  "update_sessions f w = (w\<lparr>sessions := f (sessions w)\<rparr>, Inr ())"

definition read_world :: "('d world \<Rightarrow> 'a) \<Rightarrow> ('d, 'a) act" where
  "read_world f w = (w, Inr (f w))"

primrec act_each :: "('a \<Rightarrow> ('d, unit) act) \<Rightarrow> 'a list \<Rightarrow> ('d, unit) act" where
  "act_each f [] = act_return ()"
| "act_each f (x # xs) = act_bind (f x) (\<lambda>_. act_each f xs)"

named_theorems act_simps \<open>evaluation of actions\<close>

lemma act_return_apply [act_simps]: "act_return x w = (w, Inr x)"
  by (simp add: act_return_def)

lemma act_go_apply [act_simps]: "act_go m w = (w, m)"
  by (simp add: act_go_def)

lemma act_bind_return [act_simps]: "act_bind (act_return x) f = f x"
  by (simp add: act_bind_def act_return_def fun_eq_iff)

lemma act_bind_go_Inr [act_simps]: "act_bind (act_go (Inr x)) f = f x"
  by (simp add: act_bind_def act_go_def fun_eq_iff)

lemma act_bind_go_Inl [act_simps]: "act_bind (act_go (Inl p)) f = act_go (Inl p)"
  by (simp add: act_bind_def act_go_def fun_eq_iff)

lemma act_bind_read [act_simps]: "act_bind (read_world g) f w = f (g w) w"
  by (simp add: act_bind_def read_world_def)

lemma act_bind_update [act_simps]:
  "act_bind (update_sessions g) f w = f () (w\<lparr>sessions := g (sessions w)\<rparr>)"
  by (simp add: act_bind_def update_sessions_def)

lemma act_bind_Mutate [act_simps]:
  "act_bind (Mutate D i ut) f w =
     f (snd (apply_mutation D (database w) ut i)) (w\<lparr>database := fst (apply_mutation D (database w) ut i)\<rparr>)"
  by (simp add: act_bind_def Mutate_def Let_def)

lemma act_bind_assoc [act_simps]: "act_bind (act_bind m f) g = act_bind m (\<lambda>x. act_bind (f x) g)"
  by (auto simp: act_bind_def fun_eq_iff split: sum.split)

lemma act_bind_if [act_simps]: "act_bind (if b then m else n) f = (if b then act_bind m f else act_bind n f)"
  by simp

lemma act_bind_Inr: "m w = (w', Inr x) \<Longrightarrow> act_bind m f w = f x w'"
  by (simp add: act_bind_def)

lemma act_bind_Inl: "m w = (w', Inl p) \<Longrightarrow> act_bind m f w = (w', Inl p)"
  by (simp add: act_bind_def)

end
