(* ===== verification/Upsert.thy ===== *)
theory Upsert
  imports World
begin

text \<open>
  The writing operations and the user queries of \<open>services/db.go\<close>. A client names new nodes
  with temporary uids; they are replaced by blank nodes keyed by a digest before the
  mutation, and mapped back in the response. Errors of the second return value, which
  handlers ignore, are the boolean beside the response.
\<close>

section \<open>Uids\<close>

definition ValidateUid :: "string \<Rightarrow> bool" where
  "ValidateUid uid \<longleftrightarrow> rgxUid (to_lower uid)"

definition getUidOrSafeTempUid :: "crypto \<Rightarrow> string \<Rightarrow> string" where
  "getUidOrSafeTempUid C uid =
     (let id = trim_space uid
      in if \<not> rgxUid (to_lower id) then ''_:'' @ MD5SumHex C uid else id)"

text \<open>The safe uid, and the map from blank keys to the names the client gave.\<close>

definition makeSafeUid :: "crypto \<Rightarrow> string \<Rightarrow> vars \<Rightarrow> string \<times> vars" where
  "makeSafeUid C nUid keys =
     (let safe = getUidOrSafeTempUid C nUid
      in (safe, if has_prefix safe ''_:'' then AList.update (drop 2 safe) nUid keys else keys))"

primrec makeSafeUids :: "crypto \<Rightarrow> graph_node list \<Rightarrow> vars \<Rightarrow> graph_node list \<times> vars" where
  "makeSafeUids C [] keys = ([], keys)"
| "makeSafeUids C (n # ns) keys =
     (let r = makeSafeUid C (NodeUid n) keys; rs = makeSafeUids C ns (snd r)
      in (SetUid (fst r) n # fst rs, snd rs))"

definition SetUserUid :: "string \<Rightarrow> graph_user \<Rightarrow> graph_user" where
  "SetUserUid uid u = GraphUser ((uattrs u)\<lparr>Uid := uid\<rparr>) (Nodes u) (Shared u)"

primrec makeSafeUserUids :: "crypto \<Rightarrow> graph_user list \<Rightarrow> vars \<Rightarrow> graph_user list \<times> vars" where
  "makeSafeUserUids C [] keys = ([], keys)"
| "makeSafeUserUids C (u # us) keys =
     (let r = makeSafeUid C (UserUid u) keys; rs = makeSafeUserUids C us (snd r)
      in (SetUserUid (fst r) u # fst rs, snd rs))"

section \<open>Checking a node list\<close>

datatype upsert_error = NullEntry | DuplicateUid string | NullEdge | UndefinedUid string

definition upsert_error_text :: "(string \<Rightarrow> string) \<Rightarrow> upsert_error \<Rightarrow> string" where
  "upsert_error_text quote e =
     (case e of
        NullEntry \<Rightarrow> ''nodes list contains a null entry''
      | DuplicateUid u \<Rightarrow> ''duplicate temporary uid '' @ quote u @ '': each new node needs its own placeholder''
      | NullEdge \<Rightarrow> ''out-edge list contains a null entry''
      | UndefinedUid u \<Rightarrow> ''out-edge references undefined temporary uid '' @ quote u @
          '': a temporary uid used in an edge must also appear as a node in the same request'')"

definition temp_uid :: "string \<Rightarrow> bool" where
  "temp_uid uid \<longleftrightarrow> \<not> ValidateUid (trim_space uid)"

primrec check_entries :: "graph_node option list \<Rightarrow> string list \<Rightarrow> upsert_error + string list" where
  "check_entries [] defined = Inr defined"
| "check_entries (np # ns) defined =
     (case np of
        None \<Rightarrow> Inl NullEntry
      | Some n \<Rightarrow>
          if temp_uid (NodeUid n) \<and> NodeUid n \<in> set defined then Inl (DuplicateUid (NodeUid n))
          else check_entries ns (NodeUid n # defined))"

primrec check_out_edges :: "graph_node option list \<Rightarrow> string list \<Rightarrow> upsert_error option" where
  "check_out_edges [] defined = None"
| "check_out_edges (ep # es) defined =
     (case ep of
        None \<Rightarrow> Some NullEdge
      | Some e \<Rightarrow>
          if temp_uid (NodeUid e) \<and> NodeUid e \<notin> set defined then Some (UndefinedUid (NodeUid e))
          else check_out_edges es defined)"

definition edges_of :: "graph_node \<Rightarrow> graph_node option list" where
  "edges_of n = (case OutEdges n of None \<Rightarrow> [] | Some es \<Rightarrow> es)"

definition checkUpsertNodeList :: "graph_node option list option \<Rightarrow> upsert_error option" where
  "checkUpsertNodeList nodeList =
     (case nodeList of
        None \<Rightarrow> None
      | Some ns \<Rightarrow>
          (case check_entries ns [] of
             Inl e \<Rightarrow> Some e
           | Inr defined \<Rightarrow> check_out_edges (concat (map (edges_of \<circ> the) ns)) defined))"

section \<open>UpsertNodes\<close>

definition safe_edge :: "crypto \<Rightarrow> graph_node \<Rightarrow> graph_node" where
  "safe_edge C e =
     GraphNode ((nattrs e)\<lparr>Uid := getUidOrSafeTempUid C (NodeUid e), AuthzData := []\<rparr>) (OutEdges e) (Owner e)"

definition edge_key :: "crypto \<Rightarrow> graph_node \<Rightarrow> vars \<Rightarrow> vars" where
  "edge_key C e keys =
     (let safe = getUidOrSafeTempUid C (NodeUid e)
      in if has_prefix safe ''_:'' \<and> map_of keys (drop 2 safe) = None
         then AList.update (drop 2 safe) (NodeUid e) keys else keys)"

definition stamp_node :: "time \<Rightarrow> node_attrs \<Rightarrow> node_attrs" where
  "stamp_node tnow a =
     (let b = a\<lparr>TimeModified := Some tnow, AuthzData := []\<rparr>
      in if has_prefix (Uid a) ''_:'' then b\<lparr>TimeCreated := Some tnow, DgraphType := [''N'']\<rparr> else b)"

definition prepare_node :: "crypto \<Rightarrow> time \<Rightarrow> graph_node \<Rightarrow> graph_node go" where
  "prepare_node C tnow n =
     (case OutEdges n of
        None \<Rightarrow> Inr (GraphNode (stamp_node tnow (nattrs n)) None (Owner n))
      | Some es \<Rightarrow> go_bind (go_map deref es) (\<lambda>ds.
          Inr (GraphNode (stamp_node tnow (nattrs n)) (Some (map (Some \<circ> safe_edge C) ds)) (Owner n))))"

primrec prepare_nodes :: "crypto \<Rightarrow> (nat \<Rightarrow> time) \<Rightarrow> nat \<Rightarrow> graph_node list \<Rightarrow> graph_node list go" where
  "prepare_nodes C now i [] = Inr []"
| "prepare_nodes C now i (n # ns) =
     go_bind (prepare_node C (now i) n) (\<lambda>m. go_bind (prepare_nodes C now (Suc i) ns) (\<lambda>ms. Inr (m # ms)))"

definition edge_keys :: "crypto \<Rightarrow> graph_node list \<Rightarrow> vars \<Rightarrow> vars" where
  "edge_keys C ns keys = fold (edge_key C) (concat (map (map the \<circ> edges_of) ns)) keys"

definition created_entry ::
    "vars \<Rightarrow> (string \<times> graph_node) list \<Rightarrow> string \<times> string \<Rightarrow> (string \<times> graph_node option) list
     \<Rightarrow> (string \<times> graph_node option) list" where
  "created_entry keys originals kv acc =
     (let original = (case map_of keys (fst kv) of None \<Rightarrow> [] | Some u \<Rightarrow> u)
      in case map_of originals original of
           None \<Rightarrow> acc
         | Some n \<Rightarrow>
             AList.update original (map_option (SetUid (snd kv)) (NewGraphNodeJustOwnerAndPerms (Some n))) acc)"

definition created_nodes ::
    "vars \<Rightarrow> (string \<times> graph_node) list \<Rightarrow> vars \<Rightarrow> (string \<times> graph_node option) list" where
  "created_nodes keys originals uids = fold (created_entry keys originals) uids []"

definition original_nodes :: "graph_node list \<Rightarrow> (string \<times> graph_node) list" where
  "original_nodes ns = fold (\<lambda>n. AList.update (NodeUid n) n) ns []"

definition UpsertNodes ::
    "crypto \<Rightarrow> (string \<Rightarrow> string) \<Rightarrow> (nat \<Rightarrow> time) \<Rightarrow> time \<Rightarrow> 'd dgraph \<Rightarrow> graph_node option list option
     \<Rightarrow> ('d, CoggedResponse \<times> bool) act" where
  "UpsertNodes C quote now tnow D nodeList =
     (case checkUpsertNodeList nodeList of
        Some e \<Rightarrow> act_return (CoggedResponseFromError tnow (upsert_error_text quote e), True)
      | None \<Rightarrow>
          act_bind (act_go (go_bind (deref nodeList) (go_map deref))) (\<lambda>ns.
            let safe = makeSafeUids C ns [] in
            act_bind (act_go (prepare_nodes C now 0 (fst safe))) (\<lambda>ms.
              act_bind (Mutate D (NodeList (map Some ms)) ADD) (\<lambda>mr.
                case mr of
                  None \<Rightarrow> act_return (CoggedResponseFromError tnow ''DB operation failed'', True)
                | Some uids \<Rightarrow>
                    act_return (CoggedResponseFromNodesMap tnow
                      (created_nodes (edge_keys C (fst safe) (snd safe)) (original_nodes ns) uids), False)))))"

section \<open>Edges\<close>

definition present_list :: "string list option \<Rightarrow> bool" where
  "present_list xs \<longleftrightarrow> (case xs of None \<Rightarrow> False | Some l \<Rightarrow> 0 < length l)"

definition touched_node :: "string \<Rightarrow> time option \<Rightarrow> graph_node" where
  "touched_node uid t = GraphNode ((node_attrs_of_uid uid)\<lparr>TimeModified := t\<rparr>) None None"

definition linked_node :: "string \<Rightarrow> time option \<Rightarrow> graph_node list \<Rightarrow> graph_node" where
  "linked_node uid t cs = GraphNode ((node_attrs_of_uid uid)\<lparr>TimeModified := t\<rparr>) (Some (map Some cs)) None"

definition mod_time :: "bool \<Rightarrow> time \<Rightarrow> time option" where
  "mod_time upd t = (if upd then Some t else None)"

definition AddIncomingEdges ::
    "string list option \<Rightarrow> string list option \<Rightarrow> bool \<Rightarrow> time \<Rightarrow> graph_node list \<Rightarrow> graph_node list go" where
  "AddIncomingEdges nodeUids incomingUids updateLastModTime tnow mutateList =
     (if present_list incomingUids then
        go_bind (deref nodeUids) (\<lambda>nodes.
          let t = mod_time updateLastModTime tnow; cList = map (\<lambda>u. touched_node u t) nodes
          in Inr (mutateList @ map (\<lambda>p. linked_node p t cList) (the incomingUids)))
      else Inr mutateList)"

definition AddOutgoingEdges ::
    "string list option \<Rightarrow> string list option \<Rightarrow> bool \<Rightarrow> time \<Rightarrow> graph_node list \<Rightarrow> graph_node list go" where
  "AddOutgoingEdges nodeUids outgoingUids updateLastModTime tnow mutateList =
     (if present_list outgoingUids then
        go_bind (deref nodeUids) (\<lambda>nodes.
          let t = mod_time updateLastModTime tnow; cList = map (\<lambda>u. touched_node u t) (the outgoingUids)
          in Inr (mutateList @ map (\<lambda>n. linked_node n t cList) nodes))
      else Inr mutateList)"

definition touch_all :: "(nat \<Rightarrow> time) \<Rightarrow> string list \<Rightarrow> graph_node list" where
  "touch_all now uids = map (\<lambda>i. touched_node (uids ! i) (Some (now i))) [0..<length uids]"

definition db_failed :: "time \<Rightarrow> CoggedResponse \<times> bool" where
  "db_failed tnow = (CoggedResponseFromError tnow ''DB operation failed'', True)"

definition named_uids :: "string list option \<Rightarrow> string list" where
  "named_uids xs = (if present_list xs then the xs else [])"

definition UpdateEdges ::
    "(nat \<Rightarrow> time) \<Rightarrow> time \<Rightarrow> 'd dgraph \<Rightarrow> UpdateType \<Rightarrow> string list option \<Rightarrow> string list option \<Rightarrow> string list option
     \<Rightarrow> ('d, CoggedResponse \<times> bool) act" where
  "UpdateEdges now tnow D utype nodeUids srcUids destUids =
     act_bind (act_go (go_bind (AddIncomingEdges nodeUids srcUids True (now 0) [])
                        (AddOutgoingEdges nodeUids destUids True (now 1)))) (\<lambda>updateList.
       act_bind (Mutate D (NodeList (map Some updateList)) utype) (\<lambda>mr.
         if mr = None then act_return (db_failed tnow)
         else if utype = DELETE then
           act_bind (act_go (deref nodeUids)) (\<lambda>nodes.
             act_bind (Mutate D (NodeList (map Some
                 (touch_all (\<lambda>i. now (i + 2)) (nodes @ named_uids srcUids @ named_uids destUids)))) ADD) (\<lambda>mr2.
               if mr2 = None then act_return (db_failed tnow)
               else act_return (empty_response tnow, False)))
         else act_return (empty_response tnow, False)))"

definition AddNodeEdges where
  "AddNodeEdges now tnow D = UpdateEdges now tnow D ADD"

definition RemoveNodeEdges where
  "RemoveNodeEdges now tnow D = UpdateEdges now tnow D DELETE"

end
