(* ===== verification/UserDb.thy ===== *)
theory UserDb
  imports Upsert
begin

text \<open>
  The user queries and user mutations of \<open>services/db.go\<close>. A query answer that does not
  decode is a nil pointer, and taking its length panics. The second component of a result
  says whether an error value was returned beside the response.
\<close>

definition text_line :: "nat \<Rightarrow> string \<Rightarrow> string" where
  "text_line n s = nl # tabs n @ s"

definition user_result :: "graph_user option \<Rightarrow> UserResponse" where
  "user_result u = (case u of None \<Rightarrow> \<lparr>RUser = None, UError = []\<rparr> | Some x \<Rightarrow> UserResponseFromUser x)"

definition first_user ::
    "graph_user option list option option \<Rightarrow> (UserResponse \<times> bool) go" where
  "first_user answer =
     (case answer of
        None \<Rightarrow> Inr (UserResponseFromError ''DB query failed'', True)
      | Some users \<Rightarrow> go_bind (deref users) (\<lambda>us. case us of
            [] \<Rightarrow> Inr (UserResponseFromError ''no result'', False)
          | u # _ \<Rightarrow> Inr (user_result u, False)))"

definition query_user_text :: string where
  "query_user_text =
     text_line 1 ''  query q($username: string){'' @ text_line 2 ''qr(func: eq(un, $username)) @filter(type(U)) {'' @
     text_line 2 ''  uid '' @ text_line 2 ''  un '' @ text_line 2 ''  ph'' @ text_line 2 ''  us'' @ text_line 2 ''  role'' @
     text_line 2 ''}'' @ text_line 1 ''  }'' @ text_line 1 []"

definition QueryUser :: "'d dgraph \<Rightarrow> string \<Rightarrow> ('d, UserResponse \<times> bool) act" where
  "QueryUser D username =
     act_bind (read_world (\<lambda>w. run_users D (database w) query_user_text [(''$username'', username)]))
       (\<lambda>answer. act_go (first_user answer))"

definition query_uid_text :: "bool \<Rightarrow> string" where
  "query_uid_text internalQuery =
     text_line 1 ''  query q($useruid: string){'' @ text_line 2 ''qr(func: uid($useruid)) @filter(type(U)) {'' @
     text_line 2 ''  uid '' @ text_line 2 ''  un'' @ text_line 2 ''  ph'' @ text_line 2 ''  us'' @ text_line 2 ''  role'' @
     text_line 2 (''  '' @ (if internalQuery then ''intd'' else [])) @
     text_line 2 ''}'' @ text_line 1 ''  }'' @ text_line 1 []"

definition QueryUserByUid :: "'d dgraph \<Rightarrow> string \<Rightarrow> bool \<Rightarrow> ('d, UserResponse \<times> bool) act" where
  "QueryUserByUid D userUid internalQuery =
     act_bind (read_world (\<lambda>w. run_users D (database w) (query_uid_text internalQuery) [(''$useruid'', SanitiseUID userUid)]))
       (\<lambda>answer. act_go (first_user answer))"

definition query_shared_text :: string where
  "query_shared_text =
     text_line 1 ''  query q($nodeid: string) {'' @
     text_line 2 ''var(func: uid($nodeid)) @recurse(depth: 1) '' @ tabs 1 @ ''{'' @
     text_line 2 ''NID as uid'' @ text_line 2 (getEdgePredicateName USERSHAREDWITH) @ text_line 2 ''}'' @ [nl] @
     text_line 2 ''qr(func: uid(NID)) @filter(type(U)) {'' @ text_line 2 ''uid'' @ text_line 2 ''un'' @
     text_line 2 ''role'' @ text_line 2 ''}'' @ text_line 1 ''}''"

definition shared_result :: "time \<Rightarrow> graph_user option list option option \<Rightarrow> (CoggedResponse \<times> bool) go" where
  "shared_result tnow answer =
     (case answer of
        None \<Rightarrow> Inr (CoggedResponseFromError tnow ''DB query failed'', True)
      | Some users \<Rightarrow> go_bind (deref users) (\<lambda>us.
          if length us < 1 then Inr (CoggedResponseFromError tnow ''no result'', False)
          else go_bind (CoggedResponseFromUsers tnow (Some us)) (\<lambda>r. Inr (r, False))))"

definition QueryUsersThatNodeIsSharedWith :: "time \<Rightarrow> 'd dgraph \<Rightarrow> string \<Rightarrow> ('d, CoggedResponse \<times> bool) act" where
  "QueryUsersThatNodeIsSharedWith tnow D nodeUid =
     act_bind (read_world (\<lambda>w. run_users D (database w) query_shared_text [(''$nodeid'', SanitiseUID nodeUid)]))
       (\<lambda>answer. act_go (shared_result tnow answer))"

definition mark_new_user :: "graph_user \<Rightarrow> graph_user" where
  "mark_new_user u =
     (if has_prefix (UserUid u) ''_:'' then GraphUser ((uattrs u)\<lparr>DgraphType := [''U'']\<rparr>) (Nodes u) (Shared u) else u)"

definition created_uids :: "vars \<Rightarrow> vars \<Rightarrow> vars" where
  "created_uids keys uids =
     fold (\<lambda>kv. AList.update (case map_of keys (fst kv) of None \<Rightarrow> [] | Some u \<Rightarrow> u) (snd kv)) uids []"

definition UpsertUsers ::
    "crypto \<Rightarrow> time \<Rightarrow> 'd dgraph \<Rightarrow> graph_user option list \<Rightarrow> ('d, CoggedResponse \<times> bool) act" where
  "UpsertUsers C tnow D users =
     act_bind (act_go (go_map deref users)) (\<lambda>us.
       let safe = makeSafeUserUids C us [] in
       act_bind (Mutate D (UserList (map (Some \<circ> mark_new_user) (fst safe))) ADD) (\<lambda>mr.
         case mr of
           None \<Rightarrow> act_return (db_failed tnow)
         | Some uids \<Rightarrow> act_return (CoggedResponseFromUidsMap tnow (created_uids (snd safe) uids), False)))"

definition new_user_node :: "time \<Rightarrow> string \<Rightarrow> graph_node \<Rightarrow> graph_node" where
  "new_user_node t userUid node =
     GraphNode ((nattrs node)\<lparr>Uid := ''_:new'', TimeModified := Some t, TimeCreated := Some t, DgraphType := [''N'']\<rparr>)
       None (Some (NewGraphUser userUid))"

definition UpsertUserNode ::
    "time \<Rightarrow> 'd dgraph \<Rightarrow> graph_node \<Rightarrow> string \<Rightarrow> ('d, CoggedResponse \<times> bool) act" where
  "UpsertUserNode tnow D node userUid =
     (let n = new_user_node tnow userUid node
      in act_bind (Mutate D (UserObject (GraphUser (uattrs (NewGraphUser userUid)) (Some [Some n]) None)) ADD) (\<lambda>mr.
        case mr of
          None \<Rightarrow> act_return (db_failed tnow)
        | Some uids \<Rightarrow> act_return (CoggedResponseFromNodesMap tnow
            [(''new'', Some (GraphNode ((nattrs n)\<lparr>Uid := (case map_of uids ''new'' of None \<Rightarrow> [] | Some u \<Rightarrow> u),
                TimeModified := None, TimeCreated := None, DgraphType := []\<rparr>) None (Owner n)))], False)))"

definition UpdateUserShareEdges ::
    "time \<Rightarrow> 'd dgraph \<Rightarrow> string list option \<Rightarrow> string list option \<Rightarrow> UpdateType \<Rightarrow> ('d, CoggedResponse \<times> bool) act" where
  "UpdateUserShareEdges tnow D uidsOfNodesToShare uidsOfUsersToShareWith addOrDel =
     act_bind (act_go (deref uidsOfNodesToShare)) (\<lambda>ns.
       act_bind (act_go (deref uidsOfUsersToShareWith)) (\<lambda>us.
         act_bind (Mutate D (UserList (map (\<lambda>u. Some (GraphUser (uattrs (NewGraphUser u)) None
             (Some (map (\<lambda>n. Some (NewGraphNodeJustUID n)) ns)))) us)) addOrDel) (\<lambda>mr.
           if mr = None then act_return (db_failed tnow)
           else act_return (empty_response tnow, False))))"

end
