(* ===== verification/QueryText.thy ===== *)
theory QueryText
  imports Query
begin

text \<open>
  The text of a compiled query: which characters a filter can contribute, and where the
  filter, the read rule and the selected fields stand after the placeholders of the
  template have been replaced.
\<close>

section \<open>Replacing placeholders\<close>

lemma prefix_append_sep: "x \<notin> set pat \<Longrightarrow> prefix pat (a @ x # b) \<longleftrightarrow> prefix pat a"
proof (induction pat arbitrary: a)
  case (Cons p ps)
  then show ?case by (cases a) auto
qed simp

lemma sublist_append_sep: "x \<notin> set pat \<Longrightarrow> sublist pat (a @ x # b) \<longleftrightarrow> sublist pat a \<or> sublist pat b"
proof (induction a)
  case Nil
  then show ?case by (cases pat) (auto simp: sublist_Cons_right)
next
  case (Cons c a)
  then show ?case
    using prefix_append_sep [of x pat "c # a" b] by (auto simp: sublist_Cons_right)
qed

lemma replace_loop_split:
  "\<lbrakk>pat \<noteq> []; x \<notin> set pat; n \<le> length a\<rbrakk> \<Longrightarrow>
   replace_loop pat new n (a @ x # b) = replace_loop pat new n a @ x # replace_loop pat new 0 b"
proof (induction a arbitrary: n)
  case Nil
  then show ?case by (cases pat) auto
next
  case (Cons c a)
  show ?case
  proof (cases n)
    case 0
    have p: "prefix pat (c # a @ x # b) \<longleftrightarrow> prefix pat (c # a)"
      using prefix_append_sep [of x pat "c # a" b] Cons.prems by simp
    show ?thesis
    proof (cases "prefix pat (c # a)")
      case True
      then have "length pat - 1 \<le> length a" by (auto dest: prefix_length_le)
      with Cons True 0 p show ?thesis by simp
    next
      case False
      with Cons 0 p show ?thesis by simp
    qed
  qed (use Cons in simp)
qed

lemma ReplaceAll_split:
  "\<lbrakk>pat \<noteq> []; x \<notin> set pat\<rbrakk> \<Longrightarrow> ReplaceAll (a @ x # b) pat new = ReplaceAll a pat new @ x # ReplaceAll b pat new"
  by (simp add: ReplaceAll_def replace_loop_split)

lemma ReplaceAll_absent:
  assumes "\<not> sublist pat s"
  shows "ReplaceAll s pat new = s"
proof -
  have "pat \<noteq> []" using assms by auto
  with assms have "replace_loop pat new 0 s = s"
    by (induction s) (auto simp: sublist_Cons_right)
  then show ?thesis by (simp add: ReplaceAll_def)
qed

lemma no_sublist_char: "\<lbrakk>c \<in> set pat; c \<notin> set s\<rbrakk> \<Longrightarrow> \<not> sublist pat s"
  using set_mono_sublist by blast

lemma ReplaceAll_no_char: "\<lbrakk>c \<in> set pat; c \<notin> set s\<rbrakk> \<Longrightarrow> ReplaceAll s pat new = s"
  by (intro ReplaceAll_absent no_sublist_char)

lemma ReplaceAll_self: "pat \<noteq> [] \<Longrightarrow> ReplaceAll pat pat new = new"
proof -
  assume "pat \<noteq> []"
  then obtain c cs where p: "pat = c # cs" by (cases pat) auto
  have "replace_loop pat new (length s) s = []" for s
    by (induction s) simp_all
  then show ?thesis by (simp add: ReplaceAll_def p)
qed

section \<open>The characters of a filter\<close>

definition number_char :: "char \<Rightarrow> bool" where
  "number_char c \<longleftrightarrow> digit_char c \<or> c = CHR ''-'' \<or> c = CHR ''.''"

definition filter_char :: "char \<Rightarrow> bool" where
  "filter_char c \<longleftrightarrow> alnum_char c \<or> number_char c \<or> c \<in> set '' (),$[]''"

text \<open>What \<open>strconv.FormatFloat(f, 'f', -1, 64)\<close> produces for a finite number.\<close>

definition plain_floats :: "runtime \<Rightarrow> bool" where
  "plain_floats rt \<longleftrightarrow> (\<forall>x. list_all number_char (format_float rt (Finite x)))"

lemma list_all_join:
  "\<lbrakk>list_all P sep; list_all (list_all P) ts\<rbrakk> \<Longrightarrow> list_all P (join_with sep ts)"
  by (induction sep ts rule: join_with.induct) auto

lemma bind_name_chars: "list_all filter_char (bind_name C v)"
proof -
  have "list_all hex_char (MD5SumHex C v)"
    by (auto simp: MD5SumHex_def list_all_iff EncodeToString_chars)
  then have "list_all hex_char (take 20 (MD5SumHex C v))"
    by (auto simp: list_all_iff dest: in_set_takeD)
  then have "list_all filter_char (take 20 (MD5SumHex C v))"
    by (rule list.pred_mono_strong) (auto simp: filter_char_def alnum_char_def hex_char_def)
  then show ?thesis by (simp add: bind_name_def filter_char_def alnum_char_def)
qed

lemma op_chars: "list_all filter_char (renderOp p)"
  using renderOp_allowed [of p]
  by (auto simp: allowedOps_def OP_TEXTSEARCH_def filter_char_def alnum_char_def)

lemma allowed_field_chars: "f \<in> set allowedFields \<Longrightarrow> list_all alnum_char f"
  by (auto simp: allowedFields_def alnum_char_def)

lemma field_chars: "list_all filter_char (renderField f)"
proof -
  have "list_all alnum_char (renderField f)"
    using renderField_allowed [of f] allowed_field_chars by auto
  then show ?thesis by (rule list.pred_mono_strong) (simp add: filter_char_def)
qed

lemma near_text_chars:
  assumes "plain_floats rt"
  shows "list_all filter_char (near_text rt (Finite x) (Finite y) (Finite d))"
proof -
  have "list_all filter_char (formatCoord rt (Finite z))" for z
  proof -
    have "list_all number_char (format_float rt (Finite z))" using assms by (simp add: plain_floats_def)
    then have "list_all filter_char (format_float rt (Finite z))"
      by (rule list.pred_mono_strong) (simp add: filter_char_def)
    then show ?thesis by (simp add: formatCoord_def)
  qed
  then show ?thesis by (simp add: near_text_def filter_char_def alnum_char_def number_char_def)
qed

lemma validateGeo_None_finite:
  assumes "validateGeo g = None"
  shows "\<exists>lon lat d. Point g = [Finite lon, Finite lat] \<and> Distance g = Finite d"
proof -
  from validateGeo_point [OF assms] obtain a b where p: "Point g = [a, b]" by blast
  have "list_all finite_float [a, b, Distance g]"
    using validateGeo_not_finite [OF p] assms by blast
  then show ?thesis by (auto simp: p finite_float_iff)
qed

lemma end_chars:
  assumes "plain_floats rt" and "check_geo_clause f p v g = None" and "print_ast rt (end_ast C rt f p v g) = Inr t"
  shows "list_all filter_char t"
proof (cases g)
  case None
  have r: "list_all filter_char ''regexp''" by (simp add: filter_char_def alnum_char_def)
  have c: "filter_char CHR ''(''" "filter_char CHR '',''" "filter_char CHR '')''"
    by (simp_all add: filter_char_def)
  have "list_all filter_char (renderOp p)" "list_all filter_char (renderField f)"
    by (rule op_chars, rule field_chars)
  with None assms(3) r c bind_name_chars [of C] show ?thesis
    by (auto simp: end_ast_def leaf_ast_def Let_def split: if_splits)
next
  case (Some geo)
  with assms(2) have v: "validateGeo geo = None" by (auto simp: check_geo_clause_def split: if_splits)
  from validateGeo_None_finite [OF v] obtain lon lat d where
    g: "Point geo = [Finite lon, Finite lat]" "Distance geo = Finite d" by blast
  have "t = near_text rt (Finite lon) (Finite lat) (Finite d)"
    using assms(3) Some renderGeoFunc_pair [OF g(1), of rt] by (simp add: end_ast_def g)
  then show ?thesis using near_text_chars [OF assms(1)] by simp
qed

lemma clause_chars:
  "\<lbrakk>plain_floats rt; check_clause c = None; print_ast rt (clause_ast C rt c) = Inr t\<rbrakk> \<Longrightarrow> list_all filter_char t"
  "\<lbrakk>plain_floats rt; check_clauses cs = None; print_asts rt (clause_asts C rt cs) = Inr ts\<rbrakk> \<Longrightarrow> list_all (list_all filter_char) ts"
proof (induction c and cs arbitrary: t and ts rule: clause_ast_clause_asts.induct)
  have par: "list_all filter_char ''(''" "list_all filter_char '')''" "list_all filter_char '' and ''" "list_all filter_char '' or ''"
    by (simp_all add: filter_char_def alnum_char_def)
  note join = list_all_join [OF par(3)] list_all_join [OF par(4)]
  {
    case 1 then show ?case using par join
      by (auto simp: first_error_None go_bind_eq_Inr_iff simp del: clause_asts.simps print_asts.simps)
  next
    case 2 then show ?case using par join
      by (auto simp: first_error_None go_bind_eq_Inr_iff simp del: clause_asts.simps print_asts.simps)
  next
    case 3 then show ?case by (auto simp: first_error_None intro: end_chars)
  next
    case 4 then show ?case by (auto simp: first_error_None intro: end_chars)
  next
    case 5 then show ?case by (auto simp: first_error_None intro: end_chars)
  next
    case 6 then show ?case by simp
  next
    case 7 then show ?case by (auto simp: first_error_None go_bind_eq_Inr_iff)
  }
qed

text \<open>
  Property C38. No client text reaches the query language through a filter: when a filter
  has passed the checks and compiles, every character of its text is a letter, a digit, a
  space or one of \<open>( ) , $ [ ] - .\<close>; there is no quote, brace, comparison, or comment in it,
  whatever names and values the client sent.
\<close>

theorem filter_text_safe:
  assumes "plain_floats rt" and "validateGeoClauses (Some c) = None"
    and "constructQueryStringAndAddVars C rt c vs = Inr (t, vs')"
  shows "list_all filter_char t"
  using assms(2,3) clause_chars(1) [OF assms(1)]
  by (auto simp: validateGeoClauses_def compile_is_print go_bind_eq_Inr_iff)

definition toy_runtime :: runtime where
  "toy_runtime = \<lparr>format_float = (\<lambda>f. ''0''), epoch_string = ''1970-01-01 00:00:00 +0000 UTC'', map_order = id\<rparr>"

lemma plain_toy_runtime: "plain_floats toy_runtime"
  by (simp add: plain_floats_def toy_runtime_def number_char_def digit_char_def)

theorem filter_text_safe_witness:
  "\<exists>t vs'. constructQueryStringAndAddVars toy_crypto toy_runtime (QueryRequestClause None None ''S1'' ''eq'' ''a } b'' None) [] = Inr (t, vs')
     \<and> list_all filter_char t"
proof -
  let ?c = "QueryRequestClause None None ''S1'' ''eq'' ''a } b'' None"
  obtain t vs' where t: "constructQueryStringAndAddVars toy_crypto toy_runtime ?c [] = Inr (t, vs')"
    by (simp add: compile_end_def compile_leaf_def Let_def)
  have "validateGeoClauses (Some ?c) = None"
    by (simp add: validateGeoClauses_def check_geo_clause_def first_error_def)
  from filter_text_safe [OF plain_toy_runtime this t] t show ?thesis by blast
qed

section \<open>Where the read rule stands\<close>

definition selection_text :: "string \<Rightarrow> string" where
  "selection_text flds =
     [nl] @ tabs 3 @ ''{'' @ [nl] @ tabs 4 @ ''uid own {uid} sgi r w o i d s '' @ flds @ [nl] @ tabs 3 @ ''}'' @ [nl] @ tabs 2 @ ''}''"

definition restricted_text :: "string \<Rightarrow> string \<Rightarrow> string \<Rightarrow> string" where
  "restricted_text head flt flds = head @ ''  @filter('' @ flt @ '')'' @ selection_text flds"

definition placeholder :: "string \<Rightarrow> bool" where
  "placeholder pat \<longleftrightarrow> CHR ''_'' \<in> set pat \<and> set pat \<inter> set '' (),[]{}@'' = {} \<and> nl \<notin> set pat \<and> dquote \<notin> set pat
     \<and> 6 < length pat"

lemma placeholders:
  "placeholder ''__FIELDS__''" "placeholder ''__FILTERS__''" "placeholder ''__PAGEARGS__''" "placeholder ''__QVARS__''"
  by (simp_all add: placeholder_def nl_def dquote_def)

lemma restricted_text_replace:
  assumes "placeholder pat"
  shows "ReplaceAll (restricted_text H flt flds) pat new =
    restricted_text (ReplaceAll H pat new) (ReplaceAll flt pat new) (ReplaceAll flds pat new)"
proof -
  have p: "pat \<noteq> []" "CHR ''_'' \<in> set pat" "CHR '' '' \<notin> set pat" "CHR ''('' \<notin> set pat" "CHR '')'' \<notin> set pat" "nl \<notin> set pat"
    using assms by (auto simp: placeholder_def)
  define mid1 where "mid1 = '' @filter''"
  define mid2 where "mid2 = [nl] @ tabs 3 @ ''{'' @ [nl] @ tabs 4 @ ''uid own {uid} sgi r w o i d s''"
  define tail where "tail = tabs 3 @ ''}'' @ [nl] @ tabs 2 @ ''}''"
  have us: "CHR ''_'' \<notin> set mid1" "CHR ''_'' \<notin> set mid2" "CHR ''_'' \<notin> set tail"
    by (auto simp: mid1_def mid2_def tail_def nl_def tabs_def)
  have shape: "restricted_text h f g =
      h @ CHR '' '' # (mid1 @ CHR ''('' # (f @ CHR '')'' # (mid2 @ CHR '' '' # (g @ nl # tail))))" for h f g
    by (simp add: restricted_text_def selection_text_def mid1_def mid2_def tail_def)
  show ?thesis
    unfolding shape
    by (simp only: ReplaceAll_split [OF p(1) p(3)] ReplaceAll_split [OF p(1) p(4)] ReplaceAll_split [OF p(1) p(5)]
        ReplaceAll_split [OF p(1) p(6)] ReplaceAll_no_char [OF p(2) us(1)] ReplaceAll_no_char [OF p(2) us(2)]
        ReplaceAll_no_char [OF p(2) us(3)])
qed

lemma query_tail_shape: "tmpl @ query_tail = restricted_text tmpl ''__FILTERS__'' ''__FIELDS__''"
  by (simp add: query_tail_def restricted_text_def selection_text_def)

lemma renderFields_no_underscore: "CHR ''_'' \<notin> set (renderFields flds)"
proof -
  have f: "CHR ''_'' \<notin> set f" if "f \<in> set allowedFields" for f
    using allowed_field_chars [OF that] by (auto simp: list_all_iff alnum_char_def)
  define ts where "ts = map (\<lambda>f. if f = ''e'' then f @ '' {uid own {uid} sgi r w o i d s}'' else f)
       (filter (\<lambda>f. f \<in> set allowedFields) flds)"
  have "CHR ''_'' \<notin> set t" if "t \<in> set ts" for t
    using that f by (auto simp: ts_def split: if_splits)
  then have "CHR ''_'' \<notin> set (join_with '' '' ts)"
    using set_join_with [of "'' ''" ts] by auto
  then show ?thesis by (simp add: renderFields_def ts_def)
qed

lemma no_placeholder_join:
  assumes "placeholder pat" and "list_all (\<lambda>g. \<not> sublist pat g) sgis"
  shows "\<not> sublist pat (join_with '', '' (map (\<lambda>s. dquote # s @ [dquote]) sgis) @ CHR '']'' # b) \<longleftrightarrow> \<not> sublist pat b"
proof -
  have p: "dquote \<notin> set pat" "CHR '','' \<notin> set pat" "CHR '' '' \<notin> set pat" "CHR '']'' \<notin> set pat" "CHR ''_'' \<in> set pat"
    using assms by (auto simp: placeholder_def)
  then have n: "pat \<noteq> []" by auto
  have q: "sublist pat (dquote # a @ dquote # b) \<longleftrightarrow> sublist pat a \<or> sublist pat b" for a b
    using sublist_append_sep [OF p(1), of "[]"] n by (simp add: sublist_append_sep [OF p(1)])
  have "sublist pat (join_with '', '' (map (\<lambda>s. dquote # s @ [dquote]) sgis)) \<longleftrightarrow> False"
    using assms(2)
  proof (induction sgis)
    case (Cons g gs)
    show ?case
    proof (cases gs)
      case Nil
      then show ?thesis using Cons.prems q [of g "[]"] n by simp
    next
      case (Cons h hs)
      let ?r = "join_with '', '' (map (\<lambda>s. dquote # s @ [dquote]) gs)"
      have "sublist pat (dquote # g @ dquote # CHR '','' # CHR '' '' # ?r) \<longleftrightarrow> sublist pat g \<or> sublist pat ?r"
        using q [of g "CHR '','' # CHR '' '' # ?r"] sublist_append_sep [OF p(2), of "[]"] sublist_append_sep [OF p(3), of "[]"] n
        by simp
      then show ?thesis using Cons.IH Cons.prems \<open>gs = h # hs\<close> by simp
    qed
  qed (use n in simp)
  then show ?thesis by (simp add: sublist_append_sep [OF p(4)])
qed

lemma own_clause_free:
  assumes "placeholder pat"
  shows "\<not> sublist pat (own_clause (SanitiseUID u) @ CHR '' '' # b) \<longleftrightarrow> \<not> sublist pat b"
    and "\<not> sublist pat (own_clause (SanitiseUID u))"
proof -
  have p: "CHR ''('' \<notin> set pat" "CHR '' '' \<notin> set pat" "CHR ''_'' \<in> set pat" "6 < length pat"
    using assms by (auto simp: placeholder_def)
  have "CHR ''_'' \<notin> set (SanitiseUID u)"
    using hex_of_nat_chars [of "CHR ''_''"] by (auto simp: SanitiseUID_def hex_char_def)
  then have "\<not> sublist pat (''own, '' @ SanitiseUID u @ '')'')"
    using p(3) by (intro no_sublist_char) auto
  moreover have "\<not> sublist pat ''uid_in''"
    using p(4) by (auto dest: sublist_length_le)
  ultimately show "\<not> sublist pat (own_clause (SanitiseUID u))"
    using sublist_append_sep [OF p(1), of "''uid_in''"] by (simp add: own_clause_def)
  then show "\<not> sublist pat (own_clause (SanitiseUID u) @ CHR '' '' # b) \<longleftrightarrow> \<not> sublist pat b"
    by (simp add: sublist_append_sep [OF p(2)])
qed

lemma read_filter_free:
  assumes "placeholder pat" and "list_all (\<lambda>g. \<not> sublist pat g) sgis"
  shows "\<not> sublist pat (renderReadAuthzFilter et uad sgis)"
proof -
  have p: "CHR ''('' \<notin> set pat" "CHR ''['' \<notin> set pat" "CHR ''_'' \<in> set pat" "pat \<noteq> []"
    using assms by (auto simp: placeholder_def)
  have f: "list_all (\<lambda>g. \<not> sublist pat g) (filter rgxSgiChars sgis)"
    using assms(2) by (auto simp: list_all_iff)
  have "\<not> sublist pat (''('' @ own_clause (SanitiseUID u) @ '' OR (eq(sgi, ['' @
      join_with '', '' (map (\<lambda>s. dquote # s @ [dquote]) (filter rgxSgiChars sgis)) @ '']) AND eq(r, true)))'')" for u
  proof -
    have "\<not> sublist pat '') AND eq(r, true)))''" using p(3) by (intro no_sublist_char) auto
    then have "\<not> sublist pat (join_with '', '' (map (\<lambda>s. dquote # s @ [dquote]) (filter rgxSgiChars sgis)) @ '']) AND eq(r, true)))'')"
      using no_placeholder_join [OF assms(1) f] by simp
    moreover have "\<not> sublist pat ''OR (eq(sgi, ''" using p(3) by (intro no_sublist_char) auto
    ultimately have "\<not> sublist pat (''OR (eq(sgi, ['' @ join_with '', '' (map (\<lambda>s. dquote # s @ [dquote]) (filter rgxSgiChars sgis)) @ '']) AND eq(r, true)))'')"
      using sublist_append_sep [OF p(2), of "''OR (eq(sgi, ''"] by simp
    then show ?thesis
      using own_clause_free(1) [OF assms(1)] sublist_append_sep [OF p(1), of "[]"] p(4) by simp
  qed
  then show ?thesis
    using own_clause_free(2) [OF assms(1)] p(4)
    by (auto simp: renderReadAuthzFilter_def own_clause_def Let_def split: option.split)
qed

lemma with_read_filter_free:
  assumes "placeholder pat" and "list_all (\<lambda>g. \<not> sublist pat g) sgis" and "list_all filter_char t"
  shows "\<not> sublist pat (with_read_filter t (renderReadAuthzFilter et uad sgis))"
proof -
  have p: "CHR ''('' \<notin> set pat" "CHR '')'' \<notin> set pat" "CHR '' '' \<notin> set pat" "CHR ''_'' \<in> set pat" "pat \<noteq> []"
    using assms by (auto simp: placeholder_def)
  have t: "\<not> sublist pat t"
    using assms(3) p(4) by (intro no_sublist_char [of "CHR ''_''"])
      (auto simp: list_all_iff filter_char_def alnum_char_def number_char_def digit_char_def)
  have "\<not> sublist pat ''AND''" "\<not> sublist pat []"
    using assms(1) p(5) by (auto simp: placeholder_def dest: sublist_length_le)
  then have "\<not> sublist pat (''('' @ t @ '') AND '' @ a) \<longleftrightarrow> \<not> sublist pat a" for a
    using sublist_append_sep [OF p(1), of "[]"] sublist_append_sep [OF p(2), of t]
      sublist_append_sep [OF p(3), of "[]"] sublist_append_sep [OF p(3), of "''AND''"] t by simp
  then show ?thesis
    using t read_filter_free [OF assms(1,2)] by (simp add: with_read_filter_def)
qed

definition user_filter :: "runtime \<Rightarrow> QueryRequest \<Rightarrow> query_clause" where
  "user_filter rt q = (case Filters q of None \<Rightarrow> default_filter rt | Some c \<Rightarrow> c)"

lemma user_filter_checked: "checkQueryFields q uad = None \<Longrightarrow> check_clause (user_filter rt q) = None"
  by (auto simp: user_filter_def default_filter_def check_geo_clause_def checkQueryFields_def first_error_None
      validateGeoClauses_def split: option.splits if_splits)

text \<open>
  Property C11. The read rule restricts the query that is sent: the text of every compiled
  query ends in the filter \<open>(user filter) AND read rule\<close> applied to the root, followed by the
  fixed fields and the selected ones. Nothing the client sends, and no replacement of a
  placeholder, changes, widens or removes the rule.
\<close>

theorem query_text_restricts:
  assumes "compile_query C rt q et uad sgis = Inr (Inr (qt, vs))" and "plain_floats rt"
    and "list_all (\<lambda>g. \<not> sublist ''__PAGEARGS__'' g \<and> \<not> sublist ''__QVARS__'' g) sgis"
  shows "\<exists>head t. print_ast rt (clause_ast C rt (user_filter rt q)) = Inr t
    \<and> qt = restricted_text head (with_read_filter t (renderReadAuthzFilter et uad sgis)) (renderFields (Select q))"
proof -
  have chk: "checkQueryFields q uad = None"
    using assms(1) by (cases "checkQueryFields q uad") (simp_all add: compile_query_def)
  from assms(1) obtain root where root: "query_root C rt q et = Inr root"
    by (auto simp: compile_query_def chk go_bind_eq_Inr_iff)
  with assms(1) obtain r where r: "root = Inr r"
    by (cases root) (simp_all add: compile_query_def chk)
  obtain tmpl vars0 fixed where r2: "r = (tmpl, vars0, fixed)" by (rule prod_cases3)
  from assms(1) obtain t vs' where
    c: "constructQueryStringAndAddVars C rt (user_filter rt q) vars0 = Inr (t, vs')"
    and qt: "qt = ReplaceAll (ReplaceAll (ReplaceAll (ReplaceAll (tmpl @ query_tail) ''__FIELDS__'' (renderFields (Select q)))
        ''__FILTERS__'' (with_read_filter t (renderReadAuthzFilter et uad sgis))) ''__PAGEARGS__'' (renderPagination q))
        ''__QVARS__'' (renderQueryParams rt fixed vs')"
    by (auto simp: compile_query_def chk root r r2 user_filter_def go_bind_eq_Inr_iff Let_def)
  from c have t: "print_ast rt (clause_ast C rt (user_filter rt q)) = Inr t"
    by (auto simp: compile_is_print go_bind_eq_Inr_iff)
  have tc: "list_all filter_char t"
    by (rule clause_chars(1) [OF assms(2) user_filter_checked [OF chk] t])
  let ?F = "with_read_filter t (renderReadAuthzFilter et uad sgis)" and ?S = "renderFields (Select q)"
  have sg: "list_all (\<lambda>g. \<not> sublist ''__PAGEARGS__'' g) sgis" "list_all (\<lambda>g. \<not> sublist ''__QVARS__'' g) sgis"
    using assms(3) by (simp_all add: list_all_iff)
  have F: "ReplaceAll ?F ''__PAGEARGS__'' new = ?F" "ReplaceAll ?F ''__QVARS__'' new = ?F" for new
    by (rule ReplaceAll_absent [OF with_read_filter_free [OF placeholders(3) sg(1) tc]],
        rule ReplaceAll_absent [OF with_read_filter_free [OF placeholders(4) sg(2) tc]])
  have S: "ReplaceAll ?S pat new = ?S" if "CHR ''_'' \<in> set pat" for pat new
    using that renderFields_no_underscore by (rule ReplaceAll_no_char)
  have P: "ReplaceAll ''__FILTERS__'' ''__FIELDS__'' new = ''__FILTERS__''" for new
    by (simp add: ReplaceAll_def)
  have U: "CHR ''_'' \<in> set ''__FILTERS__''" "CHR ''_'' \<in> set ''__PAGEARGS__''" "CHR ''_'' \<in> set ''__QVARS__''"
    by simp_all
  have "\<exists>head. qt = restricted_text head ?F ?S"
    unfolding qt query_tail_shape restricted_text_replace [OF placeholders(1)] restricted_text_replace [OF placeholders(2)]
      restricted_text_replace [OF placeholders(3)] restricted_text_replace [OF placeholders(4)]
      P ReplaceAll_self [OF list.distinct(2)] S [OF U(1)] S [OF U(2)] S [OF U(3)] F
    by blast
  with t show ?thesis by blast
qed

theorem query_text_restricts_witness:
  "\<exists>qt vs head t. compile_query toy_crypto toy_runtime example_query NODENODE (Some example_uad) [''g_1''] = Inr (Inr (qt, vs))
     \<and> qt = restricted_text head (with_read_filter t (renderReadAuthzFilter NODENODE (Some example_uad) [''g_1''])) (renderFields [''s1''])"
proof -
  let ?flt = "user_filter toy_runtime example_query"
  have "\<exists>r. query_root toy_crypto toy_runtime example_query NODENODE = Inr (Inr r)"
    by (simp add: query_root_def uids_root_def example_query_def)
  then obtain tmpl v0 fx where root: "query_root toy_crypto toy_runtime example_query NODENODE = Inr (Inr (tmpl, v0, fx))"
    by auto
  have "\<not> panics (constructQueryStringAndAddVars toy_crypto toy_runtime ?flt v0)"
    by (rule checked_clause_compiles [OF example_query_checked]) (simp add: user_filter_def example_query_def)
  then obtain r where r: "constructQueryStringAndAddVars toy_crypto toy_runtime ?flt v0 = Inr r"
    by (cases "constructQueryStringAndAddVars toy_crypto toy_runtime ?flt v0") auto
  have "\<exists>qt vs. compile_query toy_crypto toy_runtime example_query NODENODE (Some example_uad) [''g_1''] = Inr (Inr (qt, vs))"
    by (simp add: compile_query_def example_query_checked root user_filter_def [symmetric] r Let_def)
  then obtain qt vs where
    c: "compile_query toy_crypto toy_runtime example_query NODENODE (Some example_uad) [''g_1''] = Inr (Inr (qt, vs))"
    by blast
  have s: "list_all (\<lambda>g. \<not> sublist ''__PAGEARGS__'' g \<and> \<not> sublist ''__QVARS__'' g) [''g_1'']"
    by (auto dest: sublist_length_le)
  have "Select example_query = [''s1'']" by (simp add: example_query_def)
  with query_text_restricts [OF c plain_toy_runtime s] c show ?thesis by auto
qed

section \<open>Bound variables\<close>

lemma map_of_bind_all: "map_of (bind_all bs vs) = map_of vs ++ map_of (rev bs)"
  by (induction bs arbitrary: vs) (auto simp: map_add_def fun_eq_iff split: option.splits)

lemma leaf_binding_abc:
  "leaf_binding C rt ''s1'' ''eq'' ''abc'' = (bind_name C ''abc'', ''abc'')"
  "leaf_binding C rt ''s2'' ''has'' ''abc'' = (bind_name C ''abc'', ''/abc/i'')"
  "leaf_ast C rt ''s1'' ''eq'' ''abc'' = Leaf ''eq'' ''s1'' (bind_name C ''abc'')"
  "leaf_ast C rt ''s2'' ''has'' ''abc'' = Leaf ''regexp'' ''s2'' (bind_name C ''abc'')"
proof -
  have f: "renderField ''s1'' = ''s1''" "renderField ''s2'' = ''s2''" "renderOp ''eq'' = ''eq''" "renderOp ''has'' = ''has''"
    by code_simp+
  have t: "trim_space ''abc'' = ''abc''" "createRegex ''abc'' = ''/abc/i''"
    by code_simp+
  have v: "leaf_value rt ''s1'' ''abc'' = ''abc''" "leaf_value rt ''s2'' ''abc'' = ''abc''"
    by (simp_all add: leaf_value_def)
  show "leaf_binding C rt ''s1'' ''eq'' ''abc'' = (bind_name C ''abc'', ''abc'')"
    "leaf_binding C rt ''s2'' ''has'' ''abc'' = (bind_name C ''abc'', ''/abc/i'')"
    "leaf_ast C rt ''s1'' ''eq'' ''abc'' = Leaf ''eq'' ''s1'' (bind_name C ''abc'')"
    "leaf_ast C rt ''s2'' ''has'' ''abc'' = Leaf ''regexp'' ''s2'' (bind_name C ''abc'')"
    by (simp_all add: leaf_binding_def leaf_ast_def leaf_pattern_def f t v OP_TEXTSEARCH_def Let_def)
qed

text \<open>
  What the variables of a query hold: the value bound for a name is that of the
  last leaf with the name, because the name is a digest of the raw value only. A clause
  that compares one field with a value and searches another for the same value therefore
  sends the search pattern for both: \<open>eq(s1, abc)\<close> is evaluated with \<open>/abc/i\<close>.
\<close>

lemma query_variables:
  "(case constructQueryStringAndAddVars C rt c vs of
      Inl e \<Rightarrow> True | Inr (t, vs') \<Rightarrow> map_of vs' = map_of vs ++ map_of (rev (clause_bindings C rt c)))
   \<and> constructQueryStringAndAddVars C rt
       (QueryRequestClause (Some [QueryRequestClause None None ''s1'' ''eq'' ''abc'' None,
          QueryRequestClause None None ''s2'' ''has'' ''abc'' None]) None [] [] [] None) [] =
     Inr (''(eq(s1,'' @ bind_name C ''abc'' @ '') and regexp(s2,'' @ bind_name C ''abc'' @ ''))'',
          [(bind_name C ''abc'', ''/abc/i'')])"
proof
  show "case constructQueryStringAndAddVars C rt c vs of
      Inl e \<Rightarrow> True | Inr (t, vs') \<Rightarrow> map_of vs' = map_of vs ++ map_of (rev (clause_bindings C rt c))"
    by (auto simp: compile_is_print go_bind_def map_of_bind_all split: sum.split)
  show "constructQueryStringAndAddVars C rt
       (QueryRequestClause (Some [QueryRequestClause None None ''s1'' ''eq'' ''abc'' None,
          QueryRequestClause None None ''s2'' ''has'' ''abc'' None]) None [] [] [] None) [] =
     Inr (''(eq(s1,'' @ bind_name C ''abc'' @ '') and regexp(s2,'' @ bind_name C ''abc'' @ ''))'',
          [(bind_name C ''abc'', ''/abc/i'')])"
    by (simp add: compile_is_print end_ast_def end_bindings_def leaf_binding_abc)
qed

section \<open>Similarity queries\<close>

definition vector_char :: "char \<Rightarrow> bool" where
  "vector_char c \<longleftrightarrow> digit_char c \<or> space_char c \<or> exp_char c \<or> c \<in> set ''[],.+-''"

lemma vec_step_char: "vec_step st c \<noteq> VFail \<Longrightarrow> vector_char c"
  by (cases st) (auto simp: vector_char_def after_number_def split: if_splits)

lemma vec_step_fail [simp]: "foldl vec_step VFail s = VFail"
  by (induction s) simp_all

lemma vec_run_chars: "foldl vec_step st s = VEnd \<Longrightarrow> list_all vector_char s"
proof (induction s arbitrary: st)
  case (Cons c s)
  then have "vec_step st c \<noteq> VFail" by auto
  with Cons vec_step_char show ?case by auto
qed simp

text \<open>
  A similarity query is bounded and cannot break out of its quotes: when the
  root function of a similarity request is built, it asks for at least one and at most
  1000 neighbours, and the vector between the quotes is a nonempty bracketed text of
  digits, white space, signs, dots, commas, brackets and exponent letters.
\<close>

lemma similar_root_safe:
  assumes "similar_root sim = Inr f"
  shows "\<exists>k v. f = ''similar_to(vec, '' @ dec_of_nat k @ '', '' @ [dquote] @ v @ [dquote] @ '')''
    \<and> 1 \<le> k \<and> k \<le> 1000 \<and> (TopK sim \<in> {1..1000} \<longrightarrow> k = TopK sim)
    \<and> v = trim_space (Vector sim) \<and> list_all vector_char v \<and> has_prefix v ''['' \<and> suffix '']'' v"
proof -
  let ?v = "trim_space (Vector sim)"
  have r: "foldl vec_step VBegin ?v = VEnd"
    using assms by (auto simp: similar_root_def rgxVectorLiteral_def Let_def split: if_splits)
  have "has_prefix ?v ''[''"
  proof (cases ?v)
    case (Cons c cs)
    with r show ?thesis by (cases "c = CHR ''[''") simp_all
  qed (use r in simp)
  moreover have "suffix '']'' ?v"
  proof (cases ?v rule: rev_cases)
    case (snoc cs c)
    then have "vec_step (foldl vec_step VBegin cs) c = VEnd" using r by simp
    then have "c = CHR '']''"
      by (cases "foldl vec_step VBegin cs") (auto simp: after_number_def split: if_splits)
    with snoc show ?thesis by (simp add: suffix_def)
  qed (use r in simp)
  ultimately show ?thesis
    using assms vec_run_chars [OF r]
    by (auto simp: similar_root_def DEFAULT_SIMILAR_TOPK_def MAX_SIMILAR_TOPK_def Let_def split: if_splits)
qed

lemma similar_root_safe_witness:
  "similar_root \<lparr>Vector = '' [0.5, -2e3] '', TopK = 5000\<rparr> = Inr (''similar_to(vec, 1000, '' @ [dquote] @ ''[0.5, -2e3]'' @ [dquote] @ '')'')
   \<and> (\<exists>k. 1 \<le> k \<and> k \<le> (1000::nat))"
proof -
  have s: "similar_root \<lparr>Vector = '' [0.5, -2e3] '', TopK = 5000\<rparr> = Inr (''similar_to(vec, 1000, '' @ [dquote] @ ''[0.5, -2e3]'' @ [dquote] @ '')'')"
    by code_simp
  from similar_root_safe [OF s] s show ?thesis by blast
qed

end
