(* ===== verification/UpsertProps.thy ===== *)
theory UpsertProps
  imports UserDb QueryText
begin

text \<open>
  What the writing operations promise: which node lists are accepted, that an accepted list
  never panics and a rejected one changes nothing, that every new node is reported exactly
  once under the name the client gave it, and which edges a mutation adds or removes.
\<close>

section \<open>Accepted node lists\<close>

abbreviation uids_of :: "graph_node option list \<Rightarrow> string list" where
  "uids_of ns \<equiv> map (NodeUid \<circ> the) ns"

lemma check_entries_Inr:
  "check_entries ns d = Inr d' \<longleftrightarrow>
     None \<notin> set ns \<and> d' = rev (uids_of ns) @ d \<and> distinct (filter temp_uid (uids_of ns)) \<and>
     (\<forall>u \<in> set (uids_of ns). temp_uid u \<longrightarrow> u \<notin> set d)"
proof (induction ns arbitrary: d)
  case (Cons np ns)
  then show ?case by (cases np) (auto simp: image_iff split: if_splits)
qed auto

lemma check_out_edges_None:
  "check_out_edges es d = None \<longleftrightarrow> None \<notin> set es \<and> (\<forall>u \<in> set (uids_of es). temp_uid u \<longrightarrow> u \<in> set d)"
proof (induction es)
  case (Cons ep es)
  then show ?case by (cases ep) auto
qed simp

lemma checkUpsertNodeList_char:
  "checkUpsertNodeList (Some ns) = None \<longleftrightarrow>
     None \<notin> set ns \<and> distinct (filter temp_uid (uids_of ns)) \<and>
     None \<notin> set (concat (map (edges_of \<circ> the) ns)) \<and>
     set (filter temp_uid (uids_of (concat (map (edges_of \<circ> the) ns)))) \<subseteq> set (uids_of ns)"
proof (cases "check_entries ns []")
  case (Inl e)
  then have "\<not> (None \<notin> set ns \<and> distinct (filter temp_uid (uids_of ns)))"
    using check_entries_Inr [of ns "[]" "rev (uids_of ns)"] by auto
  with Inl show ?thesis by (auto simp: checkUpsertNodeList_def)
next
  case (Inr d)
  then have d: "d = rev (uids_of ns)" "None \<notin> set ns" "distinct (filter temp_uid (uids_of ns))"
    by (auto simp: check_entries_Inr)
  show ?thesis
    using d by (simp add: checkUpsertNodeList_def Inr check_out_edges_None subset_eq) blast
qed

text \<open>
  Property C37. A node list is accepted for writing exactly when it has no null entry, no two
  of its new nodes share a temporary uid, no out-edge is null, and every temporary uid
  that an out-edge names belongs to a node of the list.
\<close>

theorem checkUpsertNodeList_iff:
  "checkUpsertNodeList (Some ns) = None \<longleftrightarrow>
     None \<notin> set ns \<and> distinct (filter temp_uid (uids_of ns)) \<and>
     None \<notin> set (concat (map (edges_of \<circ> the) ns)) \<and>
     set (filter temp_uid (uids_of (concat (map (edges_of \<circ> the) ns)))) \<subseteq> set (uids_of ns)"
  by (rule checkUpsertNodeList_char)

section \<open>Blank nodes\<close>

lemma lower_underscore: "has_prefix s ''_:'' \<Longrightarrow> \<not> rgxUid (to_lower s)"
proof -
  assume "has_prefix s ''_:''"
  then obtain r where "s = CHR ''_'' # CHR '':'' # r" by (auto simp: prefix_def)
  then have "to_lower s = CHR ''_'' # to_lower (CHR '':'' # r)"
    by (simp add: to_lower_def rune_chunks_ascii_Cons lower_rune_def lower_ascii_def)
  then show ?thesis by (simp add: rgxUid_def)
qed

lemma blank_iff_temp: "has_prefix (getUidOrSafeTempUid C u) ''_:'' \<longleftrightarrow> temp_uid u"
  using lower_underscore [of "trim_space u"]
  by (auto simp: getUidOrSafeTempUid_def temp_uid_def ValidateUid_def Let_def)

lemma blank_key: "temp_uid u \<Longrightarrow> getUidOrSafeTempUid C u = ''_:'' @ MD5SumHex C u"
  by (simp add: getUidOrSafeTempUid_def temp_uid_def ValidateUid_def Let_def)

definition temp_keys :: "crypto \<Rightarrow> string list \<Rightarrow> vars" where
  "temp_keys C us = map (\<lambda>u. (MD5SumHex C u, u)) (filter temp_uid us)"

lemma snd_makeSafeUids: "snd (makeSafeUids C ns keys) = bind_all (temp_keys C (map NodeUid ns)) keys"
  by (induction ns arbitrary: keys)
    (auto simp: makeSafeUid_def blank_iff_temp blank_key temp_keys_def Let_def)

lemma fst_makeSafeUids: "fst (makeSafeUids C ns keys) = map (\<lambda>n. SetUid (getUidOrSafeTempUid C (NodeUid n)) n) ns"
  by (induction ns arbitrary: keys) (auto simp: makeSafeUid_def Let_def)

lemma map_of_temp_keys:
  assumes "inj_on (MD5SumHex C) (set (filter temp_uid us))" and "u \<in> set us" and "temp_uid u"
  shows "map_of (rev (temp_keys C us)) (MD5SumHex C u) = Some u"
proof -
  have "map_of (rev (temp_keys C us)) (MD5SumHex C u) \<noteq> None"
  proof -
    have "MD5SumHex C u \<in> fst ` set (rev (temp_keys C us))"
      using assms(2,3) by (auto simp: temp_keys_def image_iff)
    then show ?thesis by (simp add: map_of_eq_None_iff)
  qed
  then obtain v where v: "map_of (rev (temp_keys C us)) (MD5SumHex C u) = Some v" by blast
  then have "v \<in> set (filter temp_uid us) \<and> MD5SumHex C v = MD5SumHex C u"
    by (auto dest!: map_of_SomeD simp: temp_keys_def)
  then have "v = u" using assms by (auto dest: inj_onD)
  with v show ?thesis by simp
qed

lemma edge_key_keeps: "map_of keys k = Some x \<Longrightarrow> map_of (edge_key C e keys) k = Some x"
  by (auto simp: edge_key_def Let_def)

lemma edge_keys_keeps: "map_of keys k = Some x \<Longrightarrow> map_of (edge_keys C ns keys) k = Some x"
proof -
  have "map_of keys k = Some x \<Longrightarrow> map_of (fold (edge_key C) es keys) k = Some x" for es keys
    by (induction es arbitrary: keys) (auto intro: edge_key_keeps)
  then show "map_of keys k = Some x \<Longrightarrow> map_of (edge_keys C ns keys) k = Some x"
    by (simp add: edge_keys_def)
qed

section \<open>Panics and rejected lists\<close>

lemma go_map_deref: "None \<notin> set ns \<Longrightarrow> go_map deref ns = Inr (map the ns)"
proof (induction ns)
  case (Cons n ns)
  then show ?case by (cases n) auto
qed simp

definition prepared_node :: "crypto \<Rightarrow> time \<Rightarrow> graph_node \<Rightarrow> graph_node" where
  "prepared_node C t n =
     GraphNode (stamp_node t (nattrs n)) (map_option (map (Some \<circ> safe_edge C \<circ> the)) (OutEdges n)) (Owner n)"

lemma prepare_node_total: "None \<notin> set (edges_of n) \<Longrightarrow> prepare_node C t n = Inr (prepared_node C t n)"
  by (cases "OutEdges n") (simp_all add: prepare_node_def prepared_node_def edges_of_def go_map_deref)

primrec prepared_nodes :: "crypto \<Rightarrow> (nat \<Rightarrow> time) \<Rightarrow> nat \<Rightarrow> graph_node list \<Rightarrow> graph_node list" where
  "prepared_nodes C now i [] = []"
| "prepared_nodes C now i (n # ns) = prepared_node C (now i) n # prepared_nodes C now (Suc i) ns"

lemma prepare_nodes_total:
  "None \<notin> set (concat (map edges_of ns)) \<Longrightarrow> prepare_nodes C now i ns = Inr (prepared_nodes C now i ns)"
  by (induction ns arbitrary: i) (simp_all add: prepare_node_total)

lemma OutEdges_SetUid [simp]: "OutEdges (SetUid u n) = OutEdges n" "Owner (SetUid u n) = Owner n"
  by (simp_all add: SetUid_def)

lemma edges_of_SetUid [simp]: "edges_of (SetUid u n) = edges_of n"
  by (simp add: edges_of_def)

definition written_nodes :: "crypto \<Rightarrow> (nat \<Rightarrow> time) \<Rightarrow> graph_node list \<Rightarrow> graph_node list" where
  "written_nodes C now ns = prepared_nodes C now 0 (map (\<lambda>n. SetUid (getUidOrSafeTempUid C (NodeUid n)) n) ns)"

definition reported_nodes :: "crypto \<Rightarrow> graph_node list \<Rightarrow> vars \<Rightarrow> (string \<times> graph_node option) list" where
  "reported_nodes C ns uids =
     created_nodes (edge_keys C (map (\<lambda>n. SetUid (getUidOrSafeTempUid C (NodeUid n)) n) ns)
       (bind_all (temp_keys C (map NodeUid ns)) [])) (original_nodes ns) uids"

definition upsert_accepted ::
    "crypto \<Rightarrow> (nat \<Rightarrow> time) \<Rightarrow> time \<Rightarrow> 'd dgraph \<Rightarrow> graph_node list \<Rightarrow> ('d, CoggedResponse \<times> bool) act" where
  "upsert_accepted C now tnow D ns w =
     (let r = apply_mutation D (database w) ADD (NodeList (map Some (written_nodes C now ns)))
      in (w\<lparr>database := fst r\<rparr>, Inr (case snd r of
            None \<Rightarrow> db_failed tnow
          | Some uids \<Rightarrow> (CoggedResponseFromNodesMap tnow (reported_nodes C ns uids), False))))"

lemma UpsertNodes_accepted:
  assumes "checkUpsertNodeList (Some ns) = None"
  shows "UpsertNodes C quote now tnow D (Some ns) w = upsert_accepted C now tnow D (map the ns) w"
proof -
  have n: "None \<notin> set ns" "None \<notin> set (concat (map (edges_of \<circ> the) ns))"
    using assms unfolding checkUpsertNodeList_char by blast+
  let ?safe = "map (\<lambda>n. SetUid (getUidOrSafeTempUid C (NodeUid n)) n) (map the ns)"
  have "map edges_of ?safe = map (edges_of \<circ> the) ns" by simp
  then have p: "prepare_nodes C now 0 ?safe = Inr (prepared_nodes C now 0 ?safe)"
    using n(2) by (intro prepare_nodes_total) (simp add: comp_def)
  show ?thesis
    unfolding UpsertNodes_def upsert_accepted_def written_nodes_def reported_nodes_def
    by (simp add: assms go_map_deref n act_simps fst_makeSafeUids snd_makeSafeUids p Let_def db_failed_def
        del: map_map split: option.split)
qed

lemma UpsertNodes_char:
  "(panics (snd (UpsertNodes C quote now tnow D nodes w)) \<longleftrightarrow> nodes = None)
   \<and> UpsertNodes C quote now tnow D (Some ns) w =
      (case checkUpsertNodeList (Some ns) of
         Some e \<Rightarrow> (w, Inr (CoggedResponseFromError tnow (upsert_error_text quote e), True))
       | None \<Rightarrow> upsert_accepted C now tnow D (map the ns) w)"
proof
  show some: "UpsertNodes C quote now tnow D (Some ns) w =
      (case checkUpsertNodeList (Some ns) of
         Some e \<Rightarrow> (w, Inr (CoggedResponseFromError tnow (upsert_error_text quote e), True))
       | None \<Rightarrow> upsert_accepted C now tnow D (map the ns) w)" for ns
  proof (cases "checkUpsertNodeList (Some ns)")
    case None
    then show ?thesis by (simp add: UpsertNodes_accepted)
  next
    case (Some e)
    then show ?thesis by (simp add: UpsertNodes_def act_simps)
  qed
  show "panics (snd (UpsertNodes C quote now tnow D nodes w)) \<longleftrightarrow> nodes = None"
  proof (cases nodes)
    case None
    then show ?thesis by (simp add: UpsertNodes_def checkUpsertNodeList_def act_simps)
  next
    case (Some ms)
    then show ?thesis by (simp add: some upsert_accepted_def Let_def split: option.split)
  qed
qed

text \<open>
  Property C22. Writing nodes never panics on a list of nodes: it panics only when there is no
  list at all. A list that is not accepted leaves the database and the sessions as they
  were and yields an error response, and an accepted one performs exactly one mutation, the
  written form of all its nodes.
\<close>

theorem UpsertNodes_total:
  "(panics (snd (UpsertNodes C quote now tnow D nodes w)) \<longleftrightarrow> nodes = None)
   \<and> UpsertNodes C quote now tnow D (Some ns) w =
      (case checkUpsertNodeList (Some ns) of
         Some e \<Rightarrow> (w, Inr (CoggedResponseFromError tnow (upsert_error_text quote e), True))
       | None \<Rightarrow> upsert_accepted C now tnow D (map the ns) w)"
  by (rule UpsertNodes_char)

section \<open>Reported nodes\<close>

definition reported_entry :: "graph_node \<Rightarrow> string \<Rightarrow> graph_node option" where
  "reported_entry n v = map_option (SetUid v) (NewGraphNodeJustOwnerAndPerms (Some n))"

lemma map_of_fold_update_by:
  "map_of (fold (\<lambda>n. AList.update (f n) n) ns al) = map_of al ++ map_of (rev (map (\<lambda>n. (f n, n)) ns))"
  by (induction ns arbitrary: al) (auto simp: map_add_def fun_eq_iff split: option.splits)

lemma map_of_original_nodes:
  "map_of (original_nodes ns) u = None \<longleftrightarrow> u \<notin> set (map NodeUid ns)"
proof -
  have "map_of (rev (map (\<lambda>n. (NodeUid n, n)) ns)) u = None \<longleftrightarrow> u \<notin> set (map NodeUid ns)"
    by (auto simp: map_of_eq_None_iff image_iff)
  then show ?thesis by (simp add: original_nodes_def map_of_fold_update_by)
qed

definition entry_known :: "crypto \<Rightarrow> vars \<Rightarrow> (string \<times> graph_node) list \<Rightarrow> string \<Rightarrow> bool" where
  "entry_known C keys originals k \<longleftrightarrow>
     (\<exists>u n. map_of keys k = Some u \<and> map_of originals u = Some n \<and> MD5SumHex C u = k)"

lemma created_entries:
  "\<lbrakk>distinct (map fst uids); list_all (entry_known C keys originals) (map fst uids)\<rbrakk> \<Longrightarrow>
   map_of (fold (created_entry keys originals) uids acc) u =
     (case map_of uids (MD5SumHex C u) of
        None \<Rightarrow> map_of acc u
      | Some v \<Rightarrow> if map_of keys (MD5SumHex C u) = Some u then Some (reported_entry (the (map_of originals u)) v)
          else map_of acc u)"
proof (induction uids arbitrary: acc)
  case (Cons kv uids)
  from Cons.prems(2) obtain u0 n0 where k: "map_of keys (fst kv) = Some u0" "map_of originals u0 = Some n0"
    "MD5SumHex C u0 = fst kv"
    by (auto simp: entry_known_def)
  have e: "created_entry keys originals kv acc = AList.update u0 (reported_entry n0 (snd kv)) acc"
    by (simp add: created_entry_def k reported_entry_def)
  have nin: "map_of uids (fst kv) = None" using Cons.prems(1) by (simp add: map_of_eq_None_iff)
  note IH = Cons.IH [of "created_entry keys originals kv acc"]
  show ?case
  proof (cases "MD5SumHex C u = fst kv")
    case True
    then show ?thesis using IH Cons.prems nin k by (auto simp: e map_of_Cons_code split: option.split)
  next
    case False
    then have "u \<noteq> u0" using k by auto
    then have "map_of (created_entry keys originals kv acc) u = map_of acc u" by (simp add: e)
    with False show ?thesis using IH Cons.prems by (simp split: option.split)
  qed
qed simp

lemma reported_nodes_lookup:
  assumes inj: "inj_on (MD5SumHex C) (set (filter temp_uid (map NodeUid ns)))"
    and d: "distinct (map fst uids)" and sub: "fst ` set uids \<subseteq> MD5SumHex C ` set (filter temp_uid (map NodeUid ns))"
  shows "map_of (reported_nodes C ns uids) u =
    (if temp_uid u then Option.bind (map_of (original_nodes ns) u) (\<lambda>n. map_option (reported_entry n) (map_of uids (MD5SumHex C u)))
     else None)"
proof -
  define keys where "keys = edge_keys C (map (\<lambda>n. SetUid (getUidOrSafeTempUid C (NodeUid n)) n) ns)
       (bind_all (temp_keys C (map NodeUid ns)) [])"
  have known: "map_of keys (MD5SumHex C x) = Some x" if "x \<in> set (filter temp_uid (map NodeUid ns))" for x
  proof -
    have "x \<in> set (map NodeUid ns)" "temp_uid x" using that by auto
    from map_of_temp_keys [OF inj this] show ?thesis
      by (auto simp: keys_def map_of_bind_all intro!: edge_keys_keeps)
  qed
  have "entry_known C keys (original_nodes ns) k" if "k \<in> set (map fst uids)" for k
  proof -
    have "k \<in> fst ` set uids" using that by simp
    with sub obtain x where x: "x \<in> set (filter temp_uid (map NodeUid ns))" "k = MD5SumHex C x" by blast
    then have "map_of (original_nodes ns) x \<noteq> None" by (auto simp: map_of_original_nodes)
    with x known [OF x(1)] show ?thesis by (auto simp: entry_known_def)
  qed
  then have "list_all (entry_known C keys (original_nodes ns)) (map fst uids)" by (simp add: list_all_iff)
  from created_entries [OF d this, of "[]" u]
  have r: "map_of (reported_nodes C ns uids) u = (case map_of uids (MD5SumHex C u) of None \<Rightarrow> None
      | Some v \<Rightarrow> if map_of keys (MD5SumHex C u) = Some u then Some (reported_entry (the (map_of (original_nodes ns) u)) v) else None)"
    unfolding reported_nodes_def created_nodes_def keys_def [symmetric] by (simp split: option.split)
  have k: "map_of keys (MD5SumHex C u) = Some u \<longleftrightarrow> temp_uid u \<and> u \<in> set (map NodeUid ns)"
    if "map_of uids (MD5SumHex C u) = Some v" for v
  proof
    assume u: "map_of keys (MD5SumHex C u) = Some u"
    have "MD5SumHex C u \<in> fst ` set uids" using that by (rule map_of_in_fst)
    with sub obtain x where "x \<in> set (filter temp_uid (map NodeUid ns))" "MD5SumHex C u = MD5SumHex C x" by blast
    with known u show "temp_uid u \<and> u \<in> set (map NodeUid ns)" by auto
  qed (use known in auto)
  show ?thesis
  proof (cases "map_of (original_nodes ns) u")
    case None
    then have "u \<notin> set (map NodeUid ns)" by (simp add: map_of_original_nodes)
    with None r k show ?thesis by (auto split: option.split)
  next
    case (Some n)
    then have "u \<in> set (map NodeUid ns)"
      using map_of_original_nodes [of ns u] by (metis option.distinct(1))
    with Some r k show ?thesis by (auto split: option.split)
  qed
qed

text \<open>
  Property C21. Every new node is reported exactly once: when an accepted list is written and
  the database assigns uids to blank nodes of the mutation, the response maps the
  temporary uid of each new node that got a uid to that uid with the owner, share group and
  permissions the node was written with, and contains nothing else; provided the digests
  of the temporary uids of the request do not collide.
\<close>

theorem created_nodes_exact:
  assumes "checkUpsertNodeList (Some ns) = None"
    and "apply_mutation D (database w) ADD (NodeList (map Some (written_nodes C now (map the ns)))) = (d', Some uids)"
    and "inj_on (MD5SumHex C) (set (filter temp_uid (uids_of ns)))"
    and "distinct (map fst uids)" and "fst ` set uids \<subseteq> MD5SumHex C ` set (filter temp_uid (uids_of ns))"
  shows "\<exists>created. UpsertNodes C quote now tnow D (Some ns) w =
      (w\<lparr>database := d'\<rparr>, Inr ((empty_response tnow)\<lparr>CreatedNodes := Some created\<rparr>, False))
    \<and> map_of created = (\<lambda>u. if temp_uid u
        then Option.bind (map_of (original_nodes (map the ns)) u) (\<lambda>n. map_option (reported_entry n) (map_of uids (MD5SumHex C u)))
        else None)"
proof -
  have u: "map NodeUid (map the ns) = uids_of ns" by simp
  have "map_of (reported_nodes C (map the ns) uids) = (\<lambda>u. if temp_uid u
        then Option.bind (map_of (original_nodes (map the ns)) u) (\<lambda>n. map_option (reported_entry n) (map_of uids (MD5SumHex C u)))
        else None)"
    by (intro ext reported_nodes_lookup) (use assms in \<open>simp_all only: u\<close>)
  moreover have "UpsertNodes C quote now tnow D (Some ns) w =
      (w\<lparr>database := d'\<rparr>, Inr ((empty_response tnow)\<lparr>CreatedNodes := Some (reported_nodes C (map the ns) uids)\<rparr>, False))"
    by (simp add: UpsertNodes_accepted [OF assms(1)] upsert_accepted_def assms(2) CoggedResponseFromNodesMap_def)
  ultimately show ?thesis by blast
qed

definition answering_db :: "vars \<Rightarrow> unit dgraph" where
  "answering_db uids = \<lparr>run_nodes = (\<lambda>d q vs. Some (Some [])), run_users = (\<lambda>d q vs. Some (Some [])),
     apply_mutation = (\<lambda>d ut p. (d, Some uids))\<rparr>"

definition empty_world :: "unit world" where
  "empty_world = \<lparr>database = (), sessions = UsmInit\<rparr>"

lemma temp_a: "temp_uid ''$a''"
  by code_simp

theorem created_nodes_exact_witness:
  "\<exists>created. UpsertNodes toy_crypto id (\<lambda>_. 5) 5 (answering_db [(MD5SumHex toy_crypto ''$a'', ''0x7'')])
      (Some [Some (NewGraphNodeJustUID ''$a'')]) empty_world =
      (empty_world, Inr ((empty_response 5)\<lparr>CreatedNodes := Some created\<rparr>, False))
    \<and> map_of created ''$a'' = Some (Some (NewGraphNodeJustUID ''0x7''))"
proof -
  let ?n = "NewGraphNodeJustUID ''$a''"
  let ?D = "answering_db [(MD5SumHex toy_crypto ''$a'', ''0x7'')]"
  have uid: "NodeUid ?n = ''$a''" by (simp add: NewGraphNodeJustUID_def node_attrs_of_uid_def)
  have e: "edges_of ?n = []" by (simp add: edges_of_def NewGraphNodeJustUID_def)
  have chk: "checkUpsertNodeList (Some [Some ?n]) = None"
    unfolding checkUpsertNodeList_char by (simp add: e)
  have m: "apply_mutation ?D (database empty_world) ADD (NodeList (map Some (written_nodes toy_crypto (\<lambda>_. 5) (map the [Some ?n]))))
      = ((), Some [(MD5SumHex toy_crypto ''$a'', ''0x7'')])"
    by (simp add: answering_db_def)
  have f: "filter temp_uid (uids_of [Some ?n]) = [''$a'']" by (simp add: uid temp_a)
  have i: "inj_on (MD5SumHex toy_crypto) (set (filter temp_uid (uids_of [Some ?n])))" unfolding f by simp
  have s: "fst ` set [(MD5SumHex toy_crypto ''$a'', ''0x7'')] \<subseteq> MD5SumHex toy_crypto ` set (filter temp_uid (uids_of [Some ?n]))"
    unfolding f by simp
  have d: "distinct (map fst [(MD5SumHex toy_crypto ''$a'', ''0x7'')])" by simp
  from created_nodes_exact [where C = toy_crypto and D = ?D and w = empty_world and now = "\<lambda>_. 5", OF chk m i d s, of id 5]
  obtain created where c: "UpsertNodes toy_crypto id (\<lambda>_. 5) 5 ?D (Some [Some ?n]) empty_world =
      (empty_world\<lparr>database := ()\<rparr>, Inr ((empty_response 5)\<lparr>CreatedNodes := Some created\<rparr>, False))"
    "map_of created = (\<lambda>u. if temp_uid u
        then Option.bind (map_of (original_nodes (map the [Some ?n])) u) (\<lambda>n. map_option (reported_entry n)
          (map_of [(MD5SumHex toy_crypto ''$a'', ''0x7'')] (MD5SumHex toy_crypto u)))
        else None)" by blast
  have "reported_entry ?n ''0x7'' = Some (NewGraphNodeJustUID ''0x7'')"
    by (simp add: reported_entry_def NewGraphNodeJustOwnerAndPerms_def NewGraphNodeJustUID_def SetUid_def node_attrs_of_uid_def)
  then have "map_of created ''$a'' = Some (Some (NewGraphNodeJustUID ''0x7''))"
    by (simp add: c(2) temp_a original_nodes_def uid)
  with c(1) show ?thesis by (intro exI [of _ created]) (simp add: empty_world_def)
qed

section \<open>Edges\<close>

definition links :: "graph_node \<Rightarrow> (string \<times> string) list" where
  "links n = map (\<lambda>e. (NodeUid n, NodeUid (the e))) (edges_of n)"

definition bare :: "graph_node \<Rightarrow> bool" where
  "bare n \<longleftrightarrow> nattrs n = (node_attrs_of_uid (NodeUid n))\<lparr>TimeModified := TimeModified (nattrs n)\<rparr> \<and> Owner n = None"

definition incoming_update :: "time \<Rightarrow> string list \<Rightarrow> string list option \<Rightarrow> graph_node list" where
  "incoming_update t nodes srcs =
     map (\<lambda>p. linked_node p (Some t) (map (\<lambda>u. touched_node u (Some t)) nodes)) (named_uids srcs)"

definition outgoing_update :: "time \<Rightarrow> string list \<Rightarrow> string list option \<Rightarrow> graph_node list" where
  "outgoing_update t nodes dests =
     (if present_list dests
      then map (\<lambda>n. linked_node n (Some t) (map (\<lambda>u. touched_node u (Some t)) (the dests))) nodes else [])"

definition edge_update :: "(nat \<Rightarrow> time) \<Rightarrow> string list \<Rightarrow> string list option \<Rightarrow> string list option \<Rightarrow> graph_node list" where
  "edge_update now nodes srcs dests = incoming_update (now 0) nodes srcs @ outgoing_update (now 1) nodes dests"

lemma edge_update_eq:
  "go_bind (AddIncomingEdges (Some nodes) srcs True (now 0) []) (AddOutgoingEdges (Some nodes) dests True (now 1))
   = Inr (edge_update now nodes srcs dests)"
  by (simp add: AddIncomingEdges_def AddOutgoingEdges_def edge_update_def incoming_update_def outgoing_update_def
      named_uids_def mod_time_def Let_def)

lemma linked_bare [simp]: "bare (linked_node u t cs)" "bare (touched_node u t)" "NodeUid (touched_node u t) = u"
  "NodeUid (linked_node u t cs) = u" "edges_of (linked_node u t cs) = map Some cs"
  by (simp_all add: bare_def linked_node_def touched_node_def node_attrs_of_uid_def edges_of_def)

lemma touch_all_facts: "map NodeUid (touch_all now us) = us" "list_all bare (touch_all now us)"
  "list_all (\<lambda>n. edges_of n = []) (touch_all now us)"
proof -
  show "map NodeUid (touch_all now us) = us"
    by (rule nth_equalityI) (simp_all add: touch_all_def)
  show "list_all bare (touch_all now us)"
    by (simp add: touch_all_def list_all_iff)
  show "list_all (\<lambda>n. edges_of n = []) (touch_all now us)"
    by (simp add: touch_all_def list_all_iff touched_node_def edges_of_def)
qed

lemma links_linked: "links (linked_node p t (map (\<lambda>u. touched_node u t) us)) = map (Pair p) us"
  by (simp add: links_def)

lemma links_incoming: "set (concat (map links (incoming_update t nodes srcs))) = set (named_uids srcs) \<times> set nodes"
  by (auto simp: incoming_update_def links_linked)

lemma links_outgoing: "set (concat (map links (outgoing_update t nodes dests))) = set nodes \<times> set (named_uids dests)"
  by (auto simp: outgoing_update_def named_uids_def links_linked)

text \<open>
  Property C23. Updating edges changes exactly the requested edges: the mutation names an edge
  from every incoming node to every subject and from every subject to every outgoing node,
  and no others; it carries no field but the modification times; and a removal is followed,
  if it succeeds, by one more mutation that sets the modification time of each named node
  once and adds no edge.
\<close>

theorem UpdateEdges_exact:
  "set (concat (map links (edge_update now nodes srcs dests))) =
     set (named_uids srcs) \<times> set nodes \<union> set nodes \<times> set (named_uids dests)
   \<and> list_all bare (edge_update now nodes srcs dests)
   \<and> UpdateEdges now tnow D utype (Some nodes) srcs dests w =
      (let r = apply_mutation D (database w) utype (NodeList (map Some (edge_update now nodes srcs dests)));
           touched = touch_all (\<lambda>i. now (i + 2)) (nodes @ named_uids srcs @ named_uids dests);
           r2 = apply_mutation D (fst r) ADD (NodeList (map Some touched))
       in if snd r = None then (w\<lparr>database := fst r\<rparr>, Inr (db_failed tnow))
          else if utype = DELETE
          then (w\<lparr>database := fst r2\<rparr>, Inr (if snd r2 = None then db_failed tnow else (empty_response tnow, False)))
          else (w\<lparr>database := fst r\<rparr>, Inr (empty_response tnow, False)))
   \<and> map NodeUid (touch_all now us) = us \<and> list_all (\<lambda>n. edges_of n = []) (touch_all now us)"
proof (intro conjI touch_all_facts)
  show "set (concat (map links (edge_update now nodes srcs dests))) =
     set (named_uids srcs) \<times> set nodes \<union> set nodes \<times> set (named_uids dests)"
    by (simp only: edge_update_def map_append concat_append set_append links_incoming links_outgoing)
  show "list_all bare (edge_update now nodes srcs dests)"
    by (auto simp: edge_update_def incoming_update_def outgoing_update_def list_all_iff)
qed (simp add: UpdateEdges_def edge_update_eq act_simps Let_def del: One_nat_def)

end
