(* ===== verification/Api.thy ===== *)
theory Api
  imports UpsertProps
begin

text \<open>
  The handler layer of \<open>api/\<close>: what a handler gets from its environment, how it binds a
  request and seals a response, and the authentication, administration and health
  handlers. A reply is the Go value that is marshalled; a handler error carries a status
  code. Writing a handler as an action keeps the order of its effects: what it did before a
  panic or an error stays done.
\<close>

section \<open>Environment\<close>

text \<open>The bodies as \<open>json.Unmarshal\<close> decodes them, \<open>None\<close> when it reports an error.\<close>

record decoders =
  dec_login :: "string \<Rightarrow> LoginRequest option"
  dec_create_user :: "string \<Rightarrow> CreateUserRequest option"
  dec_users :: "string \<Rightarrow> UsersRequest option"
  dec_query :: "string \<Rightarrow> QueryRequest option"
  dec_update :: "string \<Rightarrow> UpdateNodesRequest option"
  dec_create :: "string \<Rightarrow> CreateNodesRequest option"
  dec_edges :: "string \<Rightarrow> EdgesRequest option"
  dec_share :: "string \<Rightarrow> ShareNodesRequest option"
  dec_user_node :: "string \<Rightarrow> UserNodeRequest option"

record 'd env =
  cry :: crypto
  rtm :: runtime
  go_quote :: "string \<Rightarrow> string"
  clock :: "nat \<Rightarrow> time"
  server_time :: time
  unix_now :: int
  nano_now :: int
  random :: "nat \<Rightarrow> entropy"
  grant_order :: "(string \<times> bool) list \<Rightarrow> (string \<times> bool) list"
  dbase :: "'d dgraph"
  decs :: decoders
  conf_get :: "string \<Rightarrow> string"
  secret_key :: string
  token_expiry :: int

datatype reply =
    CoggedBody CoggedResponse
  | UserBody UserResponse
  | TokenBody TokenResponse
  | MapBody "(string \<times> string) list"
  | EmptyBody

datatype api_error = APIError string int

type_synonym 'd handler = "('d, api_error + reply) act"

definition fail :: "string \<Rightarrow> int \<Rightarrow> 'd handler" where
  "fail info code = act_return (Inl (APIError info code))"

definition not_found :: "'d handler" where
  "not_found = fail ''not found'' 404"

text \<open>Binding reads the sessions, because permission checks ask for grants.\<close>

definition bind_then :: "(usm \<Rightarrow> (bind_error + 'r) go) \<Rightarrow> ('r \<Rightarrow> 'd handler) \<Rightarrow> 'd handler" where
  "bind_then b k =
     act_bind (read_world (\<lambda>w. b (sessions w))) (\<lambda>g. act_bind (act_go g) (\<lambda>r.
       case r of Inl (BindError info) \<Rightarrow> fail info 400 | Inr x \<Rightarrow> k x))"

text \<open>\<open>MarshalJSON\<close> seals and filters a response before it is marshalled.\<close>

definition reply_cogged :: "'d env \<Rightarrow> UserAuthData \<Rightarrow> CoggedResponse \<Rightarrow> 'd handler" where
  "reply_cogged E uad cr =
     act_bind (read_world (\<lambda>w. CoggedResponse_AuthzDataPack (cry E) (sessions w) uad cr)) (\<lambda>g.
       act_bind (act_go g) (\<lambda>r. act_return (Inr (CoggedBody r))))"

text \<open>Without a caller only a response with nothing to seal gets through.\<close>

definition nothing_to_seal :: "CoggedResponse \<Rightarrow> bool" where
  "nothing_to_seal cr \<longleftrightarrow>
     ResultNodes cr \<in> {None, Some []} \<and> ResultUsers cr \<in> {None, Some []} \<and> CreatedNodes cr \<in> {None, Some []}"

definition reply_cogged_opt :: "'d env \<Rightarrow> UserAuthData option \<Rightarrow> CoggedResponse \<Rightarrow> 'd handler" where
  "reply_cogged_opt E uad cr =
     (case uad of
        Some u \<Rightarrow> reply_cogged E u cr
      | None \<Rightarrow> act_go (if nothing_to_seal cr then Inr (Inr (CoggedBody cr)) else Inl NilDeref))"

definition reply_user :: "'d env \<Rightarrow> UserAuthData \<Rightarrow> UserResponse \<Rightarrow> 'd handler" where
  "reply_user E uad ur = act_return (Inr (UserBody (UserResponse_AuthzDataPack (cry E) uad ur)))"

definition db_query :: "'d env \<Rightarrow> 'd world \<Rightarrow> string \<Rightarrow> vars \<Rightarrow> graph_node option list option option" where
  "db_query E w q vs = run_nodes (dbase E) (database w) q vs"

lemma bind_then_apply [act_simps]:
  "bind_then b k w =
     (case b (sessions w) of
        Inl p \<Rightarrow> (w, Inl p)
      | Inr (Inl (BindError info)) \<Rightarrow> (w, Inr (Inl (APIError info 400)))
      | Inr (Inr x) \<Rightarrow> k x w)"
  by (auto simp: bind_then_def act_simps fail_def split: sum.split bind_error.split)

lemma reply_cogged_apply [act_simps]:
  "reply_cogged E uad cr w =
     (w, go_bind (CoggedResponse_AuthzDataPack (cry E) (sessions w) uad cr) (\<lambda>r. Inr (Inr (CoggedBody r))))"
  by (cases "CoggedResponse_AuthzDataPack (cry E) (sessions w) uad cr")
    (simp_all add: reply_cogged_def act_simps)

lemma reply_user_apply [act_simps]:
  "reply_user E uad ur w = (w, Inr (Inr (UserBody (UserResponse_AuthzDataPack (cry E) uad ur))))"
  by (simp add: reply_user_def act_simps)

lemma fail_apply [act_simps]: "fail info code w = (w, Inr (Inl (APIError info code)))"
  by (simp add: fail_def act_simps)

section \<open>Health\<close>

definition HealthAPI_HandleRequest :: "string \<Rightarrow> string \<Rightarrow> string \<Rightarrow> UserAuthData option \<Rightarrow> 'd handler" where
  "HealthAPI_HandleRequest handlerKey param body uad = act_return (Inr (MapBody [(''status'', ''ok'')]))"

section \<open>Administration\<close>

definition hash_new_password :: "crypto \<Rightarrow> entropy \<Rightarrow> graph_user \<Rightarrow> api_error + graph_user" where
  "hash_new_password C rnd u =
     (case PasswordHash (uattrs u) of
        None \<Rightarrow> Inr u
      | Some pw \<Rightarrow>
          if 0 < length pw then
            if length pw \<le> MIN_USER_PASS_LENGTH then Inl (APIError ''password does not meet min length'' 400)
            else Inr (GraphUser ((uattrs u)\<lparr>PasswordHash := Some (GeneratePasswordHash C rnd pw)\<rparr>) (Nodes u) (Shared u))
          else Inr u)"

text \<open>A null entry panics, an invalid entry ends the loop; each password has its own salt.\<close>

primrec prepareUsersForUpdate ::
    "crypto \<Rightarrow> (nat \<Rightarrow> entropy) \<Rightarrow> nat \<Rightarrow> graph_user option list \<Rightarrow> (api_error + graph_user option list) go" where
  "prepareUsersForUpdate C rnd i [] = Inr (Inr [])"
| "prepareUsersForUpdate C rnd i (up # us) =
     go_bind (deref up) (\<lambda>u.
       if \<not> ValidateUid (UserUid u) then Inr (Inl (APIError ''bad uid'' 400))
       else (case hash_new_password C (rnd i) u of
          Inl e \<Rightarrow> Inr (Inl e)
        | Inr v \<Rightarrow> go_bind (prepareUsersForUpdate C rnd (Suc i) us) (\<lambda>r.
            case r of Inl e \<Rightarrow> Inr (Inl e) | Inr vs \<Rightarrow> Inr (Inr (Some v # vs)))))"

definition new_user :: "crypto \<Rightarrow> entropy \<Rightarrow> CreateUserRequest \<Rightarrow> graph_user" where
  "new_user C rnd r =
     GraphUser \<lparr>Uid = ''newuser'', DgraphType = [], AuthzData = [], Username = Some (CU_Username r),
       PasswordHash = Some (GeneratePasswordHash C rnd (CU_Password r)), UData = CU_UserData r,
       InternalData = CU_Internal r, URole = Some (CU_Role r)\<rparr> None None"

definition AdminAPI_HandleRequest :: "'d env \<Rightarrow> string \<Rightarrow> string \<Rightarrow> string \<Rightarrow> UserAuthData option \<Rightarrow> 'd handler" where
  "AdminAPI_HandleRequest E handlerKey param body uad =
     (if handlerKey = ''PUT user'' then
        bind_then (\<lambda>s. BindToRequest CreateUserRequest_AuthzDataUnpack CreateUserRequest_Validate
            (dec_create_user (decs E) body) \<lparr>UAD = uad, RequiredPermissions = []\<rparr>) (\<lambda>r.
          act_bind (UpsertUsers (cry E) (server_time E) (dbase E) [Some (new_user (cry E) (random E 0) r)]) (\<lambda>res.
            reply_cogged_opt E uad (fst res)))
      else if handlerKey = ''PATCH users'' then
        bind_then (\<lambda>s. BindToRequest UsersRequest_AuthzDataUnpack UsersRequest_Validate
            (dec_users (decs E) body) \<lparr>UAD = uad, RequiredPermissions = []\<rparr>) (\<lambda>r.
          act_bind (act_go (go_bind (deref (UR_Users r)) (prepareUsersForUpdate (cry E) (random E) 0))) (\<lambda>p.
            case p of
              Inl e \<Rightarrow> act_return (Inl e)
            | Inr us \<Rightarrow>
                act_bind (UpsertUsers (cry E) (server_time E) (dbase E) us) (\<lambda>res.
                  reply_cogged_opt E uad (fst res))))
      else not_found)"

section \<open>Authentication\<close>

definition getTokenExpiry :: "string \<Rightarrow> int" where
  "getTokenExpiry confTime = (case parse_int confTime of None \<Rightarrow> 600 | Some t \<Rightarrow> if t \<le> 0 then 600 else t)"

definition newTokenId :: "entropy \<Rightarrow> string" where
  "newTokenId rnd = B64Encode (GenerateRandomBytes rnd 3)"

definition tokenResponse :: "'d env \<Rightarrow> string \<Rightarrow> string \<Rightarrow> string \<Rightarrow> TokenResponse" where
  "tokenResponse E uid role tokenId =
     \<lparr>Token = ConstructToken (cry E) uid role tokenId (dec_of_int (unix_now E)) (secret_key E), Expires = token_expiry E\<rparr>"

text \<open>
  The check of the credentials: a user without a stored hash panics. The role is read only
  after the session has been recorded.
\<close>

definition valid_login :: "crypto \<Rightarrow> string \<Rightarrow> UserResponse \<times> bool \<Rightarrow> bool go" where
  "valid_login C password res =
     (if snd res \<or> RUser (fst res) = None then Inr False
      else go_bind (deref (PasswordHash (uattrs (the (RUser (fst res)))))) (\<lambda>h. Inr (VerifyPasswordHash C h password)))"

definition handle_login :: "'d env \<Rightarrow> string \<Rightarrow> UserAuthData option \<Rightarrow> 'd handler" where
  "handle_login E body uad =
     bind_then (\<lambda>s. BindToRequest LoginRequest_AuthzDataUnpack LoginRequest_Validate
         (dec_login (decs E) body) \<lparr>UAD = uad, RequiredPermissions = []\<rparr>) (\<lambda>lr.
       act_bind (QueryUser (dbase E) (LR_Username lr)) (\<lambda>res.
         act_bind (act_go (valid_login (cry E) (LR_Password lr) res)) (\<lambda>ok.
           if \<not> ok then fail ''invalid login'' 401
           else
             let user = the (RUser (fst res)); nti = newTokenId (random E 0) in
             act_bind (update_sessions (\<lambda>s. UsmAddTokenId s (UserUid user) nti)) (\<lambda>_.
               act_bind (act_go (deref (URole (uattrs user)))) (\<lambda>role.
                 act_return (Inr (TokenBody (tokenResponse E (UserUid user) role nti))))))))"

definition handle_logout :: "UserAuthData option \<Rightarrow> 'd handler" where
  "handle_logout uad =
     act_bind (act_go (deref uad)) (\<lambda>u.
       act_bind (update_sessions (\<lambda>s. fst (UsmDeleteTokenId s (UadUid u) (UadTokenId u)))) (\<lambda>_.
         act_return (Inr EmptyBody)))"

definition handle_refresh :: "'d env \<Rightarrow> UserAuthData option \<Rightarrow> 'd handler" where
  "handle_refresh E uad =
     act_bind (act_go (deref uad)) (\<lambda>u.
       act_return (Inr (TokenBody (tokenResponse E (UadUid u) (UadRole u) (UadTokenId u)))))"

definition AuthAPI_HandleRequest :: "'d env \<Rightarrow> string \<Rightarrow> string \<Rightarrow> string \<Rightarrow> UserAuthData option \<Rightarrow> 'd handler" where
  "AuthAPI_HandleRequest E handlerKey param body uad =
     (if handlerKey = ''POST login'' then handle_login E body uad
      else if handlerKey = ''POST logout'' then handle_logout uad
      else if handlerKey = ''GET refresh'' then handle_refresh E uad
      else if handlerKey = ''GET check'' then act_return (Inr EmptyBody)
      else if handlerKey = ''GET clientconfig'' then
        act_return (Inr (MapBody [(''config'', conf_get E ''client.config'')]))
      else not_found)"

end
