(* ===== verification/ApiGraph.thy ===== *)
theory ApiGraph
  imports Api
begin

text \<open>
  The graph handler of \<open>api/graph.go\<close>: queries, creation and update of nodes, and edges.
  New nodes are taken into the caller's ownership and a share group before they are
  written, and are linked below an existing node.
\<close>

section \<open>New nodes\<close>

text \<open>\<open>NodePtrDictionary\<close>: from a source uid to the node that carries its new out-edges.\<close>

definition StoreNodeOutgoingEdgeData ::
    "time \<Rightarrow> (string \<times> graph_node) list \<Rightarrow> string \<Rightarrow> string \<Rightarrow> (string \<times> graph_node) list" where
  "StoreNodeOutgoingEdgeData tnow oed srcNodeUID destNodeUID =
     (case map_of oed srcNodeUID of
        Some sn \<Rightarrow> AList.update srcNodeUID
          (GraphNode (nattrs sn) (Some (edges_of sn @ [Some (NewGraphNodeJustUID destNodeUID)])) (Owner sn)) oed
      | None \<Rightarrow> AList.update srcNodeUID
          (linked_node srcNodeUID (Some tnow) [NewGraphNodeJustUID destNodeUID]) oed)"

definition self_link :: api_error where
  "self_link = APIError ''invalid update nodes request (self link disallowed)'' 400"

text \<open>The out-edges of a new node, cut to bare uids; a link to itself is an error.\<close>

primrec strip_edges :: "string \<Rightarrow> graph_node option list \<Rightarrow> (api_error + graph_node option list) go" where
  "strip_edges uid [] = Inr (Inr [])"
| "strip_edges uid (ep # es) =
     go_bind (deref ep) (\<lambda>e.
       if NodeUid e = uid then Inr (Inl self_link)
       else go_bind (strip_edges uid es) (\<lambda>r.
         case r of Inl x \<Rightarrow> Inr (Inl x) | Inr fs \<Rightarrow> Inr (Inr (Some (NewGraphNodeJustUID (NodeUid e)) # fs))))"

definition adopt_node :: "string \<Rightarrow> string \<Rightarrow> graph_node \<Rightarrow> (api_error + graph_node) go" where
  "adopt_node owner sgi n =
     (let a = (nattrs n)\<lparr>Sgi := Some sgi\<rparr>; ow = Some (NewGraphUser owner)
      in case OutEdges n of
           None \<Rightarrow> Inr (Inr (GraphNode a None ow))
         | Some es \<Rightarrow> go_bind (strip_edges (NodeUid n) es) (\<lambda>r.
             case r of Inl x \<Rightarrow> Inr (Inl x) | Inr fs \<Rightarrow> Inr (Inr (GraphNode a (Some fs) ow))))"

primrec adopt_nodes :: "string \<Rightarrow> string \<Rightarrow> graph_node option list \<Rightarrow> (api_error + graph_node list) go" where
  "adopt_nodes owner sgi [] = Inr (Inr [])"
| "adopt_nodes owner sgi (np # ns) =
     go_bind (deref np) (\<lambda>n. go_bind (adopt_node owner sgi n) (\<lambda>r.
       case r of
         Inl x \<Rightarrow> Inr (Inl x)
       | Inr m \<Rightarrow> go_bind (adopt_nodes owner sgi ns) (\<lambda>q.
           case q of Inl x \<Rightarrow> Inr (Inl x) | Inr ms \<Rightarrow> Inr (Inr (m # ms)))))"

definition linked_uids :: "graph_node list \<Rightarrow> string list" where
  "linked_uids ns = concat (map (\<lambda>n. map (NodeUid \<circ> the) (edges_of n)) ns)"

definition root_uids :: "graph_node list \<Rightarrow> string list" where
  "root_uids ns = filter (\<lambda>u. u \<notin> set (linked_uids ns)) (map NodeUid ns)"

text \<open>
  The links from the existing node: to every new node that no other new node links to, and
  to the first one if there is none.
\<close>

definition parent_links :: "time \<Rightarrow> string \<Rightarrow> graph_node list \<Rightarrow> (string \<times> graph_node) list go" where
  "parent_links tnow parent ns =
     (if root_uids ns = []
      then go_bind (index_go ns 0) (\<lambda>n. Inr (StoreNodeOutgoingEdgeData tnow [] parent (NodeUid n)))
      else Inr (fold (\<lambda>u oed. StoreNodeOutgoingEdgeData tnow oed parent u) (root_uids ns) []))"

definition new_nodes ::
    "time \<Rightarrow> string \<Rightarrow> string \<Rightarrow> string \<Rightarrow> graph_node option list \<Rightarrow> (api_error + graph_node list) go" where
  "new_nodes tnow owner sgi parent nodes =
     go_bind (adopt_nodes owner sgi nodes) (\<lambda>r.
       case r of
         Inl x \<Rightarrow> Inr (Inl x)
       | Inr ns \<Rightarrow> go_bind (parent_links tnow parent ns) (\<lambda>oed. Inr (Inr (ns @ map snd oed))))"

section \<open>The handlers\<close>

definition handle_query :: "'d env \<Rightarrow> string \<Rightarrow> UserAuthData \<Rightarrow> 'd handler" where
  "handle_query E body uad =
     bind_then (\<lambda>s. BindToRequest (QueryRequest_AuthzDataUnpack (cry E) s) QueryRequest_Validate
         (dec_query (decs E) body) \<lparr>UAD = Some uad, RequiredPermissions = ''r''\<rparr>) (\<lambda>r.
       act_bind (read_world (\<lambda>w. QueryWithOptions (cry E) (rtm E) (server_time E) (db_query E w) r NODENODE (Some uad)
           (UsmUserAllowedSgis (grant_order E) (sessions w) (UadUid uad)))) (\<lambda>g.
         act_bind (act_go g) (reply_cogged E uad)))"

definition handle_sharedwith :: "'d env \<Rightarrow> string \<Rightarrow> UserAuthData \<Rightarrow> 'd handler" where
  "handle_sharedwith E param uad =
     act_bind (read_world (\<lambda>w. AuthzDataUnpackADString (cry E) (sessions w) param uad ''s'')) (\<lambda>tn.
       case tn of
         None \<Rightarrow> fail ''cannot view users this node ID is shared with'' 400
       | Some n \<Rightarrow>
           act_bind (QueryUsersThatNodeIsSharedWith (server_time E) (dbase E) (NodeUid n)) (\<lambda>res.
             reply_cogged E uad (fst res)))"

definition upsert :: "'d env \<Rightarrow> graph_node option list option \<Rightarrow> ('d, CoggedResponse \<times> bool) act" where
  "upsert E nodes = UpsertNodes (cry E) (go_quote E) (clock E) (server_time E) (dbase E) nodes"

definition handle_update :: "'d env \<Rightarrow> string \<Rightarrow> UserAuthData \<Rightarrow> 'd handler" where
  "handle_update E body uad =
     bind_then (\<lambda>s. BindToRequest (UpdateNodesRequest_AuthzDataUnpack (cry E) s) UpdateNodesRequest_Validate
         (dec_update (decs E) body) \<lparr>UAD = Some uad, RequiredPermissions = ''w''\<rparr>) (\<lambda>r.
       act_bind (upsert E (UP_Nodes r)) (\<lambda>res. reply_cogged E uad (fst res)))"

definition new_sgi :: "'d env \<Rightarrow> CreateNodesRequest \<Rightarrow> graph_node \<Rightarrow> string go" where
  "new_sgi E r parent =
     (if CN_ResetSgi r then Inr (GenerateSgi (nano_now E) (random E 0)) else deref (Sgi (nattrs parent)))"

definition handle_create :: "'d env \<Rightarrow> string \<Rightarrow> string \<Rightarrow> UserAuthData \<Rightarrow> 'd handler" where
  "handle_create E param body uad =
     act_bind (read_world (\<lambda>w. AuthzDataUnpackADString (cry E) (sessions w) param uad ''o'')) (\<lambda>tn.
       case tn of
         None \<Rightarrow> fail ''invalid create nodes parent ID'' 400
       | Some parent \<Rightarrow>
           bind_then (\<lambda>s. BindToRequest CreateNodesRequest_AuthzDataUnpack CreateNodesRequest_Validate
               (dec_create (decs E) body) \<lparr>UAD = Some uad, RequiredPermissions = ''o''\<rparr>) (\<lambda>r.
             act_bind (act_go (go_bind (new_sgi E r parent) (\<lambda>sgi. go_bind (deref (CN_Nodes r))
                 (new_nodes (clock E 0) (UadUid uad) sgi (NodeUid parent))))) (\<lambda>p.
               case p of
                 Inl x \<Rightarrow> act_return (Inl x)
               | Inr ns \<Rightarrow> act_bind (upsert E (Some (map Some ns))) (\<lambda>res. reply_cogged E uad (fst res)))))"

definition handle_edges :: "'d env \<Rightarrow> UpdateType \<Rightarrow> string \<Rightarrow> UserAuthData \<Rightarrow> 'd handler" where
  "handle_edges E utype body uad =
     bind_then (\<lambda>s. edges_bind (cry E) s (dec_edges (decs E) body) uad) (\<lambda>r.
       act_bind (case utype of
           ADD \<Rightarrow> AddNodeEdges (clock E) (server_time E) (dbase E) (ER_SubjectIds r) (ER_IncomingIds r) (ER_OutgoingIds r)
         | DELETE \<Rightarrow> RemoveNodeEdges (clock E) (server_time E) (dbase E) (ER_SubjectIds r) (ER_IncomingIds r) (ER_OutgoingIds r))
         (\<lambda>res. reply_cogged E uad (fst res)))"

definition GraphAPI_HandleRequest :: "'d env \<Rightarrow> string \<Rightarrow> string \<Rightarrow> string \<Rightarrow> UserAuthData option \<Rightarrow> 'd handler" where
  "GraphAPI_HandleRequest E handlerKey param body uadp =
     act_bind (act_go (deref uadp)) (\<lambda>uad.
       if handlerKey = ''POST nodes'' then handle_query E body uad
       else if handlerKey = ''GET sharedwith'' then handle_sharedwith E param uad
       else if handlerKey = ''PATCH nodes'' then handle_update E body uad
       else if handlerKey = ''PUT nodes'' then handle_create E param body uad
       else if handlerKey = ''PUT edges'' then handle_edges E ADD body uad
       else if handlerKey = ''PATCH edges'' then handle_edges E DELETE body uad
       else not_found)"

end
