(* ===== verification/ApiUser.thy ===== *)
theory ApiUser
  imports ApiGraph
begin

text \<open>
  The user handler of \<open>api/user.go\<close>: a user's own nodes, the nodes shared with a user,
  sharing and its revocation, and the lookup of users. Sharing grants the share groups of
  the shared nodes to the target users in the session manager.
\<close>

section \<open>Grants for shared nodes\<close>

text \<open>
  The share groups of the nodes a user does not own and may read. A node without a read bit
  panics when its owner is not the user.
\<close>

primrec shared_sgis :: "string \<Rightarrow> graph_node option list \<Rightarrow> string list go" where
  "shared_sgis uid [] = Inr []"
| "shared_sgis uid (np # ns) =
     go_bind (deref np) (\<lambda>n.
       if owner_is uid n then shared_sgis uid ns
       else go_bind (deref (PermRead (nattrs n))) (\<lambda>r. go_bind (shared_sgis uid ns) (\<lambda>gs.
         Inr (case Sgi (nattrs n) of Some g \<Rightarrow> if r then List.insert g gs else gs | None \<Rightarrow> gs))))"

definition sgi_list :: "'d env \<Rightarrow> string list \<Rightarrow> string" where
  "sgi_list E gs = concat (map (\<lambda>g. g @ '','') (map_order (rtm E) gs))"

definition UpdateAllowListSharedSgis ::
    "'d env \<Rightarrow> bool \<Rightarrow> string \<Rightarrow> graph_node option list \<Rightarrow> ('d, unit) act" where
  "UpdateAllowListSharedSgis E allow uid ns =
     act_bind (act_go (shared_sgis uid ns)) (\<lambda>gs.
       let l = sgi_list E gs in
       if l \<noteq> [] then update_sessions (\<lambda>s. if allow then UsmUserAllowlistSgi s uid l else UsmUserRevokeSgi s uid l)
       else act_return ())"

definition AllowListSharedSgis where
  "AllowListSharedSgis E = UpdateAllowListSharedSgis E True"

definition RevokeSharedSgis where
  "RevokeSharedSgis E = UpdateAllowListSharedSgis E False"

section \<open>Users\<close>

definition canAccessUser :: "string \<Rightarrow> graph_user \<Rightarrow> bool go" where
  "canAccessUser role dbuser =
     (if role = SYS_ROLE then Inr True
      else go_bind (deref (URole (uattrs dbuser))) (\<lambda>r. Inr (r \<noteq> SYS_ROLE)))"

definition ReturnUserDTO :: "graph_user \<Rightarrow> graph_user" where
  "ReturnUserDTO dbuser =
     (let a = uattrs dbuser; u = NewGraphUser []
      in GraphUser ((uattrs u)\<lparr>Uid := Uid a, Username := Username a, URole := URole a, UData := UData a\<rparr>)
           (Nodes u) (Shared u))"

definition reply_found_user :: "'d env \<Rightarrow> UserAuthData \<Rightarrow> UserResponse \<Rightarrow> 'd handler" where
  "reply_found_user E uad ur =
     (case RUser ur of
        None \<Rightarrow> fail (UError ur) 404
      | Some u \<Rightarrow> act_bind (act_go (canAccessUser (UadRole uad) u)) (\<lambda>ok.
          if ok then reply_user E uad (ur\<lparr>RUser := Some (ReturnUserDTO u)\<rparr>) else fail (UError ur) 404))"

section \<open>Own and shared nodes\<close>

definition handle_user_node :: "'d env \<Rightarrow> string \<Rightarrow> UserAuthData \<Rightarrow> 'd handler" where
  "handle_user_node E body uad =
     bind_then (\<lambda>s. BindToRequest UserNodeRequest_AuthzDataUnpack UserNodeRequest_Validate
         (dec_user_node (decs E) body) \<lparr>UAD = Some uad, RequiredPermissions = []\<rparr>) (\<lambda>r.
       act_bind (act_go (deref (UN_Node r))) (\<lambda>n.
         let node = GraphNode ((nattrs n)\<lparr>Sgi := Some (GenerateSgi (nano_now E) (random E 0))\<rparr>) (OutEdges n) (Owner n) in
         act_bind (UpsertUserNode (server_time E) (dbase E) node (UadUid uad)) (\<lambda>res. reply_cogged E uad (fst res))))"

definition own_edge_type :: "string \<Rightarrow> EdgeType option" where
  "own_edge_type param =
     (if param = ''shared'' then Some USERSHARE else if param = ''own'' then Some USERNODE else None)"

text \<open>The request as it is after the handler has set its root, and only its root.\<close>

definition scoped_query :: "UserAuthData \<Rightarrow> QueryRequest \<Rightarrow> QueryRequest" where
  "scoped_query uad r = r\<lparr>RootIDs := [UadUid uad], RootQuery := None, Depth := 1\<rparr>"

definition result_list :: "CoggedResponse \<Rightarrow> graph_node option list" where
  "result_list cr = (case ResultNodes cr of None \<Rightarrow> [] | Some ns \<Rightarrow> ns)"

definition handle_user_nodes :: "'d env \<Rightarrow> string \<Rightarrow> string \<Rightarrow> UserAuthData \<Rightarrow> 'd handler" where
  "handle_user_nodes E param body uad =
     (case own_edge_type param of
        None \<Rightarrow> fail ''invalid edge type'' 400
      | Some et \<Rightarrow>
          bind_then (\<lambda>s. BindToRequest (QueryRequest_AuthzDataUnpack (cry E) s) QueryRequest_Validate
              (dec_query (decs E) body) \<lparr>UAD = Some uad, RequiredPermissions = []\<rparr>) (\<lambda>r.
            act_bind (read_world (\<lambda>w. QueryWithOptions (cry E) (rtm E) (server_time E) (db_query E w)
                (scoped_query uad r) et (Some uad) [])) (\<lambda>g. act_bind (act_go g) (\<lambda>cr.
              act_bind (if param = ''shared'' \<and> \<not> IsAdmin uad
                        then AllowListSharedSgis E (UadUid uad) (result_list cr) else act_return ()) (\<lambda>_.
                reply_cogged E uad cr)))))"

section \<open>Sharing\<close>

text \<open>
  The uids of the target users. An unpacked AD of another kind is a nil user, whose role
  panics; a system user is reported as not found.
\<close>

primrec share_targets :: "int \<Rightarrow> string list \<Rightarrow> (api_error + string list) go" where
  "share_targets code [] = Inr (Inr [])"
| "share_targets code (ads # rest) =
     go_bind (deref (GraphUserFromUnpackedAD ads)) (\<lambda>u. go_bind (deref (URole (uattrs u))) (\<lambda>role.
       if role = SYS_ROLE then Inr (Inl (APIError ''user not found'' code))
       else go_bind (share_targets code rest) (\<lambda>r.
         case r of Inl x \<Rightarrow> Inr (Inl x) | Inr us \<Rightarrow> Inr (Inr (UserUid u # us)))))"

definition handle_share :: "'d env \<Rightarrow> UpdateType \<Rightarrow> string \<Rightarrow> UserAuthData \<Rightarrow> 'd handler" where
  "handle_share E utype body uad =
     bind_then (\<lambda>s. BindToRequest (ShareNodesRequest_AuthzDataUnpack (cry E) s) ShareNodesRequest_Validate
         (dec_share (decs E) body) \<lparr>UAD = Some uad, RequiredPermissions = ''s''\<rparr>) (\<lambda>r.
       act_bind (act_go (go_bind (deref (SN_Users r)) (share_targets (if utype = ADD then 404 else 400)))) (\<lambda>t.
         case t of
           Inl x \<Rightarrow> act_return (Inl x)
         | Inr us \<Rightarrow>
             act_bind (UpdateUserShareEdges (server_time E) (dbase E) (SN_Nodes r) (Some us) utype) (\<lambda>res.
               act_bind (act_each (\<lambda>u. (if utype = ADD then AllowListSharedSgis else RevokeSharedSgis) E u
                   (map Some (SN_UnpackedNodes r))) us) (\<lambda>_.
                 reply_cogged E uad (fst res)))))"

definition handle_name :: "'d env \<Rightarrow> string \<Rightarrow> UserAuthData \<Rightarrow> 'd handler" where
  "handle_name E param uad = act_bind (QueryUser (dbase E) param) (\<lambda>res. reply_found_user E uad (fst res))"

definition handle_uid :: "'d env \<Rightarrow> string \<Rightarrow> UserAuthData \<Rightarrow> 'd handler" where
  "handle_uid E param uad =
     (if \<not> ValidateUid param then fail ''invalid uid'' 400
      else act_bind (QueryUserByUid (dbase E) param False) (\<lambda>res. reply_found_user E uad (fst res)))"

definition UserAPI_HandleRequest :: "'d env \<Rightarrow> string \<Rightarrow> string \<Rightarrow> string \<Rightarrow> UserAuthData option \<Rightarrow> 'd handler" where
  "UserAPI_HandleRequest E handlerKey param body uadp =
     act_bind (act_go (deref uadp)) (\<lambda>uad.
       if handlerKey = ''PUT node'' then handle_user_node E body uad
       else if handlerKey = ''POST nodes'' then handle_user_nodes E param body uad
       else if handlerKey = ''PUT share'' then handle_share E ADD body uad
       else if handlerKey = ''PATCH share'' then handle_share E DELETE body uad
       else if handlerKey = ''GET name'' then handle_name E param uad
       else if handlerKey = ''GET uid'' then handle_uid E param uad
       else not_found)"

end
