(* ===== verification/Server.thy ===== *)
theory Server
  imports ApiUser
begin

text \<open>
  The HTTP handler of \<open>cmd/cogged/main.go\<close>: the checks of the content type, the route, the
  token and the route group, and the dispatch to the handlers. A request is what the
  \<open>net/http\<close> server hands over; a panic of a handler is recovered by that server.
\<close>

record http_request =
  hr_content_type :: "string list"
  hr_authorization :: "string list"
  hr_method :: string
  hr_path :: string
  hr_body :: string

datatype http_response =
    HttpError int string
  | HttpOk reply

type_synonym 'd serving = "('d, http_response) act"

definition status_text :: "int \<Rightarrow> string" where
  "status_text code =
     (if code = 401 then ''Unauthorized'' else if code = 404 then ''Not Found''
      else if code = 400 then ''Bad Request'' else if code = 415 then ''Unsupported Media Type''
      else if code = 500 then ''Internal Server Error'' else [])"

definition ErrorResponse :: "int \<Rightarrow> string \<Rightarrow> 'd serving" where
  "ErrorResponse code message =
     act_return (HttpError code (if length message < 1 then status_text code else message))"

definition checkTimestamp :: "'d env \<Rightarrow> string \<Rightarrow> bool" where
  "checkTimestamp E timestamp =
     (let tokenEpoch = (case parse_int timestamp of None \<Rightarrow> 0 | Some t \<Rightarrow> t)
      in sub_int64 (unix_now E) tokenEpoch < token_expiry E)"

definition allow_list :: "string list" where
  "allow_list = [''/auth/login'', ''/auth/clientconfig'', ''/health/status'']"

definition admin_list :: "string list" where
  "admin_list = [''admin'']"

definition bearer_token :: "string list \<Rightarrow> string option" where
  "bearer_token authHdr =
     (case authHdr of
        [h] \<Rightarrow> if has_prefix h ''Bearer '' then Some (split_on CHR '' '' h ! 1) else None
      | _ \<Rightarrow> None)"

text \<open>
  Who is calling: nobody when there is no valid token, or an error for an expired token,
  whose session ends, and for a token without a session.
\<close>

definition authenticate :: "'d env \<Rightarrow> string list \<Rightarrow> ('d, http_response + UserAuthData option) act" where
  "authenticate E authHdr =
     (case bearer_token authHdr of
        None \<Rightarrow> act_return (Inr None)
      | Some tok \<Rightarrow>
          (case UADFromToken (cry E) tok (secret_key E) of
             None \<Rightarrow> act_return (Inr None)
           | Some u \<Rightarrow>
               if \<not> checkTimestamp E (UadTimestamp u) then
                 act_bind (update_sessions (\<lambda>s. fst (UsmDeleteTokenId s (UadUid u) (UadTokenId u)))) (\<lambda>_.
                   act_return (Inl (HttpError 401 ''token expired'')))
               else act_bind (read_world (\<lambda>w. UsmCheckTokenId (sessions w) (UadUid u) (UadTokenId u))) (\<lambda>live.
                   act_return (if live then Inr (Some u) else Inl (HttpError 401 ''invalid token ID'')))))"

definition route_handler ::
    "'d env \<Rightarrow> string \<Rightarrow> (string \<Rightarrow> string \<Rightarrow> string \<Rightarrow> UserAuthData option \<Rightarrow> 'd handler) option" where
  "route_handler E routeGroup =
     (if routeGroup = ''health'' then Some HealthAPI_HandleRequest
      else if routeGroup = ''auth'' then Some (AuthAPI_HandleRequest E)
      else if routeGroup = ''admin'' then Some (AdminAPI_HandleRequest E)
      else if routeGroup = ''graph'' then Some (GraphAPI_HandleRequest E)
      else if routeGroup = ''user'' then Some (UserAPI_HandleRequest E)
      else None)"

definition http_result :: "api_error + reply \<Rightarrow> 'd serving" where
  "http_result r =
     (case r of
        Inl (APIError info code) \<Rightarrow> ErrorResponse (if code \<noteq> 0 then code else 500) info
      | Inr rep \<Rightarrow> act_return (HttpOk rep))"

text \<open>Splitting off the endpoint panics for a route with a single segment.\<close>

definition dispatch :: "'d env \<Rightarrow> http_request \<Rightarrow> string list \<Rightarrow> UserAuthData option \<Rightarrow> 'd serving" where
  "dispatch E req routeParts uad =
     act_bind (act_go (index_go routeParts 2)) (\<lambda>endpoint.
       let handlerKey = hr_method req @ '' '' @ endpoint;
           handlerParam = (if 3 < length routeParts then routeParts ! 3 else [])
       in case route_handler E (routeParts ! 1) of
            None \<Rightarrow> ErrorResponse 404 []
          | Some h \<Rightarrow> act_bind (h handlerKey handlerParam (hr_body req) uad) http_result)"

definition json_content :: "string list \<Rightarrow> bool" where
  "json_content ctype \<longleftrightarrow> length ctype = 1 \<and> has_prefix (hd ctype) ''application/json''"

definition serve_route :: "'d env \<Rightarrow> http_request \<Rightarrow> string \<Rightarrow> string list \<Rightarrow> 'd serving" where
  "serve_route E req path routeParts =
     act_bind (authenticate E (hr_authorization req)) (\<lambda>a.
       case a of
         Inl resp \<Rightarrow> act_return resp
       | Inr uad \<Rightarrow>
           if uad = None \<and> path \<notin> set allow_list then ErrorResponse 401 ''missing or invalid auth token''
           else if routeParts ! 1 \<in> set admin_list \<and> (case uad of None \<Rightarrow> True | Some u \<Rightarrow> \<not> IsAdmin u)
           then ErrorResponse 401 []
           else dispatch E req routeParts uad)"

definition ServeHTTP :: "'d env \<Rightarrow> http_request \<Rightarrow> 'd serving" where
  "ServeHTTP E req =
     (if \<not> json_content (hr_content_type req) then ErrorResponse 415 ''only JSON accepted''
      else
        let path = trim_space (hr_path req); routeParts = split_on CHR ''/'' path in
        if length routeParts < 2 \<or> routeParts ! 1 = [] then ErrorResponse 400 ''bad route format''
        else serve_route E req path routeParts)"

section \<open>Adding a user from the command line\<close>

text \<open>The password that is printed, an error in the flag, or the error of the database.\<close>

datatype add_user_result = BadFlag string | DbFailed | AddedUser string

definition addNewUser :: "'d env \<Rightarrow> string \<Rightarrow> ('d, add_user_result) act" where
  "addNewUser E flagValue =
     (let p = split_on CHR '','' flagValue in
      if length p < 2 then act_return (BadFlag (''value for -adduser is '' @ [CHR 0x27] @ ''username,role'' @ [CHR 0x27]))
      else
        let u = trim_space (p ! 0) in
        if length u < 1 \<or> has_prefix u ''~''
        then act_return (BadFlag ''username must be at least 1 char and cannot start with a tilde'')
        else
          let password = take 24 (B64Encode (GenerateRandomBytes (random E 0) 32));
              user = GraphUser ((uattrs (NewGraphUser ''new''))\<lparr>Username := Some u,
                PasswordHash := Some (GeneratePasswordHash (cry E) (random E 1) password), URole := Some (p ! 1)\<rparr>) None None
          in act_bind (UpsertUsers (cry E) (server_time E) (dbase E) [Some user]) (\<lambda>res.
               act_return (if snd res then DbFailed else AddedUser password)))"

section \<open>The signing key\<close>

text \<open>
  The environment variable, the readable key file of the working directory, or a random
  passphrase, in this order.
\<close>

definition loadAuthzSecretKey :: "crypto \<Rightarrow> string \<Rightarrow> string option \<Rightarrow> entropy \<Rightarrow> string" where
  "loadAuthzSecretKey C cogged_key key_file rnd =
     (let derive = (\<lambda>pass. Argon2IDKey C pass (SHA512Hash C pass))
      in if cogged_key = []
         then (case key_file of Some k \<Rightarrow> k | None \<Rightarrow> derive (GenerateGuid rnd))
         else derive cogged_key)"

definition listen_address :: "string \<Rightarrow> int \<Rightarrow> (string \<Rightarrow> string) \<Rightarrow> string" where
  "listen_address flagIP flagPort conf =
     (let host = (if flagIP \<noteq> [] then flagIP else conf ''listen.host'');
          port = (if 0 < flagPort then '':'' @ dec_of_int flagPort
                  else if conf ''listen.port'' \<noteq> [] then '':'' @ conf ''listen.port'' else '':8090'')
      in host @ port)"

end
