(* ===== verification/Setup.thy ===== *)
theory Setup
  imports Server "HOL-Library.Sublist"
begin

text \<open>
  Start-up: \<open>log/log.go\<close>, \<open>services/config.go\<close>, \<open>services/dbsetup.go\<close>, the connection and
  the schema update of \<open>services/db.go\<close>, and \<open>main\<close> and the constructors of the handlers in
  \<open>cmd/cogged/main.go\<close> and \<open>api/\<close>. The operating system and the client library of the
  database are the records \<open>host\<close> and \<open>dgraph_client\<close>. Of the log output only the line that
  \<open>main\<close> writes at start-up is part of a result.
\<close>

section \<open>Logging\<close>

text \<open>An argument is its JSON text, \<open>None\<close> for a nil argument; \<open>Println\<close> separates by spaces.\<close>

definition log_dump :: "string \<Rightarrow> string \<Rightarrow> string option list \<Rightarrow> string" where
  "log_dump timestamp msg obj =
     (let objsSerialised = concat (map (\<lambda>x. case x of None \<Rightarrow> [] | Some j \<Rightarrow> '','' @ j) obj)
      in timestamp @ '' '' @ trim_space msg @ '' '' @ objsSerialised @ [nl])"

definition log_Debug :: "string \<Rightarrow> string \<Rightarrow> string option list \<Rightarrow> string" where
  "log_Debug timestamp msg obj = log_dump timestamp (''DEBUG: '' @ msg) obj"

definition log_Info :: "string \<Rightarrow> string \<Rightarrow> string option list \<Rightarrow> string" where
  "log_Info timestamp msg obj = log_dump timestamp (''INFO: '' @ msg) obj"

definition log_Warn :: "string \<Rightarrow> string \<Rightarrow> string option list \<Rightarrow> string" where
  "log_Warn timestamp msg obj = log_dump timestamp (''WARN: '' @ msg) obj"

definition log_Error :: "string \<Rightarrow> string \<Rightarrow> string option list \<Rightarrow> string" where
  "log_Error timestamp msg obj = log_dump timestamp (''ERROR: '' @ msg) obj"

section \<open>Configuration\<close>

text \<open>A Go map that may be nil, which \<open>json.Unmarshal\<close> yields for the file \<open>null\<close>.\<close>

type_synonym config = "(string \<times> string) list option"

definition config_entries :: "config \<Rightarrow> (string \<times> string) list" where
  "config_entries c = (case c of None \<Rightarrow> [] | Some m \<Rightarrow> m)"

definition Config_Get :: "config \<Rightarrow> string \<Rightarrow> string" where
  "Config_Get c key = (case map_of (config_entries c) key of None \<Rightarrow> [] | Some v \<Rightarrow> v)"

record 'd host =
  getenv :: "string \<Rightarrow> string"
  getwd :: "string option"
  executable :: "string option"
  file_exists :: "string \<Rightarrow> bool"
  read_file :: "string \<Rightarrow> string option"
  unmarshal_config :: "string \<Rightarrow> config option"
  marshal_config :: "config \<Rightarrow> string"
  dgraph_open :: "string \<Rightarrow> 'd option"
  log_time :: string

datatype startup_panic = NoConfigFile | ConfigUnreadable | ConfigNotJSON | NilMapWrite | NoDatabase

definition CONFIG_FILE_NAME :: string where
  "CONFIG_FILE_NAME = ''cogged.conf.json''"

text \<open>\<open>filepath.Dir\<close> on a Unix system: what precedes the last separator, cleaned.\<close>

fun clean_step :: "bool \<Rightarrow> string \<Rightarrow> string list \<Rightarrow> string list" where
  "clean_step rooted c st =
     (if c = [] \<or> c = ''.'' then st
      else if c = ''..'' then
        (case st of [] \<Rightarrow> if rooted then [] else [c] | p # ps \<Rightarrow> if p = ''..'' then c # st else ps)
      else c # st)"

definition path_clean :: "string \<Rightarrow> string" where
  "path_clean p =
     (let rooted = has_prefix p ''/'';
          parts = rev (fold (clean_step rooted) (split_on CHR ''/'' p) [])
      in if rooted then ''/'' @ join_with ''/'' parts
         else if parts = [] then ''.'' else join_with ''/'' parts)"

definition path_dir :: "string \<Rightarrow> string" where
  "path_dir p = path_clean (rev (dropWhile (\<lambda>c. c \<noteq> CHR ''/'') (rev p)))"

definition exeDirectoryConfigPath :: "'d host \<Rightarrow> string" where
  "exeDirectoryConfigPath H =
     (case executable H of None \<Rightarrow> [] | Some exePath \<Rightarrow> path_dir exePath @ ''/'' @ CONFIG_FILE_NAME)"

definition workingDirectoryConfigPath :: "'d host \<Rightarrow> string" where
  "workingDirectoryConfigPath H =
     (case getwd H of None \<Rightarrow> [] | Some currentDir \<Rightarrow> currentDir @ ''/'' @ CONFIG_FILE_NAME)"

definition config_path :: "'d host \<Rightarrow> string \<Rightarrow> string option" where
  "config_path H cliValue =
     (if cliValue \<noteq> [] then Some cliValue
      else if getenv H ''COGGED_CONFIG_FILE'' \<noteq> [] then Some (getenv H ''COGGED_CONFIG_FILE'')
      else if file_exists H (workingDirectoryConfigPath H) then Some (workingDirectoryConfigPath H)
      else if file_exists H (exeDirectoryConfigPath H) then Some (exeDirectoryConfigPath H)
      else None)"

definition LoadConfig :: "'d host \<Rightarrow> string \<Rightarrow> startup_panic + config" where
  "LoadConfig H cliValue =
     (case config_path H cliValue of
        None \<Rightarrow> Inl NoConfigFile
      | Some path \<Rightarrow>
          (case read_file H path of
             None \<Rightarrow> Inl ConfigUnreadable
           | Some confFile \<Rightarrow>
               (case unmarshal_config H confFile of None \<Rightarrow> Inl ConfigNotJSON | Some c \<Rightarrow> Inr c)))"

section \<open>Schema\<close>

definition schema_predicates :: "string list" where
  "schema_predicates =
     [''un: string @index(trigram, term) .'', ''ph: string .'', ''us: string @index(trigram, term) .'',
      ''intd: string @index(trigram, term) .'', ''role: string @index(trigram, term) .'', ''nodes: [uid] .'',
      ''shr: [uid] @reverse .'', ''own: uid .'', ''r: bool .'', ''w: bool .'', ''o: bool .'', ''i: bool .'',
      ''d: bool .'', ''s: bool .'', ''e: [uid] @reverse .'', ''sgi: string @index(hash) .'',
      ''ty: string @index(hash) .'', ''id: string @index(trigram, term) .'', ''p: string @index(hash) .'',
      ''s1: string @index(trigram, term) .'', ''s2: string @index(term) .'', ''s3: string @index(hash) .'',
      ''s4: string @index(hash) .'', ''b:  string .'', ''n1: float .'', ''n2: float .'',
      ''c: datetime @index(hour) .'', ''m: datetime @index(hour) .'', ''t1: datetime @index(hour) .'',
      ''t2: datetime @index(hour) .'', ''g: geo @index(geo) .'',
      ''vec: float32vector @index(hnsw(metric: '' @ [CHR 0x22] @ ''cosine'' @ [CHR 0x22] @ '')) .'']"

definition user_predicates :: "string list" where
  "user_predicates = [''un'', ''ph'', ''us'', ''intd'', ''role'', ''nodes'', ''shr'']"

definition node_predicates :: "string list" where
  "node_predicates =
     [''own'', ''sgi'', ''r'', ''w'', ''o'', ''i'', ''d'', ''s'', ''e'', ''ty'', ''id'', ''p'', ''s1'', ''s2'',
      ''s3'', ''s4'', ''b'', ''n1'', ''n2'', ''c'', ''m'', ''t1'', ''t2'', ''g'', ''vec'']"

definition type_lines :: "string \<Rightarrow> string list \<Rightarrow> string list" where
  "type_lines name preds = [''type '' @ name @ '' {''] @ map (\<lambda>p. ''    '' @ p) preds @ [''}'']"

definition DGRAPH_SCHEMA :: string where
  "DGRAPH_SCHEMA = nl # concat (map (\<lambda>l. l @ [nl])
     (schema_predicates @ [[]] @ type_lines ''U'' user_predicates @ [[]] @ type_lines ''N'' node_predicates))"

definition GetDgraphSchemaVersionString :: "crypto \<Rightarrow> string" where
  "GetDgraphSchemaVersionString C = ''cdsv_'' @ take 8 (MD5SumHex C DGRAPH_SCHEMA)"

definition CreateLatestSchema :: "crypto \<Rightarrow> string" where
  "CreateLatestSchema C = GetDgraphSchemaVersionString C @ '': string .'' @ [nl] @ DGRAPH_SCHEMA"

section \<open>The database connection\<close>

datatype operation = AlterSchema string | DropAllData

text \<open>\<open>None\<close> is an error of the client library; \<open>alter\<close> says whether there was one.\<close>

record 'd dgraph_client =
  query_plain :: "'d \<Rightarrow> string \<Rightarrow> string option"
  query_with_vars :: "'d \<Rightarrow> string \<Rightarrow> vars \<Rightarrow> string option"
  alter :: "'d \<Rightarrow> operation \<Rightarrow> 'd \<times> bool"

definition DB_Query :: "'d dgraph_client \<Rightarrow> 'd \<Rightarrow> string \<Rightarrow> vars option \<Rightarrow> string option" where
  "DB_Query cl d query vs =
     (case vs of Some v \<Rightarrow> query_with_vars cl d query v | None \<Rightarrow> query_plain cl d query)"

definition dgraphConnString :: "config \<Rightarrow> string" where
  "dgraphConnString conf =
     (let cs = Config_Get conf ''db.connstr'' in
      if cs \<noteq> [] then cs
      else ''dgraph://'' @ Config_Get conf ''db.host'' @ '':'' @ Config_Get conf ''db.port'' @ ''?sslmode=disable'')"

text \<open>A failing schema query, and a failing update, are logged and otherwise ignored.\<close>

definition MaybeUpdateSchema :: "crypto \<Rightarrow> 'd dgraph_client \<Rightarrow> 'd \<Rightarrow> 'd" where
  "MaybeUpdateSchema C cl d =
     (let latestSchemaVersion = GetDgraphSchemaVersionString C in
      case DB_Query cl d ''schema {}'' None of
        None \<Rightarrow> d
      | Some rj \<Rightarrow>
          if \<not> sublist latestSchemaVersion rj then fst (alter cl d (AlterSchema (CreateLatestSchema C))) else d)"

definition DropAll :: "'d dgraph_client \<Rightarrow> 'd \<Rightarrow> 'd \<times> bool" where
  "DropAll cl d = alter cl d DropAllData"

definition NewDB :: "crypto \<Rightarrow> 'd host \<Rightarrow> 'd dgraph_client \<Rightarrow> config \<Rightarrow> startup_panic + 'd" where
  "NewDB C H cl conf =
     (case dgraph_open H (dgraphConnString conf) of
        None \<Rightarrow> Inl NoDatabase
      | Some d \<Rightarrow> Inr (MaybeUpdateSchema C cl d))"

text \<open>
  The query interface of the handlers: the answer of the client library, given to the JSON
  decoder of the result type.
\<close>

definition query_interface ::
    "'d dgraph_client \<Rightarrow> (string \<Rightarrow> graph_node option list option) \<Rightarrow> (string \<Rightarrow> graph_user option list option)
     \<Rightarrow> ('d \<Rightarrow> UpdateType \<Rightarrow> payload \<Rightarrow> 'd \<times> vars option) \<Rightarrow> 'd dgraph" where
  "query_interface cl nodes_json users_json mutate =
     \<lparr>run_nodes = (\<lambda>d q vs. map_option nodes_json (DB_Query cl d q (Some vs))),
      run_users = (\<lambda>d q vs. map_option users_json (DB_Query cl d q (Some vs))),
      apply_mutation = mutate\<rparr>"

definition MakeTempKeyFromString :: "entropy \<Rightarrow> string \<Rightarrow> vars \<Rightarrow> string \<times> vars" where
  "MakeTempKeyFromString rnd s tmpkeyToGuidMap =
     (case map_of tmpkeyToGuidMap s of
        Some guid \<Rightarrow> (''_'' @ guid, tmpkeyToGuidMap)
      | None \<Rightarrow> (''_'' @ GenerateGuid rnd, AList.update s (GenerateGuid rnd) tmpkeyToGuidMap))"

section \<open>The main program\<close>

record flags =
  flagListenPort :: int
  flagListenIP :: string
  flagConfigFile :: string
  flagAddUser :: string
  flagDgraphHost :: string
  flagDgraphPort :: string

text \<open>Assigning to an entry of a nil map panics.\<close>

definition override_entry :: "string \<Rightarrow> string \<Rightarrow> config \<Rightarrow> startup_panic + config" where
  "override_entry key value conf =
     (if 0 < length value
      then (case conf of None \<Rightarrow> Inl NilMapWrite | Some m \<Rightarrow> Inr (Some (AList.update key value m)))
      else Inr conf)"

definition NewAuthAPI :: "config \<Rightarrow> string \<Rightarrow> 'd env \<Rightarrow> 'd env" where
  "NewAuthAPI conf key E =
     E\<lparr>secret_key := key, token_expiry := getTokenExpiry (Config_Get conf ''auth.tokenexpiry'')\<rparr>"

definition CreateDefaultHandler :: "config \<Rightarrow> string \<Rightarrow> 'd env \<Rightarrow> 'd env" where
  "CreateDefaultHandler conf skB64 E = (NewAuthAPI conf skB64 E)\<lparr>conf_get := Config_Get conf\<rparr>"

datatype 'd outcome =
    Crashed startup_panic
  | UserAdded "'d world \<times> add_user_result go"
  | Listening string "'d env" "'d world" string   \<comment> \<open>address, handler, shared state, start-up log line\<close>

definition key_file :: "'d host \<Rightarrow> string option" where
  "key_file H =
     (let secretKeyFilePath = (case getwd H of None \<Rightarrow> [] | Some d \<Rightarrow> d) @ ''/cogged.key''
      in if file_exists H secretKeyFilePath then read_file H secretKeyFilePath else None)"

text \<open>A question to the session manager at start-up, and the line printed with its answer.\<close>

definition UsmTest1 :: "usm \<Rightarrow> usm \<times> string" where
  "UsmTest1 s =
     (case usm_handle id s (makeMsg USM_TOKEN_GET ''uid3'' ''val3'' True) of
        (s', rv) \<Rightarrow> (s', ''ReturnVal: '' @ (case rv of None \<Rightarrow> [] | Some v \<Rightarrow> v)))"

lemma UsmTest1_start [simp]: "UsmTest1 UsmInit = (UsmInit, ''ReturnVal: '')"
  by (simp add: UsmTest1_def usm_handle_def makeMsg_def usm_token_get_def UsmInit_def)

definition start_server :: "'d host \<Rightarrow> 'd env \<Rightarrow> entropy \<Rightarrow> flags \<Rightarrow> config \<Rightarrow> 'd \<Rightarrow> 'd outcome" where
  "start_server H E rnd fl conf d =
     (let sk = loadAuthzSecretKey (cry E) (getenv H ''COGGED_KEY'') (key_file H) rnd;
          dh = CreateDefaultHandler conf (B64Encode sk) E
      in Listening (listen_address (flagListenIP fl) (flagListenPort fl) (Config_Get conf)) dh
           \<lparr>database = d, sessions = fst (UsmTest1 UsmInit)\<rparr>
           (log_Info (log_time H) ''cogged started, using config:'' [Some (marshal_config H conf)]))"

definition cogged_main :: "'d host \<Rightarrow> 'd dgraph_client \<Rightarrow> 'd env \<Rightarrow> entropy \<Rightarrow> flags \<Rightarrow> 'd outcome" where
  "cogged_main H cl E rnd fl =
     (case LoadConfig H (flagConfigFile fl) of
        Inl p \<Rightarrow> Crashed p
      | Inr conf0 \<Rightarrow>
          (case override_entry ''db.host'' (flagDgraphHost fl) conf0 of
             Inl p \<Rightarrow> Crashed p
           | Inr conf1 \<Rightarrow>
               (case override_entry ''db.port'' (flagDgraphPort fl) conf1 of
                  Inl p \<Rightarrow> Crashed p
                | Inr conf \<Rightarrow>
                    (case NewDB (cry E) H cl conf of
                       Inl p \<Rightarrow> Crashed p
                     | Inr d \<Rightarrow>
                         if 0 < length (flagAddUser fl)
                         then UserAdded (addNewUser E (flagAddUser fl) \<lparr>database = d, sessions = UsmInit\<rparr>)
                         else start_server H E rnd fl conf d))))"

end
