(* ===== verification/ApiProps.thy ===== *)
theory ApiProps
  imports Server
begin

text \<open>
  What the handlers guarantee: what sharing grants and revoking takes away, who owns newly
  created nodes, what a user lookup reveals, and what user updates write.
\<close>

section \<open>Sharing\<close>

definition shareable :: "string \<Rightarrow> graph_node option list \<Rightarrow> string set" where
  "shareable u ns =
     {g. \<exists>n. Some n \<in> set ns \<and> \<not> owner_is u n \<and> PermRead (nattrs n) = Some True \<and> Sgi (nattrs n) = Some g}"

lemma shared_sgis_set: "shared_sgis u ns = Inr gs \<Longrightarrow> set gs = shareable u ns"
proof (induction ns arbitrary: gs)
  case Nil
  then show ?case by (simp add: shareable_def)
next
  case (Cons np ns)
  then obtain n where np: "np = Some n" by (auto simp: go_bind_eq_Inr_iff)
  show ?case
  proof (cases "owner_is u n")
    case True
    with Cons np show ?thesis by (auto simp: shareable_def)
  next
    case False
    with Cons.prems np obtain r hs where r: "PermRead (nattrs n) = Some r" and hs: "shared_sgis u ns = Inr hs"
      and gs: "gs = (case Sgi (nattrs n) of Some g \<Rightarrow> if r then List.insert g hs else hs | None \<Rightarrow> hs)"
      by (auto simp: go_bind_eq_Inr_iff)
    have "set hs = shareable u ns" by (rule Cons.IH [OF hs])
    then show ?thesis using False np r gs by (auto simp: shareable_def split: option.splits)
  qed
qed

lemma shared_sgis_panics:
  "panics (shared_sgis u ns) \<longleftrightarrow> (\<exists>np \<in> set ns. case np of None \<Rightarrow> True | Some n \<Rightarrow> \<not> owner_is u n \<and> PermRead (nattrs n) = None)"
proof (induction ns)
  case (Cons np ns)
  show ?case
  proof (cases np)
    case (Some n)
    show ?thesis
      using Cons by (cases "PermRead (nattrs n)"; cases "shared_sgis u ns") (simp_all add: Some)
  qed simp
qed simp

definition plain_group :: "string \<Rightarrow> bool" where
  "plain_group g \<longleftrightarrow> g \<noteq> [] \<and> CHR '','' \<notin> set g"

lemma sgi_parts_concat:
  "list_all plain_group gs \<Longrightarrow> set (sgi_parts (concat (map (\<lambda>g. g @ '','') gs))) = set gs"
proof (induction gs)
  case (Cons g gs)
  then have g: "g \<noteq> []" "CHR '','' \<notin> set g" by (simp_all add: plain_group_def)
  have "set (split_on CHR '','' (concat (map (\<lambda>g. g @ '','') (g # gs)))) =
      insert g (set (split_on CHR '','' (concat (map (\<lambda>g. g @ '','') gs))))"
    using split_on_append [OF g(2)] by simp
  with Cons g show ?case by (auto simp: set_sgi_parts)
qed (simp add: set_sgi_parts)

lemma sgi_parts_sgi_list:
  assumes "\<And>xs. mset (map_order (rtm E) xs) = mset xs" and "list_all plain_group gs"
  shows "set (sgi_parts (sgi_list E gs)) = set gs"
proof -
  have s: "set (map_order (rtm E) gs) = set gs"
    by (metis assms(1) set_mset_mset)
  then have "list_all plain_group (map_order (rtm E) gs)"
    using assms(2) by (simp add: list_all_iff)
  from sgi_parts_concat [OF this] s show ?thesis by (simp add: sgi_list_def)
qed

lemma shared_update_sessions:
  assumes "\<And>xs. mset (map_order (rtm E) xs) = mset xs" and "shared_sgis u ns = Inr gs" and "list_all plain_group gs"
    and "(if sgi_list E gs \<noteq> [] then s' = UsmUserAllowlistSgi s u (sgi_list E gs) else s' = s)"
  shows "UsmUserCanAccessSgi s' v g \<longleftrightarrow> UsmUserCanAccessSgi s v g \<or> (v = u \<and> u \<noteq> [] \<and> g \<in> shareable u ns)"
proof (cases "sgi_list E gs = []")
  case True
  then have "set gs = {}" using sgi_parts_sgi_list [OF assms(1,3)] by (simp add: set_sgi_parts)
  with True assms shared_sgis_set [OF assms(2)] show ?thesis by simp
next
  case False
  with assms shared_sgis_set [OF assms(2)] sgi_parts_sgi_list [OF assms(1,3)] show ?thesis
    by (auto simp: usm_simps)
qed

lemma AllowListSharedSgis_apply:
  assumes "shared_sgis u ns = Inr gs"
  shows "AllowListSharedSgis E u ns w =
    (w\<lparr>sessions := (if sgi_list E gs \<noteq> [] then UsmUserAllowlistSgi (sessions w) u (sgi_list E gs) else sessions w)\<rparr>, Inr ())"
  by (simp add: AllowListSharedSgis_def UpdateAllowListSharedSgis_def assms act_simps update_sessions_def Let_def)

text \<open>
  Sharing grants exactly what it should: after the grants for a list of nodes
  have been given to a user, that user has the groups of the nodes that somebody else owns
  and whose read bit is set, in addition to the old grants; nobody else's grants change. The
  computation panics exactly on a null node or a node of another owner without a read bit.
\<close>

lemma AllowListSharedSgis_exact:
  assumes "\<And>xs. mset (map_order (rtm E) xs) = mset xs" and "list_all plain_group gs"
    and "shared_sgis u ns = Inr gs" and "AllowListSharedSgis E u ns w = (w', r)"
  shows "r = Inr () \<and> database w' = database w
    \<and> UsmUserCanAccessSgi (sessions w') v g = (UsmUserCanAccessSgi (sessions w) v g \<or> (v = u \<and> u \<noteq> [] \<and> g \<in> shareable u ns))
    \<and> panics (shared_sgis u ms) = list_ex (\<lambda>np. case np of None \<Rightarrow> True | Some n \<Rightarrow> \<not> owner_is u n \<and> PermRead (nattrs n) = None) ms"
proof -
  have a: "w' = w\<lparr>sessions := (if sgi_list E gs \<noteq> [] then UsmUserAllowlistSgi (sessions w) u (sgi_list E gs) else sessions w)\<rparr>"
    "r = Inr ()"
    using assms(4) by (simp_all add: AllowListSharedSgis_apply [OF assms(3)])
  have "UsmUserCanAccessSgi (sessions w') v g = (UsmUserCanAccessSgi (sessions w) v g \<or> (v = u \<and> u \<noteq> [] \<and> g \<in> shareable u ns))"
    by (rule shared_update_sessions [OF assms(1,3,2)]) (simp add: a)
  with a show ?thesis by (simp add: shared_sgis_panics list_ex_iff)
qed

definition no_decoders :: decoders where
  "no_decoders = \<lparr>dec_login = (\<lambda>_. None), dec_create_user = (\<lambda>_. None), dec_users = (\<lambda>_. None), dec_query = (\<lambda>_. None),
     dec_update = (\<lambda>_. None), dec_create = (\<lambda>_. None), dec_edges = (\<lambda>_. None), dec_share = (\<lambda>_. None),
     dec_user_node = (\<lambda>_. None)\<rparr>"

definition toy_env :: "unit env" where
  "toy_env = \<lparr>cry = toy_crypto, rtm = toy_runtime, go_quote = id, clock = (\<lambda>_. 5), server_time = 5, unix_now = 1700,
     nano_now = 1700000000000, random = (\<lambda>_ _. CHR ''a''), grant_order = id, dbase = answering_db [], decs = no_decoders,
     conf_get = (\<lambda>_. []), secret_key = ''c2Vj'', token_expiry = 600\<rparr>"

lemma AllowListSharedSgis_exact_witness:
  "\<exists>w'. AllowListSharedSgis toy_env ''0x2'' [Some example_packed] empty_world = (w', Inr ())
     \<and> UsmUserCanAccessSgi (sessions w') ''0x2'' ''grp1''"
proof -
  have n: "\<not> owner_is ''0x2'' example_packed"
    by (simp add: owner_is_def example_packed_fields NewGraphUser_def)
  have r: "PermRead (nattrs example_packed) = Some True"
    using example_packed_fields(5) [of "CHR ''r''"] example_packed_perms [of "CHR ''r''"]
    by (simp add: perm_set_def perm_bit_def perm_chars_def)
  have gs: "shared_sgis ''0x2'' [Some example_packed] = Inr [''grp1'']"
    by (simp add: n r example_packed_fields)
  have "mset (map_order (rtm toy_env) xs) = mset xs" for xs
    by (simp add: toy_env_def toy_runtime_def)
  moreover have "list_all plain_group [''grp1'']" by (simp add: plain_group_def)
  moreover obtain w' q where w': "AllowListSharedSgis toy_env ''0x2'' [Some example_packed] empty_world = (w', q)"
    by (cases "AllowListSharedSgis toy_env ''0x2'' [Some example_packed] empty_world")
  ultimately have "q = Inr () \<and> database w' = database empty_world \<and>
      UsmUserCanAccessSgi (sessions w') ''0x2'' ''grp1'' =
        (UsmUserCanAccessSgi (sessions empty_world) ''0x2'' ''grp1'' \<or>
         (''0x2'' = ''0x2'' \<and> ''0x2'' \<noteq> [] \<and> ''grp1'' \<in> shareable ''0x2'' [Some example_packed]))"
    using AllowListSharedSgis_exact [where E = toy_env and u = "''0x2''" and ns = "[Some example_packed]" and gs = "[''grp1'']"
        and w = empty_world and w' = w' and r = q and v = "''0x2''" and g = "''grp1''"] gs by blast
  moreover have "''grp1'' \<in> shareable ''0x2'' [Some example_packed]"
    using shared_sgis_set [OF gs] by auto
  ultimately show ?thesis using w' by auto
qed

section \<open>New nodes\<close>

definition adopted :: "string \<Rightarrow> string \<Rightarrow> graph_node \<Rightarrow> graph_node" where
  "adopted owner sgi n =
     GraphNode ((nattrs n)\<lparr>Sgi := Some sgi\<rparr>)
       (map_option (map (\<lambda>e. Some (NewGraphNodeJustUID (NodeUid (the e))))) (OutEdges n)) (Some (NewGraphUser owner))"

lemma strip_edges_ok:
  "strip_edges uid es = Inr (Inr fs) \<Longrightarrow> fs = map (\<lambda>e. Some (NewGraphNodeJustUID (NodeUid (the e)))) es"
proof (induction es arbitrary: fs)
  case (Cons ep es)
  then obtain e where e: "ep = Some e" "NodeUid e \<noteq> uid" by (auto simp: go_bind_eq_Inr_iff split: if_splits)
  with Cons.prems obtain r where r: "strip_edges uid es = Inr r" by (auto simp: go_bind_eq_Inr_iff)
  with Cons e show ?case by (cases r) auto
qed simp

lemma adopt_node_ok: "adopt_node owner sgi n = Inr (Inr m) \<Longrightarrow> m = adopted owner sgi n"
proof (cases "OutEdges n")
  case (Some es)
  assume a: "adopt_node owner sgi n = Inr (Inr m)"
  with Some obtain r where r: "strip_edges (NodeUid n) es = Inr r"
    by (auto simp: adopt_node_def Let_def go_bind_eq_Inr_iff)
  with a Some show ?thesis
    by (cases r) (auto simp: adopt_node_def adopted_def Let_def dest: strip_edges_ok)
qed (simp add: adopt_node_def adopted_def)

lemma adopt_nodes_ok:
  "adopt_nodes owner sgi ns = Inr (Inr ms) \<Longrightarrow> None \<notin> set ns \<and> ms = map (adopted owner sgi \<circ> the) ns"
proof (induction ns arbitrary: ms)
  case (Cons np ns)
  then obtain n r where n: "np = Some n" and r: "adopt_node owner sgi n = Inr r" by (auto simp: go_bind_eq_Inr_iff)
  with Cons.prems obtain m where m: "r = Inr m" by (cases r) auto
  with Cons.prems n r obtain q where q: "adopt_nodes owner sgi ns = Inr q" by (auto simp: go_bind_eq_Inr_iff)
  with Cons n r m adopt_node_ok [of owner sgi n m] show ?case by (cases q) auto
qed simp

lemma store_links:
  "us \<noteq> [] \<Longrightarrow> fold (\<lambda>u oed. StoreNodeOutgoingEdgeData t oed p u) us [] =
     [(p, linked_node p (Some t) (map NewGraphNodeJustUID us))]"
proof (induction us rule: rev_induct)
  case (snoc u us)
  then show ?case
    by (cases "us = []") (auto simp: StoreNodeOutgoingEdgeData_def linked_node_def edges_of_def)
qed simp

definition child_uids :: "graph_node list \<Rightarrow> string list" where
  "child_uids ns = (if root_uids ns = [] then [NodeUid (hd ns)] else root_uids ns)"

lemma parent_links_ok:
  "parent_links t p ns = Inr oed \<Longrightarrow> map snd oed = [linked_node p (Some t) (map NewGraphNodeJustUID (child_uids ns))]"
  using store_links [of "[NodeUid (hd ns)]" t p]
  by (auto simp: parent_links_def child_uids_def store_links go_bind_eq_Inr_iff index_go_eq_Inr_iff
      hd_conv_nth split: if_splits)

lemma new_nodes_ok:
  assumes "new_nodes t owner sgi parent nodes = Inr (Inr out)"
  shows "None \<notin> set nodes \<and> (let ms = map (adopted owner sgi \<circ> the) nodes in
     out = ms @ [linked_node parent (Some t) (map NewGraphNodeJustUID (child_uids ms))])"
proof -
  from assms obtain r where r: "adopt_nodes owner sgi nodes = Inr r" by (auto simp: new_nodes_def go_bind_eq_Inr_iff)
  with assms obtain ms where ms: "r = Inr ms" by (cases r) (auto simp: new_nodes_def)
  with assms r obtain oed where o: "parent_links t parent ms = Inr oed" and out: "out = ms @ map snd oed"
    by (auto simp: new_nodes_def go_bind_eq_Inr_iff)
  have "ms = map (adopted owner sgi \<circ> the) nodes \<and> None \<notin> set nodes"
    using adopt_nodes_ok [OF r [unfolded ms]] by blast
  with out parent_links_ok [OF o] show ?thesis by (simp add: Let_def)
qed

lemma upsert_database:
  "database (fst (upsert E (Some (map Some ns)) w)) = database w \<or>
   database (fst (upsert E (Some (map Some ns)) w)) =
     fst (apply_mutation (dbase E) (database w) ADD (NodeList (map Some (written_nodes (cry E) (clock E) ns))))"
  using UpsertNodes_char [of "cry E" "go_quote E" "clock E" "server_time E" "dbase E" "Some (map Some ns)" w "map Some ns"]
  by (auto simp: upsert_def upsert_accepted_def comp_def Let_def split: option.splits)

lemma create_nodes_payload:
  "database (fst (handle_create E param body uad w)) = database w \<or>
   (\<exists>parent req nodes sgi. AuthzDataUnpackADString (cry E) (sessions w) param uad ''o'' = Some parent
     \<and> dec_create (decs E) body = Some req \<and> CreateNodesRequest_Validate req \<and> CN_Nodes req = Some nodes
     \<and> new_sgi E req parent = Inr sgi
     \<and> database (fst (handle_create E param body uad w)) =
         fst (apply_mutation (dbase E) (database w) ADD (NodeList (map Some (written_nodes (cry E) (clock E)
           (let ms = map (adopted (UadUid uad) sgi \<circ> the) nodes in
            ms @ [linked_node (NodeUid parent) (Some (clock E 0)) (map NewGraphNodeJustUID (child_uids ms))]))))))"
  (is "?same \<or> ?changed")
proof (cases "AuthzDataUnpackADString (cry E) (sessions w) param uad ''o''")
  case None
  then show ?thesis by (simp add: handle_create_def act_simps)
next
  case (Some parent)
  define b where "b = BindToRequest CreateNodesRequest_AuthzDataUnpack CreateNodesRequest_Validate
      (dec_create (decs E) body) \<lparr>UAD = Some uad, RequiredPermissions = ''o''\<rparr>"
  define k where "k r = go_bind (new_sgi E r parent) (\<lambda>sgi. go_bind (deref (CN_Nodes r))
                 (new_nodes (clock E 0) (UadUid uad) sgi (NodeUid parent)))" for r
  have h: "handle_create E param body uad w = bind_then (\<lambda>s. b) (\<lambda>r. act_bind (act_go (k r)) (\<lambda>p.
      case p of Inl x \<Rightarrow> act_return (Inl x)
      | Inr ns \<Rightarrow> act_bind (upsert E (Some (map Some ns))) (\<lambda>res. reply_cogged E uad (fst res)))) w"
    by (simp add: handle_create_def act_simps Some b_def k_def)
  show ?thesis
  proof (cases "\<exists>r ns. b = Inr (Inr r) \<and> k r = Inr (Inr ns)")
    case False
    then have "?same"
      by (auto simp: h act_simps split: sum.splits bind_error.splits)
        (auto simp: act_bind_def act_go_def act_return_def split: sum.splits)
    then show ?thesis ..
  next
    case True
    then obtain r ns where r: "b = Inr (Inr r)" and ns: "k r = Inr (Inr ns)" by blast
    from ns obtain sgi nodes where sgi: "new_sgi E r parent = Inr sgi" and nodes: "CN_Nodes r = Some nodes"
      and nn: "new_nodes (clock E 0) (UadUid uad) sgi (NodeUid parent) nodes = Inr (Inr ns)"
      by (auto simp: k_def go_bind_eq_Inr_iff)
    from r obtain req where req: "dec_create (decs E) body = Some req" "r = req" "CreateNodesRequest_Validate req"
      by (auto simp: b_def BindToRequest_Inr TryAuthzDataUnpack_def CreateNodesRequest_AuthzDataUnpack_def)
    have d: "fst (handle_create E param body uad w) = fst (upsert E (Some (map Some ns)) w)"
      by (auto simp: h act_simps r ns act_bind_def split: sum.split)
    from new_nodes_ok [OF nn] have "ns = (let ms = map (adopted (UadUid uad) sgi \<circ> the) nodes in
            ms @ [linked_node (NodeUid parent) (Some (clock E 0)) (map NewGraphNodeJustUID (child_uids ms))])"
      by (simp add: Let_def)
    with upsert_database [of E ns w] d Some req nodes sgi show ?thesis by auto
  qed
qed

text \<open>
  Property C9. Creating nodes takes them into the caller's ownership: a creation request
  leaves the database alone, or performs one mutation, and then the caller has outgoing-edge
  access to the parent named by an authentic AD, every new node of the request is
  owned by the caller, is in the group of the parent or in a fresh one if asked for, has
  only bare uids as out-edges, and the parent gets exactly the edges to the new nodes that
  no other new node links to (or to the first one).
\<close>

theorem create_nodes_adopted:
  "database (fst (handle_create E param body uad w)) = database w \<or>
   (\<exists>parent req nodes sgi. AuthzDataUnpackADString (cry E) (sessions w) param uad ''o'' = Some parent
     \<and> dec_create (decs E) body = Some req \<and> CreateNodesRequest_Validate req \<and> CN_Nodes req = Some nodes
     \<and> new_sgi E req parent = Inr sgi
     \<and> database (fst (handle_create E param body uad w)) =
         fst (apply_mutation (dbase E) (database w) ADD (NodeList (map Some (written_nodes (cry E) (clock E)
           (let ms = map (adopted (UadUid uad) sgi \<circ> the) nodes in
            ms @ [linked_node (NodeUid parent) (Some (clock E 0)) (map NewGraphNodeJustUID (child_uids ms))]))))))"
  by (rule create_nodes_payload)

section \<open>Users\<close>

lemma reply_found_user_safe:
  assumes "snd (reply_found_user E uad ur w) = Inr (Inr rep)"
  shows "\<exists>u v. rep = UserBody (ur\<lparr>RUser := Some v\<rparr>) \<and> RUser ur = Some u
    \<and> v = UserAuthzDataPack (cry E) uad (ReturnUserDTO u) \<and> (IsAdmin uad \<or> URole (uattrs u) \<noteq> Some SYS_ROLE)"
proof -
  from assms obtain u where u: "RUser ur = Some u"
    by (auto simp: reply_found_user_def act_simps split: option.splits)
  with assms obtain ok where ok: "canAccessUser (UadRole uad) u = Inr ok"
    by (cases "canAccessUser (UadRole uad) u") (auto simp: reply_found_user_def act_simps)
  with assms u have t: "ok" "rep = UserBody (UserResponse_AuthzDataPack (cry E) uad (ur\<lparr>RUser := Some (ReturnUserDTO u)\<rparr>))"
    by (auto simp: reply_found_user_def act_simps split: if_splits)
  have "IsAdmin uad \<or> URole (uattrs u) \<noteq> Some SYS_ROLE"
    using ok t(1) by (auto simp: canAccessUser_def IsAdmin_def go_bind_eq_Inr_iff split: if_splits)
  with u t(2) show ?thesis by (simp add: UserResponse_AuthzDataPack_def)
qed

lemma user_lookup_replies:
  assumes "handlerKey \<in> {''GET name'', ''GET uid''}"
    and "snd (UserAPI_HandleRequest E handlerKey param body (Some uad) w) = Inr (Inr rep)"
  shows "\<exists>ur. snd (reply_found_user E uad ur w) = Inr (Inr rep)"
proof -
  have q: "snd (act_bind (act_go (first_user a)) (\<lambda>res. reply_found_user E uad (fst res)) w) = Inr (Inr rep) \<Longrightarrow>
      \<exists>ur. snd (reply_found_user E uad ur w) = Inr (Inr rep)" for a
    by (cases "first_user a") (auto simp: act_simps)
  from assms show ?thesis
    by (auto simp: UserAPI_HandleRequest_def handle_name_def handle_uid_def QueryUser_def QueryUserByUid_def act_simps
        intro: q split: if_splits)
qed

text \<open>
  Property C35. A user lookup reveals little: whenever a lookup by name or by uid answers,
  the answer is a user without password hash, internal data and node lists, and a caller
  who is not a system user is never shown a system user.
\<close>

theorem user_lookup_safe:
  assumes "handlerKey \<in> {''GET name'', ''GET uid''}"
    and "snd (UserAPI_HandleRequest E handlerKey param body (Some uad) w) = Inr (Inr rep)"
  shows "\<exists>v e. rep = UserBody \<lparr>RUser = Some v, UError = e\<rparr> \<and> PasswordHash (uattrs v) = None
    \<and> InternalData (uattrs v) = None \<and> Nodes v = None \<and> Shared v = None
    \<and> (IsAdmin uad \<or> URole (uattrs v) \<noteq> Some SYS_ROLE)"
proof -
  from user_lookup_replies [OF assms] obtain ur where "snd (reply_found_user E uad ur w) = Inr (Inr rep)" by blast
  from reply_found_user_safe [OF this] obtain u v where r: "rep = UserBody (ur\<lparr>RUser := Some v\<rparr>)"
    and v: "v = UserAuthzDataPack (cry E) uad (ReturnUserDTO u)" and a: "IsAdmin uad \<or> URole (uattrs u) \<noteq> Some SYS_ROLE"
    by blast
  have "ur\<lparr>RUser := Some v\<rparr> = \<lparr>RUser = Some v, UError = UError ur\<rparr>" by simp
  moreover have "PasswordHash (uattrs v) = None \<and> InternalData (uattrs v) = None \<and> Nodes v = None \<and> Shared v = None
    \<and> URole (uattrs v) = URole (uattrs u)"
    by (simp add: v UserAuthzDataPack_def ReturnUserDTO_def NewGraphUser_def Let_def)
  ultimately show ?thesis using r a by (intro exI [of _ v] exI [of _ "UError ur"]) simp
qed

definition example_user :: graph_user where
  "example_user = GraphUser \<lparr>Uid = ''0x3'', DgraphType = [], AuthzData = [], Username = Some ''ann'', PasswordHash = Some ''h$s'',
     UData = None, InternalData = Some ''x'', URole = Some ''user''\<rparr> None None"

definition users_env :: "unit env" where
  "users_env = toy_env\<lparr>dbase := (answering_db [])\<lparr>run_users := (\<lambda>d q vs. Some (Some [Some example_user]))\<rparr>\<rparr>"

theorem user_lookup_safe_witness:
  "\<exists>v e. snd (UserAPI_HandleRequest users_env ''GET name'' ''ann'' [] (Some example_uad) empty_world) =
      Inr (Inr (UserBody \<lparr>RUser = Some v, UError = e\<rparr>)) \<and> PasswordHash (uattrs v) = None"
proof -
  have "\<exists>rep. snd (UserAPI_HandleRequest users_env ''GET name'' ''ann'' [] (Some example_uad) empty_world) = Inr (Inr rep)"
    by (simp add: UserAPI_HandleRequest_def handle_name_def QueryUser_def users_env_def toy_env_def answering_db_def first_user_def
        user_result_def reply_found_user_def UserResponseFromUser_def canAccessUser_def example_user_def example_uad_def
        SYS_ROLE_def act_simps)
  then obtain rep where rep: "snd (UserAPI_HandleRequest users_env ''GET name'' ''ann'' [] (Some example_uad) empty_world) = Inr (Inr rep)"
    by blast
  from user_lookup_safe [OF _ rep] rep show ?thesis by auto
qed

definition password_updated :: "crypto \<Rightarrow> entropy \<Rightarrow> graph_user option \<Rightarrow> graph_user option \<Rightarrow> bool" where
  "password_updated C rnd up vp \<longleftrightarrow>
     (\<exists>u v. up = Some u \<and> vp = Some v \<and> ValidateUid (UserUid u) \<and> Nodes v = Nodes u \<and> Shared v = Shared u
       \<and> uattrs v = (uattrs u)\<lparr>PasswordHash := (case PasswordHash (uattrs u) of None \<Rightarrow> None
            | Some pw \<Rightarrow> if pw = [] then Some [] else Some (GeneratePasswordHash C rnd pw))\<rparr>
       \<and> (case PasswordHash (uattrs u) of None \<Rightarrow> True | Some pw \<Rightarrow> pw = [] \<or> MIN_USER_PASS_LENGTH < length pw))"

lemma user_eqI: "\<lbrakk>uattrs u = uattrs v; Nodes u = Nodes v; Shared u = Shared v\<rbrakk> \<Longrightarrow> u = v"
  by (cases u; cases v) simp

lemma hash_new_password_ok:
  "\<lbrakk>hash_new_password C rnd u = Inr v; ValidateUid (UserUid u)\<rbrakk> \<Longrightarrow> password_updated C rnd (Some u) (Some v)"
  by (cases "PasswordHash (uattrs u)") (auto simp: hash_new_password_def password_updated_def split: if_splits)

text \<open>
  Property C36. No password is ever stored in clear: when the users of an update request are
  prepared, each has a valid uid, a password that is present and nonempty has more than
  the minimal length and is replaced by its salted hash, and nothing else of any user is
  changed.
\<close>

theorem prepared_users_hashed:
  assumes "prepareUsersForUpdate C rnd i us = Inr (Inr vs)"
  shows "length vs = length us \<and> (\<forall>j \<in> {..<length us}. password_updated C (rnd (i + j)) (us ! j) (vs ! j))"
  using assms
proof (induction us arbitrary: i vs)
  case (Cons up us)
  then obtain u where u: "up = Some u" "ValidateUid (UserUid u)" by (auto simp: go_bind_eq_Inr_iff split: if_splits)
  with Cons.prems obtain v where v: "hash_new_password C (rnd i) u = Inr v" by (auto split: sum.splits)
  with Cons.prems u obtain r where r: "prepareUsersForUpdate C rnd (Suc i) us = Inr r" by (auto simp: go_bind_eq_Inr_iff)
  with Cons.prems u v obtain ws where ws: "r = Inr ws" "vs = Some v # ws" by (cases r) auto
  note IH = Cons.IH [OF r [unfolded ws]]
  have "password_updated C (rnd (i + j)) ((up # us) ! j) (vs ! j)" if "j < length (up # us)" for j
  proof (cases j)
    case 0
    with hash_new_password_ok [OF v u(2)] show ?thesis by (simp add: u ws)
  next
    case (Suc k)
    with that IH show ?thesis by (auto simp: ws)
  qed
  with IH show ?case by (simp add: ws)
qed simp

theorem prepared_users_hashed_witness:
  "\<exists>v. prepareUsersForUpdate toy_crypto (\<lambda>_ _. CHR ''s'') 0
     [Some (GraphUser ((uattrs (NewGraphUser ''0x3''))\<lparr>PasswordHash := Some ''secret''\<rparr>) None None)] = Inr (Inr [Some v])
   \<and> PasswordHash (uattrs v) = Some (GeneratePasswordHash toy_crypto (\<lambda>_. CHR ''s'') ''secret'')"
proof -
  let ?u = "GraphUser ((uattrs (NewGraphUser ''0x3''))\<lparr>PasswordHash := Some ''secret''\<rparr>) None None"
  have v: "ValidateUid (UserUid ?u)"
    by (simp add: NewGraphUser_def) code_simp
  then have "\<exists>v. prepareUsersForUpdate toy_crypto (\<lambda>_ _. CHR ''s'') 0 [Some ?u] = Inr (Inr [Some v])"
    by (simp add: hash_new_password_def MIN_USER_PASS_LENGTH_def NewGraphUser_def)
  then obtain v where p: "prepareUsersForUpdate toy_crypto (\<lambda>_ _. CHR ''s'') 0 [Some ?u] = Inr (Inr [Some v])" by blast
  from prepared_users_hashed [OF p] have "password_updated toy_crypto (\<lambda>_. CHR ''s'') (Some ?u) (Some v)" by simp
  with p show ?thesis by (auto simp: password_updated_def)
qed

end
