(* ===== verification/SetupProps.thy ===== *)
theory SetupProps
  imports Setup ApiProps
begin

text \<open>
  What start-up guarantees: which configuration is used and what the server starts with,
  that the schema is brought up to date once, and what the start-up log line contains.
\<close>

section \<open>Starting the server\<close>

lemma Config_Get_override:
  "override_entry k v c = Inr c' \<Longrightarrow> Config_Get c' x = (if x = k \<and> v \<noteq> [] then v else Config_Get c x)"
  by (auto simp: override_entry_def Config_Get_def config_entries_def split: option.splits if_splits)

lemma getTokenExpiry_bounds: "0 < getTokenExpiry s"
  by (auto simp: getTokenExpiry_def split: option.split)

lemma cogged_main_Listening:
  assumes "cogged_main H cl E rnd fl = Listening addr E' w l"
  obtains conf0 conf1 conf d where "LoadConfig H (flagConfigFile fl) = Inr conf0"
    and "override_entry ''db.host'' (flagDgraphHost fl) conf0 = Inr conf1"
    and "override_entry ''db.port'' (flagDgraphPort fl) conf1 = Inr conf"
    and "NewDB (cry E) H cl conf = Inr d" and "flagAddUser fl = []"
    and "start_server H E rnd fl conf d = Listening addr E' w l"
  using assms by (auto simp: cogged_main_def split: sum.splits if_splits)

text \<open>What the program reads from a configuration after the flags have been applied.\<close>

definition effective :: "flags \<Rightarrow> config \<Rightarrow> string \<Rightarrow> string" where
  "effective fl conf k =
     (if k = ''db.port'' \<and> flagDgraphPort fl \<noteq> [] then flagDgraphPort fl
      else if k = ''db.host'' \<and> flagDgraphHost fl \<noteq> [] then flagDgraphHost fl
      else Config_Get conf k)"

definition connection_string :: "(string \<Rightarrow> string) \<Rightarrow> string" where
  "connection_string get =
     (if get ''db.connstr'' \<noteq> [] then get ''db.connstr''
      else ''dgraph://'' @ get ''db.host'' @ '':'' @ get ''db.port'' @ ''?sslmode=disable'')"

text \<open>
  Property C26. A started server is set up as its documentation says: if the program gets as far
  as listening, then the configuration file was found, read and decoded; the flags for the
  database host and port override its entries, and a connection string overrides both; the
  connection was opened and the schema brought up to date; the session manager is empty, so
  that nobody is logged in or holds a grant; the signing key in use is the key derived from
  the environment variable, the key file or a random passphrase; and tokens expire after a
  positive time.
\<close>

theorem main_listens:
  assumes "cogged_main H cl E rnd fl = Listening addr E' w l"
  shows "\<exists>conf d. LoadConfig H (flagConfigFile fl) = Inr conf
    \<and> conf_get E' = effective fl conf
    \<and> dgraph_open H (connection_string (effective fl conf)) = Some d
    \<and> w = \<lparr>database = MaybeUpdateSchema (cry E) cl d, sessions = UsmInit\<rparr>
    \<and> addr = listen_address (flagListenIP fl) (flagListenPort fl) (effective fl conf)
    \<and> B64Decode (secret_key E') = loadAuthzSecretKey (cry E) (getenv H ''COGGED_KEY'') (key_file H) rnd
    \<and> 0 < token_expiry E' \<and> cry E' = cry E \<and> dbase E' = dbase E"
proof -
  from assms obtain conf0 conf1 conf d where c: "LoadConfig H (flagConfigFile fl) = Inr conf0"
    "override_entry ''db.host'' (flagDgraphHost fl) conf0 = Inr conf1"
    "override_entry ''db.port'' (flagDgraphPort fl) conf1 = Inr conf"
    and db: "NewDB (cry E) H cl conf = Inr d" and st: "start_server H E rnd fl conf d = Listening addr E' w l"
    by (rule cogged_main_Listening)
  have get: "Config_Get conf = effective fl conf0"
    using Config_Get_override [OF c(2)] Config_Get_override [OF c(3)] by (auto simp: effective_def fun_eq_iff)
  have "dgraphConnString conf = connection_string (effective fl conf0)"
    by (simp add: dgraphConnString_def connection_string_def get Let_def)
  with db obtain d0 where "dgraph_open H (connection_string (effective fl conf0)) = Some d0"
    "d = MaybeUpdateSchema (cry E) cl d0"
    by (auto simp: NewDB_def split: option.splits)
  with c(1) st show ?thesis
    by (auto simp: start_server_def Let_def CreateDefaultHandler_def NewAuthAPI_def get getTokenExpiry_bounds b64_roundtrip)
qed

text \<open>A machine with a configuration file in the working directory, and a database of one text.\<close>

definition toy_client :: "string dgraph_client" where
  "toy_client = \<lparr>query_plain = (\<lambda>d q. Some d), query_with_vars = (\<lambda>d q vs. Some d),
     alter = (\<lambda>d op. case op of AlterSchema s \<Rightarrow> (s, False) | DropAllData \<Rightarrow> ([], False))\<rparr>"

definition toy_config :: config where
  "toy_config = Some [(''db.connstr'', ''dgraph://u:pw@h:9080''), (''auth.tokenexpiry'', ''-5'')]"

definition toy_host :: "string host" where
  "toy_host = \<lparr>getenv = (\<lambda>_. []), getwd = Some ''/srv'', executable = Some ''/usr/bin/cogged'',
     file_exists = (\<lambda>p. p = ''/srv/cogged.conf.json''), read_file = (\<lambda>p. Some ''{}''),
     unmarshal_config = (\<lambda>_. Some toy_config),
     marshal_config = (\<lambda>c. concat (map (\<lambda>(k, v). k @ '':'' @ v @ '','') (config_entries c))),
     dgraph_open = (\<lambda>_. Some []), log_time = ''now''\<rparr>"

definition toy_flags :: flags where
  "toy_flags = \<lparr>flagListenPort = 0, flagListenIP = [], flagConfigFile = [], flagAddUser = [],
     flagDgraphHost = [], flagDgraphPort = []\<rparr>"

definition toy_db_env :: "string env" where
  "toy_db_env = \<lparr>cry = toy_crypto, rtm = toy_runtime, go_quote = id, clock = (\<lambda>_. 5), server_time = 5, unix_now = 1700,
     nano_now = 1700000000000, random = (\<lambda>_ _. CHR ''a''), grant_order = id,
     dbase = \<lparr>run_nodes = (\<lambda>_ _ _. None), run_users = (\<lambda>_ _ _. None), apply_mutation = (\<lambda>d _ _. (d, None))\<rparr>,
     decs = no_decoders, conf_get = (\<lambda>_. []), secret_key = [], token_expiry = 600\<rparr>"

lemma toy_main_listens:
  "\<exists>addr E' w l. cogged_main toy_host toy_client toy_db_env (\<lambda>_. CHR ''a'') toy_flags = Listening addr E' w l"
  by (simp add: cogged_main_def LoadConfig_def config_path_def toy_host_def toy_flags_def workingDirectoryConfigPath_def
      CONFIG_FILE_NAME_def override_entry_def NewDB_def start_server_def Let_def)

theorem main_listens_witness:
  "\<exists>addr E' w l. cogged_main toy_host toy_client toy_db_env (\<lambda>_. CHR ''a'') toy_flags = Listening addr E' w l
     \<and> sessions w = UsmInit \<and> 0 < token_expiry E'"
proof -
  from toy_main_listens obtain addr E' w l where
    m: "cogged_main toy_host toy_client toy_db_env (\<lambda>_. CHR ''a'') toy_flags = Listening addr E' w l" by blast
  from main_listens [OF m] have "sessions w = UsmInit \<and> 0 < token_expiry E'" by auto
  with m show ?thesis by blast
qed

section \<open>The start-up log\<close>

text \<open>Characters that JSON text shows as they are.\<close>

definition json_plain :: "string \<Rightarrow> bool" where
  "json_plain v \<longleftrightarrow> (\<forall>c \<in> set v. 32 \<le> ord c \<and> ord c < 127 \<and> c \<notin> {CHR 0x22, CHR 0x5C, CHR ''<'', CHR ''>'', CHR ''&''})"

definition shows_values :: "(config \<Rightarrow> string) \<Rightarrow> bool" where
  "shows_values marshal \<longleftrightarrow>
     (\<forall>c k v. map_of (config_entries c) k = Some v \<longrightarrow> json_plain v \<longrightarrow> sublist v (marshal c))"

text \<open>
  Property C29. The start-up log contains the database credentials: the line that the program
  writes before it listens contains the connection string it has connected with, when this
  comes from the configuration, although the connection code avoids logging it because it
  may carry credentials.
\<close>

theorem startup_log_shows_connstr:
  assumes "cogged_main H cl E rnd fl = Listening addr E' w l" and "shows_values (marshal_config H)"
    and "LoadConfig H (flagConfigFile fl) = Inr conf" and "map_of (config_entries conf) ''db.connstr'' = Some cs"
    and "cs \<noteq> []" and "json_plain cs"
  shows "sublist cs l \<and> connection_string (effective fl conf) = cs"
proof
  from assms(1,3) obtain conf1 conf2 d where c: "override_entry ''db.host'' (flagDgraphHost fl) conf = Inr conf1"
    "override_entry ''db.port'' (flagDgraphPort fl) conf1 = Inr conf2"
    and st: "start_server H E rnd fl conf2 d = Listening addr E' w l"
    by (elim cogged_main_Listening) auto
  have keep: "override_entry k v a = Inr b \<Longrightarrow> k \<noteq> x \<Longrightarrow> map_of (config_entries b) x = map_of (config_entries a) x" for k v a b x
    by (auto simp: override_entry_def config_entries_def split: option.splits if_splits)
  have "map_of (config_entries conf2) ''db.connstr'' = Some cs"
    using keep [OF c(1), of "''db.connstr''"] keep [OF c(2), of "''db.connstr''"] assms(4) by simp
  then have s: "sublist cs (marshal_config H conf2)" using assms(2,6) by (auto simp: shows_values_def)
  have "l = log_time H @ '' '' @ trim_space (''INFO: '' @ ''cogged started, using config:'') @ '' ,'' @ marshal_config H conf2 @ [nl]"
    using st by (auto simp: start_server_def Let_def log_Info_def log_dump_def)
  then obtain a b where "l = a @ marshal_config H conf2 @ b" by (metis append_assoc)
  with s show "sublist cs l" by (metis sublist_appendI sublist_order.order_trans)
  show "connection_string (effective fl conf) = cs"
    using assms(4,5) by (simp add: connection_string_def effective_def Config_Get_def)
qed

theorem startup_log_shows_connstr_witness:
  "\<exists>addr E' w l. cogged_main toy_host toy_client toy_db_env (\<lambda>_. CHR ''a'') toy_flags = Listening addr E' w l
     \<and> sublist ''dgraph://u:pw@h:9080'' l"
proof -
  from toy_main_listens obtain addr E' w l where
    m: "cogged_main toy_host toy_client toy_db_env (\<lambda>_. CHR ''a'') toy_flags = Listening addr E' w l" by blast
  have "sublist v (concat (map (\<lambda>(k, v). k @ '':'' @ v @ '','') al))" if "map_of al k = Some v" for al :: "(string \<times> string) list" and k v
  proof -
    from that have "(k, v) \<in> set al" by (rule map_of_SomeD)
    then show ?thesis
    proof (induction al)
      case (Cons p al)
      show ?case
      proof (cases "p = (k, v)")
        case True
        then show ?thesis by (simp add: sublist_append sublist_Cons_right)
      next
        case False
        with Cons obtain a b where "concat (map (\<lambda>(k, v). k @ '':'' @ v @ '','') al) = a @ v @ b"
          by (auto simp: sublist_def)
        then show ?thesis
          unfolding sublist_def
          by (intro exI [of _ "fst p @ '':'' @ snd p @ '','' @ a"] exI [of _ b]) (simp add: split_beta)
      qed
    qed simp
  qed
  then have v: "shows_values (marshal_config toy_host)"
    by (auto simp: shows_values_def toy_host_def)
  have c: "LoadConfig toy_host (flagConfigFile toy_flags) = Inr toy_config"
    by (simp add: LoadConfig_def config_path_def toy_host_def toy_flags_def workingDirectoryConfigPath_def CONFIG_FILE_NAME_def)
  have "map_of (config_entries toy_config) ''db.connstr'' = Some ''dgraph://u:pw@h:9080''"
    by (simp add: toy_config_def config_entries_def)
  moreover have "json_plain ''dgraph://u:pw@h:9080''" by (simp add: json_plain_def)
  ultimately show ?thesis
    using startup_log_shows_connstr [OF m v c, of "''dgraph://u:pw@h:9080''"] m by auto
qed

section \<open>The schema\<close>

text \<open>Lines of a schema that declare a predicate: name, type and directive.\<close>

definition schema_line :: "string \<Rightarrow> (string \<times> string \<times> string) option" where
  "schema_line l =
     (case filter (\<lambda>p. p \<noteq> []) (split_on CHR '' '' l) of
        n # t # rest \<Rightarrow> if last n = CHR '':'' \<and> rest \<noteq> [] \<and> last rest = ''.''
                        then Some (butlast n, t, join_with '' '' (butlast rest)) else None
      | _ \<Rightarrow> None)"

definition schema_table :: "string \<Rightarrow> (string \<times> string \<times> string) list" where
  "schema_table s = List.map_filter schema_line (split_on nl s)"

definition declares :: "string \<Rightarrow> string \<Rightarrow> bool" where
  "declares s p \<longleftrightarrow> p \<in> fst ` set (schema_table s)"

lemma version_chars: "c \<in> set (GetDgraphSchemaVersionString C) \<Longrightarrow> c \<notin> {nl, CHR '' '', CHR '':''}"
  using EncodeToString_chars [of c "md5_sum C DGRAPH_SCHEMA"]
  by (auto simp: GetDgraphSchemaVersionString_def MD5SumHex_def nl_def hex_char_def dest: in_set_takeD)

lemma version_declared: "declares (CreateLatestSchema C) (GetDgraphSchemaVersionString C)"
proof -
  let ?v = "GetDgraphSchemaVersionString C"
  have "nl \<notin> set (?v @ '': string .'')" using version_chars [of nl C] by (auto simp: nl_def)
  then have "split_on nl (CreateLatestSchema C) = (?v @ '': string .'') # split_on nl DGRAPH_SCHEMA"
    using split_on_append [of nl "?v @ '': string .''" DGRAPH_SCHEMA] by (simp add: CreateLatestSchema_def)
  moreover have "schema_line (?v @ '': string .'') = Some (?v, ''string'', [])"
  proof -
    have "CHR '' '' \<notin> set (?v @ '':'')" using version_chars [of "CHR '' ''" C] by auto
    from split_on_append [OF this, of "''string .''"]
    have "split_on CHR '' '' (?v @ '': string .'') = [?v @ '':'', ''string'', ''.'']" by simp
    then show ?thesis by (simp add: schema_line_def)
  qed
  ultimately show ?thesis
    by (auto simp: declares_def schema_table_def List.map_filter_simps intro!: image_eqI)
qed

text \<open>What the program relies on: after a schema has been accepted, the database reports the predicates it declares.\<close>

definition reports_schema :: "'d dgraph_client \<Rightarrow> bool" where
  "reports_schema cl \<longleftrightarrow>
     (\<forall>d s d'. alter cl d (AlterSchema s) = (d', False) \<longrightarrow>
        (\<exists>rj. query_plain cl d' ''schema {}'' = Some rj \<and> (\<forall>p. declares s p \<longrightarrow> sublist p rj)))"

text \<open>
  Property C27. The schema is brought up to date once: a database that reports the current version
  marker, or whose schema cannot be read, is left alone; otherwise one update is made, whose
  text declares the marker as a predicate, and when the database accepts it a second start
  finds the marker and changes nothing.
\<close>

theorem schema_update_converges:
  assumes "reports_schema cl"
  shows "(case query_plain cl d ''schema {}'' of
       None \<Rightarrow> MaybeUpdateSchema C cl d = d
     | Some rj \<Rightarrow> MaybeUpdateSchema C cl d =
         (if sublist (GetDgraphSchemaVersionString C) rj then d else fst (alter cl d (AlterSchema (CreateLatestSchema C)))))
    \<and> (snd (alter cl d (AlterSchema (CreateLatestSchema C)))
       \<or> MaybeUpdateSchema C cl (MaybeUpdateSchema C cl d) = MaybeUpdateSchema C cl d)"
proof (cases "query_plain cl d ''schema {}''")
  case None
  then show ?thesis by (simp add: MaybeUpdateSchema_def DB_Query_def)
next
  case (Some rj)
  let ?v = "GetDgraphSchemaVersionString C" and ?a = "alter cl d (AlterSchema (CreateLatestSchema C))"
  have one: "MaybeUpdateSchema C cl d = (if sublist ?v rj then d else fst ?a)"
    by (simp add: MaybeUpdateSchema_def DB_Query_def Some Let_def)
  have "MaybeUpdateSchema C cl (fst ?a) = fst ?a" if "\<not> snd ?a"
  proof -
    have "?a = (fst ?a, False)" using that by (simp add: prod_eq_iff)
    with assms obtain rj' where "query_plain cl (fst ?a) ''schema {}'' = Some rj'" "sublist ?v rj'"
      using version_declared [of C] unfolding reports_schema_def by blast
    then show ?thesis by (simp add: MaybeUpdateSchema_def DB_Query_def)
  qed
  then show ?thesis using one Some by auto
qed

lemma split_on_sublist: "x \<in> set (split_on c y) \<Longrightarrow> sublist x y"
proof (induction y arbitrary: x)
  case (Cons a y)
  obtain p ps where p: "split_on c y = p # ps" by (cases "split_on c y") auto
  have "prefix p y" if "split_on c y = p # ps" for p ps
    by (metis join_split_on join_with.simps(2) join_with_Cons list.exhaust prefixI prefix_order.refl that)
  with p have "prefix p y" by blast
  with Cons p show ?case
    by (auto simp: sublist_Cons_right split: if_splits dest: prefix_imp_sublist)
qed simp

lemma toy_reports: "reports_schema toy_client"
proof -
  have "sublist p s" if d: "declares s p" for s p
  proof -
    from d obtain l t where l: "l \<in> set (split_on nl s)" and e: "schema_line l = Some (p, t)"
      by (auto simp: declares_def schema_table_def List.map_filter_def)
    then obtain n r where f: "filter (\<lambda>q. q \<noteq> []) (split_on CHR '' '' l) = n # r" and b: "p = butlast n"
      by (auto simp: schema_line_def split: list.splits if_splits)
    from f have "n \<in> set (filter (\<lambda>q. q \<noteq> []) (split_on CHR '' '' l))" by simp
    with b have n: "n \<in> set (split_on CHR '' '' l)" "p = butlast n" by simp_all
    have part: "x \<in> set (split_on c y) \<Longrightarrow> sublist x y" for c x y
      by (rule split_on_sublist)
    have "sublist p n" unfolding n(2) by (cases n rule: rev_cases) simp_all
    with part [OF n(1)] part [OF l] show ?thesis by (metis sublist_order.order_trans)
  qed
  then show ?thesis by (auto simp: reports_schema_def toy_client_def)
qed

theorem schema_update_converges_witness:
  "MaybeUpdateSchema toy_crypto toy_client (MaybeUpdateSchema toy_crypto toy_client []) = MaybeUpdateSchema toy_crypto toy_client []"
proof -
  have "\<not> snd (alter toy_client [] (AlterSchema (CreateLatestSchema toy_crypto)))" by (simp add: toy_client_def)
  with schema_update_converges [OF toy_reports, where d = "[]" and C = toy_crypto] show ?thesis by blast
qed

end
