(* ===== verification/Client.thy ===== *)
theory Client
  imports Api
begin

text \<open>
  The client program of \<open>client/apiclient.go\<close>: one HTTP request per API call, whose body is
  decoded into a response structure. The network and the server are the argument \<open>tr\<close>, which
  delivers a request and yields an error text or the body of the response; the status code
  is not looked at by the client. The state \<open>'w\<close> is whatever is at the other end. A value
  for the body is given by its JSON text, \<open>None\<close> when it does not marshal.
\<close>

record client =
  Url :: string
  Username :: string
  Password :: string
  authToken :: string
  lastRequest :: int
  tokenExpirySec :: int

datatype client_error = ApiClientError string int

record http_out =
  out_method :: string
  out_url :: string
  out_content_type :: "string list"
  out_authorization :: "string list"
  out_body :: "string option"

type_synonym 'w transport = "'w \<Rightarrow> http_out \<Rightarrow> 'w \<times> (string + string)"

type_synonym ('w, 'a) call = "client \<Rightarrow> 'w \<Rightarrow> client \<times> 'w \<times> (client_error + 'a)"

datatype body_arg = NoBody | Body "string option"

definition unauthenticatedRoutes :: "string list" where
  "unauthenticatedRoutes = [''POST /auth/login'', ''GET /auth/clientconfig'', ''GET /health/status'']"

definition upper_ascii :: "char \<Rightarrow> char" where
  "upper_ascii c = (if 97 \<le> ord c \<and> ord c \<le> 122 then char_of (ord c - 32) else c)"

text \<open>\<open>strings.ToUpper\<close> on the ASCII method names that the client passes.\<close>

definition to_upper :: "string \<Rightarrow> string" where
  "to_upper s = map upper_ascii s"

definition endpoint_key :: "string \<Rightarrow> string \<Rightarrow> string \<Rightarrow> string" where
  "endpoint_key httpMethod controller endpoint = to_upper httpMethod @ '' '' @ controller @ ''/'' @ endpoint"

definition is_unauthenticated_route :: "string \<Rightarrow> string \<Rightarrow> string \<Rightarrow> bool" where
  "is_unauthenticated_route httpMethod controller endpoint \<longleftrightarrow>
     endpoint_key httpMethod controller endpoint \<in> set unauthenticatedRoutes"

definition client_request :: "client \<Rightarrow> string \<Rightarrow> string \<Rightarrow> string \<Rightarrow> string \<Rightarrow> string option \<Rightarrow> http_out" where
  "client_request c httpMethod controller endpoint param json =
     (let url = Url c @ ''/'' @ controller @ ''/'' @ endpoint
      in \<lparr>out_method = httpMethod, out_url = (if 0 < length param then url @ ''/'' @ param else url),
          out_content_type = [''application/json''],
          out_authorization =
            (if \<not> is_unauthenticated_route httpMethod controller endpoint \<and> authToken c \<noteq> []
             then [''Bearer '' @ authToken c] else []),
          out_body = json\<rparr>)"

definition makeHttpRequest ::
    "'w transport \<Rightarrow> int \<Rightarrow> string \<Rightarrow> string \<Rightarrow> string \<Rightarrow> string \<Rightarrow> body_arg \<Rightarrow> ('w, string) call" where
  "makeHttpRequest tr now httpMethod controller endpoint param requestData c w =
     (if requestData = Body None then (c, w, Inl (ApiClientError ''invalid json supplied for requestData'' 0))
      else
        let json = (case requestData of NoBody \<Rightarrow> None | Body j \<Rightarrow> j);
            res = tr w (client_request c httpMethod controller endpoint param json)
        in case snd res of
             Inl err \<Rightarrow> (c, fst res, Inl (ApiClientError err 0))
           | Inr body \<Rightarrow>
               (if is_unauthenticated_route httpMethod controller endpoint then c else c\<lparr>lastRequest := now\<rparr>,
                fst res, Inr body))"

definition bindToResponse :: "(string \<Rightarrow> 'a option) \<Rightarrow> string \<Rightarrow> client_error + 'a" where
  "bindToResponse unmarshal jsonString =
     (case unmarshal jsonString of Some r \<Rightarrow> Inr r | None \<Rightarrow> Inl (ApiClientError ''json unmarshal failed'' 0))"

text \<open>The common shape of the API calls.\<close>

definition bound_call ::
    "'w transport \<Rightarrow> int \<Rightarrow> (string \<Rightarrow> 'a option) \<Rightarrow> string \<Rightarrow> string \<Rightarrow> string \<Rightarrow> string \<Rightarrow> body_arg \<Rightarrow> ('w, 'a) call" where
  "bound_call tr now dec m ctl ep param body c w =
     (case makeHttpRequest tr now m ctl ep param body c w of
        (c', w', Inl e) \<Rightarrow> (c', w', Inl e)
      | (c', w', Inr respBody) \<Rightarrow> (c', w', bindToResponse dec respBody))"

text \<open>Calls whose response body is not read.\<close>

definition unbound_call ::
    "'w transport \<Rightarrow> int \<Rightarrow> string \<Rightarrow> string \<Rightarrow> string \<Rightarrow> string \<Rightarrow> body_arg \<Rightarrow> ('w, bool) call" where
  "unbound_call tr now m ctl ep param body c w =
     (case makeHttpRequest tr now m ctl ep param body c w of
        (c', w', Inl e) \<Rightarrow> (c', w', Inl e)
      | (c', w', Inr respBody) \<Rightarrow> (c', w', Inr True))"

record response_decoders =
  resp_token :: "string \<Rightarrow> TokenResponse option"
  resp_cogged :: "string \<Rightarrow> CoggedResponse option"
  resp_user :: "string \<Rightarrow> UserResponse option"
  resp_map :: "string \<Rightarrow> (string \<times> string) list option"

section \<open>The calls\<close>

definition authLoginPost where
  "authLoginPost tr now D lr = bound_call tr now (resp_token D) ''POST'' ''auth'' ''login'' [] (Body lr)"

definition authLogoutPost where
  "authLogoutPost tr now = unbound_call tr now ''POST'' ''auth'' ''logout'' [] (Body (Some ''{}''))"

definition AuthRefreshGet where
  "AuthRefreshGet tr now D = bound_call tr now (resp_token D) ''GET'' ''auth'' ''refresh'' [] NoBody"

definition AuthCheckGet where
  "AuthCheckGet tr now = unbound_call tr now ''GET'' ''auth'' ''check'' [] NoBody"

definition AuthClientconfigGet where
  "AuthClientconfigGet tr now D = bound_call tr now (resp_map D) ''GET'' ''auth'' ''clientconfig'' [] (Body (Some ''{}''))"

definition AdminUserPut where
  "AdminUserPut tr now D cur = bound_call tr now (resp_cogged D) ''PUT'' ''admin'' ''user'' [] (Body cur)"

definition AdminUsersPatch where
  "AdminUsersPatch tr now D ur = bound_call tr now (resp_cogged D) ''PATCH'' ''admin'' ''users'' [] (Body ur)"

definition GraphNodesPost where
  "GraphNodesPost tr now D qr = bound_call tr now (resp_cogged D) ''POST'' ''graph'' ''nodes'' [] (Body qr)"

definition GraphSharedwithGet where
  "GraphSharedwithGet tr now D adata = bound_call tr now (resp_cogged D) ''GET'' ''graph'' ''sharedwith'' adata NoBody"

definition GraphNodesPatch where
  "GraphNodesPatch tr now D unr = bound_call tr now (resp_cogged D) ''PATCH'' ''graph'' ''nodes'' [] (Body unr)"

definition GraphNodesPut where
  "GraphNodesPut tr now D adata cnr = bound_call tr now (resp_cogged D) ''PUT'' ''graph'' ''nodes'' adata (Body cnr)"

definition GraphEdgesPut where
  "GraphEdgesPut tr now D er = bound_call tr now (resp_cogged D) ''PUT'' ''graph'' ''edges'' [] (Body er)"

definition GraphEdgesPatch where
  "GraphEdgesPatch tr now D er = bound_call tr now (resp_cogged D) ''PATCH'' ''graph'' ''edges'' [] (Body er)"

definition HealthStatusGet where
  "HealthStatusGet tr now D = bound_call tr now (resp_map D) ''GET'' ''health'' ''status'' [] (Body (Some ''{}''))"

definition UserNodePut where
  "UserNodePut tr now D unr = bound_call tr now (resp_cogged D) ''PUT'' ''user'' ''node'' [] (Body unr)"

definition UserNodesOwnPost where
  "UserNodesOwnPost tr now D qr = bound_call tr now (resp_cogged D) ''POST'' ''user'' ''nodes'' ''own'' (Body qr)"

definition UserNodesSharedPost where
  "UserNodesSharedPost tr now D qr = bound_call tr now (resp_cogged D) ''POST'' ''user'' ''nodes'' ''shared'' (Body qr)"

definition UserSharePut where
  "UserSharePut tr now D snr = bound_call tr now (resp_cogged D) ''PUT'' ''user'' ''share'' [] (Body snr)"

definition UserSharePatch where
  "UserSharePatch tr now D snr = bound_call tr now (resp_cogged D) ''PATCH'' ''user'' ''share'' [] (Body snr)"

definition UserNameGet where
  "UserNameGet tr now D un = bound_call tr now (resp_user D) ''GET'' ''user'' ''name'' un NoBody"

definition UserUidGet where
  "UserUidGet tr now D uid = bound_call tr now (resp_user D) ''GET'' ''user'' ''uid'' uid NoBody"

text \<open>\<open>marshal\<close> is the JSON text of a login request.\<close>

definition Login ::
    "'w transport \<Rightarrow> int \<Rightarrow> response_decoders \<Rightarrow> (LoginRequest \<Rightarrow> string) \<Rightarrow> client \<Rightarrow> 'w \<Rightarrow> client \<times> 'w \<times> bool" where
  "Login tr now D marshal c w =
     (case authLoginPost tr now D (Some (marshal \<lparr>LR_Username = Username c, LR_Password = Password c\<rparr>)) c w of
        (c', w', Inl e) \<Rightarrow> (c', w', False)
      | (c', w', Inr t) \<Rightarrow> (c'\<lparr>authToken := Token t, tokenExpirySec := Expires t\<rparr>, w', True))"

definition Logout :: "'w transport \<Rightarrow> int \<Rightarrow> client \<Rightarrow> 'w \<Rightarrow> client \<times> 'w \<times> bool" where
  "Logout tr now c w =
     (case authLogoutPost tr now c w of
        (c', w', Inl e) \<Rightarrow> (c', w', False)
      | (c', w', Inr _) \<Rightarrow> (c'\<lparr>authToken := [], tokenExpirySec := 0, lastRequest := 0\<rparr>, w', True))"

section \<open>Which requests carry the token\<close>

lemma route_key:
  assumes "to_upper m @ '' '' @ (ctl @ ''/'' @ ep) = a @ '' '' @ b" and "ctl \<noteq> []" and "hd ctl \<noteq> CHR ''/''"
    and "CHR '' '' \<notin> set a" and "CHR '' '' \<notin> set b" and "hd b = CHR ''/''"
  shows False
proof -
  have "ctl @ ''/'' @ ep = b" using key_eq [OF assms(1,4,5)] by simp
  with assms(2,3,6) show False by (cases ctl) auto
qed

text \<open>
  The client never treats a route as public: its table of public routes has a slash
  before the group that the key it looks up has not, so the look-up fails for every call,
  whatever the method; every request of a client that holds a token carries the token, logins
  and status requests too, and every response counts as activity.
\<close>

lemma token_always_sent:
  assumes "ctl \<noteq> []" and "hd ctl \<noteq> CHR ''/''"
  shows "\<not> is_unauthenticated_route m ctl ep
    \<and> out_authorization (client_request c m ctl ep param json) = (if authToken c = [] then [] else [''Bearer '' @ authToken c])
    \<and> (snd (tr w (client_request c m ctl ep param (Some j))) = Inr body \<longrightarrow>
        makeHttpRequest tr now m ctl ep param (Body (Some j)) c w =
          (c\<lparr>lastRequest := now\<rparr>, fst (tr w (client_request c m ctl ep param (Some j))), Inr body))"
proof -
  have "\<not> is_unauthenticated_route m ctl ep"
    using route_key [OF _ assms, of m ep "''POST''" "''/auth/login''"]
      route_key [OF _ assms, of m ep "''GET''" "''/auth/clientconfig''"]
      route_key [OF _ assms, of m ep "''GET''" "''/health/status''"]
    by (auto simp: is_unauthenticated_route_def unauthenticatedRoutes_def endpoint_key_def)
  then show ?thesis by (simp add: client_request_def Let_def makeHttpRequest_def)
qed

end
