(* ===== verification/ServerProps.thy ===== *)
theory ServerProps
  imports ApiProps
begin

text \<open>
  What the server guarantees before a handler runs: which requests are let through, that a
  refused request changes nothing but an expired session, and the life of a session from
  login to logout.
\<close>

section \<open>Who gets through\<close>

definition identified :: "'d env \<Rightarrow> usm \<Rightarrow> string list \<Rightarrow> UserAuthData \<Rightarrow> bool" where
  "identified E s authHdr u \<longleftrightarrow>
     (\<exists>tok. bearer_token authHdr = Some tok \<and> UADFromToken (cry E) tok (secret_key E) = Some u
        \<and> checkTimestamp E (UadTimestamp u) \<and> UsmCheckTokenId s (UadUid u) (UadTokenId u))"

lemma authenticate_Some:
  "snd (authenticate E h w) = Inr (Inr (Some u)) \<longleftrightarrow> identified E (sessions w) h u"
  by (auto simp: authenticate_def identified_def act_simps split: option.splits)

lemma authenticate_same: "snd (authenticate E h w) = Inr (Inr a) \<Longrightarrow> fst (authenticate E h w) = w"
  by (auto simp: authenticate_def act_simps split: option.splits if_splits)

lemma authenticate_total: "\<exists>r. snd (authenticate E h w) = Inr r"
  by (simp add: authenticate_def act_simps split: option.split)

lemma authenticate_database: "database (fst (authenticate E h w)) = database w"
  by (simp add: authenticate_def act_simps split: option.split)

definition admitted :: "'d env \<Rightarrow> usm \<Rightarrow> http_request \<Rightarrow> UserAuthData option \<Rightarrow> bool" where
  "admitted E s req uad \<longleftrightarrow>
     (let path = trim_space (hr_path req); rgroup = split_on CHR ''/'' path ! 1 in
      json_content (hr_content_type req) \<and>
      (case uad of
         None \<Rightarrow> path \<in> set allow_list \<and> (\<nexists>u. identified E s (hr_authorization req) u)
       | Some u \<Rightarrow> identified E s (hr_authorization req) u) \<and>
      (rgroup \<in> set admin_list \<longrightarrow> (\<exists>u. uad = Some u \<and> IsAdmin u)))"

lemma ErrorResponse_apply [act_simps]:
  "ErrorResponse code m w = (w, Inr (HttpError code (if length m < 1 then status_text code else m)))"
  by (simp add: ErrorResponse_def act_simps)

lemma serve_route_cases:
  "(\<exists>uad. admitted E (sessions w) req uad \<and> serve_route E req path parts w = dispatch E req parts uad w)
   \<or> ((\<exists>code m. snd (serve_route E req path parts w) = Inr (HttpError code m))
      \<and> database (fst (serve_route E req path parts w)) = database w)"
  if p: "path = trim_space (hr_path req)" "parts = split_on CHR ''/'' path" "json_content (hr_content_type req)"
proof -
  obtain r where r: "snd (authenticate E (hr_authorization req) w) = Inr r" using authenticate_total by blast
  show ?thesis
  proof (cases r)
    case (Inl resp)
    then obtain code m where "resp = HttpError code m"
      using r by (auto simp: authenticate_def act_simps split: option.splits if_splits)
    with Inl r show ?thesis
      by (simp add: serve_route_def act_bind_def act_return_def authenticate_database)
  next
    case (Inr a)
    have same: "fst (authenticate E (hr_authorization req) w) = w"
      using authenticate_same r Inr by blast
    have none: "\<nexists>u. identified E (sessions w) (hr_authorization req) u" if "a = None"
      using r Inr that by (simp add: authenticate_Some [symmetric])
    have some: "identified E (sessions w) (hr_authorization req) u" if "a = Some u" for u
      using r Inr that by (simp add: authenticate_Some [symmetric])
    let ?pass = "\<not> (a = None \<and> path \<notin> set allow_list) \<and>
      \<not> (parts ! 1 \<in> set admin_list \<and> (case a of None \<Rightarrow> True | Some u \<Rightarrow> \<not> IsAdmin u))"
    show ?thesis
    proof (cases ?pass)
      case True
      then have "serve_route E req path parts w = dispatch E req parts a w"
        by (auto simp: serve_route_def act_bind_def r Inr same)
      moreover have "admitted E (sessions w) req a"
        using True none some p by (cases a) (auto simp: admitted_def Let_def)
      ultimately show ?thesis by blast
    next
      case False
      then show ?thesis
        by (auto simp: serve_route_def act_bind_def r Inr same ErrorResponse_apply)
    qed
  qed
qed

text \<open>
  Property C4. The server lets through only whom it should: every request is either answered
  with an error that leaves the database untouched, or handed to the handlers with an identity
  such that the content type is JSON, and the identity comes from an authentic, unexpired
  token with a live session, or is absent and the path is on the list of public routes; and
  the administration group is reached by system users only.
\<close>

theorem ServeHTTP_gate:
  "(\<exists>uad. admitted E (sessions w) req uad \<and>
      ServeHTTP E req w = dispatch E req (split_on CHR ''/'' (trim_space (hr_path req))) uad w)
   \<or> ((\<exists>code m. snd (ServeHTTP E req w) = Inr (HttpError code m)) \<and> database (fst (ServeHTTP E req w)) = database w)"
  using serve_route_cases [of "trim_space (hr_path req)" req "split_on CHR ''/'' (trim_space (hr_path req))" E w]
  by (auto simp: ServeHTTP_def act_simps Let_def)

text \<open>
  A route with a single segment crashes the handler: an admitted request whose
  path splits into two parts panics with an index out of range, although the route check
  has accepted it; with at least three parts the dispatch itself never panics.
\<close>

lemma dispatch_panics:
  "dispatch E req [[], rgroup] uad w = (w, Inl IndexOutOfRange)
   \<and> dispatch E req ([] # rgroup # endpoint # rest) uad w =
      (case route_handler E rgroup of
         None \<Rightarrow> (w, Inr (HttpError 404 ''Not Found''))
       | Some h \<Rightarrow> act_bind (h (hr_method req @ '' '' @ endpoint) (case rest of [] \<Rightarrow> [] | p # _ \<Rightarrow> p) (hr_body req) uad) http_result w)"
  by (auto simp: dispatch_def index_go_def act_simps status_text_def split: option.split list.split)

section \<open>Sessions\<close>

lemma bearer_token_roundtrip:
  assumes "CHR '' '' \<notin> set t"
  shows "bearer_token [''Bearer '' @ t] = Some t"
  using assms by (simp add: bearer_token_def split_on_no_sep)

lemma ConstructToken_no_space: "CHR '' '' \<notin> set (ConstructToken C uid role tid ts key)"
  by (auto simp: ConstructToken_def MessageAndMAC_def Let_def dest!: B64Encode_chars b64url_not_special)

lemma dot_free_dec_of_int: "dot_free (dec_of_int i)"
  using dec_of_nat_chars [of "CHR ''.''"] by (auto simp: dec_of_int_def)

lemma dot_free_newTokenId: "dot_free (newTokenId rnd)"
  by (simp add: newTokenId_def)

definition stored_user :: "'d env \<Rightarrow> 'd world \<Rightarrow> LoginRequest \<Rightarrow> graph_user \<Rightarrow> bool" where
  "stored_user E w lr user \<longleftrightarrow>
     (\<exists>us. run_users (dbase E) (database w) query_user_text [(''$username'', LR_Username lr)] = Some (Some (Some user # us)))
     \<and> UserUid user \<noteq> [] \<and> dot_free (UserUid user)
     \<and> (\<exists>role. URole (uattrs user) = Some role \<and> dot_free role)"

lemma handle_login_apply:
  assumes "dec_login (decs E) body = Some lr" and "LoginRequest_Validate lr" and "stored_user E w lr user"
    and "PasswordHash (uattrs user) = Some h" and "URole (uattrs user) = Some role"
  shows "handle_login E body caller w =
    (if VerifyPasswordHash (cry E) h (LR_Password lr)
     then (w\<lparr>sessions := UsmAddTokenId (sessions w) (UserUid user) (newTokenId (random E 0))\<rparr>,
           Inr (Inr (TokenBody (tokenResponse E (UserUid user) role (newTokenId (random E 0))))))
     else (w, Inr (Inl (APIError ''invalid login'' 401))))"
proof -
  from assms(3) obtain us where q: "run_users (dbase E) (database w) query_user_text [(''$username'', LR_Username lr)]
      = Some (Some (Some user # us))"
    by (auto simp: stored_user_def)
  show ?thesis
    by (simp add: handle_login_def BindToRequest_def TryAuthzDataUnpack_def LoginRequest_AuthzDataUnpack_def assms
        QueryUser_def q first_user_def user_result_def UserResponseFromUser_def valid_login_def act_simps Let_def)
qed

definition session_of :: "'d env \<Rightarrow> graph_user \<Rightarrow> string \<Rightarrow> UserAuthData" where
  "session_of E user role =
     token_uad (cry E) (UserUid user) role (newTokenId (random E 0)) (dec_of_int (unix_now E)) (secret_key E)"

definition bearer :: "TokenResponse \<Rightarrow> string list" where
  "bearer t = [''Bearer '' @ Token t]"

lemma token_identity:
  assumes "dot_free (UserUid user)" and "dot_free role"
  shows "\<exists>tok. bearer_token (bearer (tokenResponse E (UserUid user) role (newTokenId (random E 0)))) = Some tok
    \<and> UADFromToken (cry E) tok (secret_key E) = Some (session_of E user role)"
  using token_roundtrip [OF assms dot_free_newTokenId dot_free_dec_of_int]
  by (simp add: bearer_def tokenResponse_def bearer_token_roundtrip [simplified] ConstructToken_no_space session_of_def)

definition representable :: "int \<Rightarrow> int \<Rightarrow> bool" where
  "representable t n \<longleftrightarrow> 0 \<le> t \<and> t \<le> n \<and> n < 2 ^ 63"

lemma checkTimestamp_at:
  assumes "representable (unix_now E) n"
  shows "checkTimestamp (E\<lparr>unix_now := n\<rparr>) (dec_of_int (unix_now E)) \<longleftrightarrow> n - unix_now E < token_expiry E"
proof -
  have "parse_int (dec_of_int (unix_now E)) = Some (unix_now E)"
    using assms by (intro parse_int_dec_of_int) (simp_all add: representable_def)
  moreover have "sub_int64 n (unix_now E) = n - unix_now E"
    using assms by (intro sub_int64_exact) (simp_all add: representable_def)
  ultimately show ?thesis by (simp add: checkTimestamp_def)
qed

lemma authenticate_token:
  assumes "bearer_token h = Some tok" and "UADFromToken (cry E) tok (secret_key E) = Some u"
  shows "authenticate E h w =
    (if \<not> checkTimestamp E (UadTimestamp u)
     then (w\<lparr>sessions := fst (UsmDeleteTokenId (sessions w) (UadUid u) (UadTokenId u))\<rparr>, Inr (Inl (HttpError 401 ''token expired'')))
     else if UsmCheckTokenId (sessions w) (UadUid u) (UadTokenId u) then (w, Inr (Inr (Some u)))
     else (w, Inr (Inl (HttpError 401 ''invalid token ID''))))"
  by (simp add: authenticate_def assms act_simps)

text \<open>
  Property C10. The life of a session: a login with the right password answers with a token; as
  long as fewer seconds than the expiry time have passed, the server recognises the bearer
  of the token as the stored user with the stored role, and after a logout it no longer
  does; once the time has passed the token is refused and the session is removed.
\<close>

theorem login_session_life:
  assumes "dec_login (decs E) body = Some lr" and "LoginRequest_Validate lr" and "stored_user E w lr user"
    and "PasswordHash (uattrs user) = Some h" and "URole (uattrs user) = Some role"
    and "VerifyPasswordHash (cry E) h (LR_Password lr)" and "representable (unix_now E) n"
  shows "\<exists>t w'. handle_login E body caller w = (w', Inr (Inr (TokenBody t)))
    \<and> (if n - unix_now E < token_expiry E
       then authenticate (E\<lparr>unix_now := n\<rparr>) (bearer t) w' = (w', Inr (Inr (Some (session_of E user role))))
         \<and> snd (authenticate (E\<lparr>unix_now := n\<rparr>) (bearer t) (fst (handle_logout (Some (session_of E user role)) w')))
             = Inr (Inl (HttpError 401 ''invalid token ID''))
       else snd (authenticate (E\<lparr>unix_now := n\<rparr>) (bearer t) w') = Inr (Inl (HttpError 401 ''token expired''))
         \<and> \<not> UsmCheckTokenId (sessions (fst (authenticate (E\<lparr>unix_now := n\<rparr>) (bearer t) w'))) (UserUid user) (newTokenId (random E 0)))"
proof -
  let ?nti = "newTokenId (random E 0)" and ?u = "session_of E user role" and ?E = "E\<lparr>unix_now := n\<rparr>"
  let ?t = "tokenResponse E (UserUid user) role ?nti"
  let ?w = "w\<lparr>sessions := UsmAddTokenId (sessions w) (UserUid user) ?nti\<rparr>"
  have login: "handle_login E body caller w = (?w, Inr (Inr (TokenBody ?t)))"
    using handle_login_apply [OF assms(1-5)] assms(6) by simp
  have df: "dot_free (UserUid user)" "dot_free role" "UserUid user \<noteq> []"
    using assms(3,5) by (auto simp: stored_user_def)
  from token_identity [OF df(1,2), of E] obtain tok where
    tok: "bearer_token (bearer ?t) = Some tok" "UADFromToken (cry ?E) tok (secret_key ?E) = Some ?u" by auto
  have u: "UadTimestamp ?u = dec_of_int (unix_now E)" "UadUid ?u = UserUid user" "UadTokenId ?u = ?nti"
    by (simp_all add: session_of_def token_uad_def)
  note auth = authenticate_token [OF tok] and time = checkTimestamp_at [OF assms(7)]
  have live: "UsmCheckTokenId (sessions ?w) (UserUid user) ?nti"
    using df(3) by (simp add: usm_sessions.opened)
  have closed: "\<not> UsmCheckTokenId (fst (UsmDeleteTokenId s (UserUid user) ?nti)) (UserUid user) ?nti" for s
    by (rule usm_sessions.closed)
  have out: "fst (handle_logout (Some ?u) ?w) = ?w\<lparr>sessions := fst (UsmDeleteTokenId (sessions ?w) (UserUid user) ?nti)\<rparr>"
    by (simp add: handle_logout_def act_simps u)
  show ?thesis
  proof (cases "n - unix_now E < token_expiry E")
    case True
    then have "authenticate ?E (bearer ?t) ?w = (?w, Inr (Inr (Some ?u)))"
      using live by (simp add: auth u time)
    moreover have "snd (authenticate ?E (bearer ?t) (fst (handle_logout (Some ?u) ?w))) = Inr (Inl (HttpError 401 ''invalid token ID''))"
      using True closed by (simp add: auth u time out)
    ultimately show ?thesis using login True by auto
  next
    case False
    then have "snd (authenticate ?E (bearer ?t) ?w) = Inr (Inl (HttpError 401 ''token expired''))"
      "\<not> UsmCheckTokenId (sessions (fst (authenticate ?E (bearer ?t) ?w))) (UserUid user) ?nti"
      using closed by (simp_all add: auth u time)
    with login False show ?thesis by auto
  qed
qed

definition login_env :: "unit env" where
  "login_env = users_env\<lparr>decs := no_decoders\<lparr>dec_login := (\<lambda>_. Some \<lparr>LR_Username = ''ann'', LR_Password = ''pw''\<rparr>)\<rparr>,
     dbase := (answering_db [])\<lparr>run_users := (\<lambda>d q vs. Some (Some [Some (GraphUser ((uattrs example_user)\<lparr>PasswordHash :=
       Some (HashPassword toy_crypto ''pw'' ''salt'')\<rparr>) None None)]))\<rparr>\<rparr>"

theorem login_session_life_witness:
  "\<exists>t w'. handle_login login_env [] None empty_world = (w', Inr (Inr (TokenBody t)))
    \<and> (\<exists>u. authenticate (login_env\<lparr>unix_now := 2000\<rparr>) (bearer t) w' = (w', Inr (Inr (Some u))) \<and> UadRole u = ''user'')"
proof -
  let ?user = "GraphUser ((uattrs example_user)\<lparr>PasswordHash := Some (HashPassword toy_crypto ''pw'' ''salt'')\<rparr>) None None"
  let ?lr = "\<lparr>LR_Username = ''ann'', LR_Password = ''pw''\<rparr>"
  have d: "dec_login (decs login_env) [] = Some ?lr" by (simp add: login_env_def)
  have v: "LoginRequest_Validate ?lr" by (simp add: LoginRequest_Validate_def)
  have s: "stored_user login_env empty_world ?lr ?user"
    by (simp add: stored_user_def login_env_def example_user_def)
  have h: "PasswordHash (uattrs ?user) = Some (HashPassword toy_crypto ''pw'' ''salt'')" "URole (uattrs ?user) = Some ''user''"
    by (simp_all add: example_user_def)
  have p: "VerifyPasswordHash (cry login_env) (HashPassword toy_crypto ''pw'' ''salt'') (LR_Password ?lr)"
    by (auto simp: login_env_def users_env_def toy_env_def VerifyPasswordHash_char)
  have r: "representable (unix_now login_env) 2000"
    by (simp add: representable_def login_env_def users_env_def toy_env_def)
  have "2000 - unix_now login_env < token_expiry login_env"
    by (simp add: login_env_def users_env_def toy_env_def)
  with login_session_life [OF d v s h p r, of None] obtain t w' where
    "handle_login login_env [] None empty_world = (w', Inr (Inr (TokenBody t)))"
    "authenticate (login_env\<lparr>unix_now := 2000\<rparr>) (bearer t) w' = (w', Inr (Inr (Some (session_of login_env ?user ''user''))))"
    by auto
  moreover have "UadRole (session_of login_env ?user ''user'') = ''user''" by (simp add: session_of_def token_uad_def)
  ultimately show ?thesis by blast
qed

end
