(* ===== verification/Effects.thy ===== *)
theory Effects
  imports ServerProps
begin

text \<open>
  What requests do to the shared state. An action keeps a relation when every run of it
  relates the world before to the world after. The rules for the sequencing operations are
  proved once, for any reflexive and transitive relation; the rules for the operations that
  only write to the database, or only to the sessions, once for any relation that ignores
  the other component. Each invariant of the server is then an interpretation.
\<close>

definition keeps :: "('d world \<Rightarrow> 'd world \<Rightarrow> bool) \<Rightarrow> ('d, 'a) act \<Rightarrow> bool" where
  "keeps R m \<longleftrightarrow> (\<forall>w. R w (fst (m w)))"

lemma keeps_update_sessions: "(\<And>w. R w (w\<lparr>sessions := f (sessions w)\<rparr>)) \<Longrightarrow> keeps R (update_sessions f)"
  by (simp add: keeps_def update_sessions_def)

section \<open>Sequencing\<close>

locale world_order =
  fixes R :: "'d world \<Rightarrow> 'd world \<Rightarrow> bool"
  assumes same: "R w w"
    and trans: "R w v \<Longrightarrow> R v u \<Longrightarrow> R w u"
begin

lemma return: "keeps R (act_return x)"
  by (simp add: keeps_def act_return_def same)

lemma go: "keeps R (act_go m)"
  by (simp add: keeps_def act_go_def same)

lemma read: "keeps R (read_world f)"
  by (simp add: keeps_def read_world_def same)

lemma bind: "keeps R m \<Longrightarrow> (\<And>x. keeps R (f x)) \<Longrightarrow> keeps R (act_bind m f)"
  unfolding keeps_def act_bind_def by (auto split: sum.split intro: trans)

lemma branch: "(b \<Longrightarrow> keeps R m) \<Longrightarrow> (\<not> b \<Longrightarrow> keeps R n) \<Longrightarrow> keeps R (if b then m else n)"
  by simp

lemma each: "(\<And>x. keeps R (f x)) \<Longrightarrow> keeps R (act_each f xs)"
  by (induction xs) (simp_all add: return bind)

lemma each_in: "(\<And>x. x \<in> set xs \<Longrightarrow> keeps R (f x)) \<Longrightarrow> keeps R (act_each f xs)"
  by (induction xs) (simp_all add: return bind)

lemma failing: "keeps R (fail info code)" "keeps R not_found"
  by (simp_all add: fail_def not_found_def return)

lemma error_response: "keeps R (ErrorResponse code m)"
  by (simp add: ErrorResponse_def return)

lemma binding: "(\<And>r. keeps R (k r)) \<Longrightarrow> keeps R (bind_then b k)"
  unfolding bind_then_def
  by (intro bind read go) (auto split: sum.split bind_error.split intro: failing)

lemma replies: "keeps R (reply_cogged E uad cr)" "keeps R (reply_cogged_opt E uadp cr)" "keeps R (reply_user E uad ur)"
  by (auto simp: reply_cogged_def reply_cogged_opt_def reply_user_def intro: bind read go return split: option.split)

lemma found_user: "keeps R (reply_found_user E uad ur)"
  by (auto simp: reply_found_user_def split: option.split intro: failing bind go branch replies)

lemma user_queries: "keeps R (QueryUser D un)" "keeps R (QueryUserByUid D uid b)"
  "keeps R (QueryUsersThatNodeIsSharedWith tnow D uid)"
  by (auto simp: QueryUser_def QueryUserByUid_def QueryUsersThatNodeIsSharedWith_def intro: bind read go)

lemmas sequencing = return go read bind branch each failing error_response binding replies found_user user_queries

text \<open>The handlers that only read.\<close>

lemma reading_handlers:
  "keeps R (HealthAPI_HandleRequest k p b u)"
  "keeps R (handle_query E body uad)"
  "keeps R (handle_sharedwith E param uad)"
  "keeps R (handle_name E param uad)"
  "keeps R (handle_uid E param uad)"
  "keeps R (handle_refresh E uadp)"
  unfolding HealthAPI_HandleRequest_def handle_query_def handle_sharedwith_def handle_name_def handle_uid_def handle_refresh_def
  by (auto intro!: sequencing split: option.split)

lemma results: "keeps R (http_result r)"
  by (auto simp: http_result_def intro: sequencing split: sum.split api_error.split)

end

section \<open>Relations that ignore the database\<close>

locale session_order = world_order +
  assumes database_free: "R w (w\<lparr>database := d\<rparr>)"
begin

lemma mutate: "keeps R (Mutate D i ut)"
  by (simp add: keeps_def Mutate_def Let_def database_free)

lemma upserts: "keeps R (UpsertNodes C quote now tnow D ns)" "keeps R (UpsertUsers C tnow D us)"
  "keeps R (UpsertUserNode tnow D n uid)" "keeps R (UpdateUserShareEdges tnow D ns' us' ut)"
  unfolding UpsertNodes_def UpsertUsers_def UpsertUserNode_def UpdateUserShareEdges_def Let_def
  by (auto intro!: sequencing mutate split: option.split)

lemma edges: "keeps R (UpdateEdges now tnow D ut a b c)" "keeps R (AddNodeEdges now tnow D a b c)"
  "keeps R (RemoveNodeEdges now tnow D a b c)"
  unfolding AddNodeEdges_def RemoveNodeEdges_def UpdateEdges_def
  by (auto intro!: sequencing mutate)

lemma quiet_handlers:
  "keeps R (AdminAPI_HandleRequest E k p body uadp)"
  "keeps R (handle_update E body uad)"
  "keeps R (handle_create E param body uad)"
  "keeps R (handle_edges E ut body uad)"
  "keeps R (handle_user_node E body uad)"
  unfolding AdminAPI_HandleRequest_def handle_update_def handle_create_def handle_edges_def handle_user_node_def upsert_def Let_def
  by (auto intro!: sequencing upserts edges split: option.split sum.split UpdateType.split)

text \<open>
  The whole of the graph group is quiet, and of the others all but login, logout, the
  listing of shared nodes and sharing.
\<close>

lemma graph_group: "keeps R (GraphAPI_HandleRequest E k p body uadp)"
  unfolding GraphAPI_HandleRequest_def by (auto intro!: sequencing quiet_handlers reading_handlers)

end

section \<open>Relations that also ignore grants\<close>

lemma share_update:
  "(if ut = ADD then AllowListSharedSgis else RevokeSharedSgis) E u ns = UpdateAllowListSharedSgis E (ut = ADD) u ns"
  by (simp add: AllowListSharedSgis_def RevokeSharedSgis_def)

locale grant_tolerant = session_order +
  assumes allow: "R w (w\<lparr>sessions := UsmUserAllowlistSgi (sessions w) u l\<rparr>)"
    and revoke: "R w (w\<lparr>sessions := UsmUserRevokeSgi (sessions w) u l\<rparr>)"
begin

lemma grants: "keeps R (UpdateAllowListSharedSgis E b uid ns)"
  unfolding UpdateAllowListSharedSgis_def Let_def
  by (intro sequencing keeps_update_sessions) (cases b; simp add: allow revoke)

lemma listing: "keeps R (handle_user_nodes E param body uad)"
  unfolding handle_user_nodes_def AllowListSharedSgis_def
  by (cases "own_edge_type param") (auto intro!: sequencing grants)

lemma sharing: "keeps R (handle_share E ut body uad)"
proof -
  have "keeps R (act_each (\<lambda>u. UpdateAllowListSharedSgis E (ut = ADD) u ns) us)" for ns us
    by (rule each) (rule grants)
  then show ?thesis
    unfolding handle_share_def share_update
    by (intro binding bind go) (auto intro!: return bind upserts replies split: sum.split)
qed

lemma user_group: "keeps R (UserAPI_HandleRequest E k p body uadp)"
  unfolding UserAPI_HandleRequest_def
  by (intro bind go branch quiet_handlers listing sharing reading_handlers failing)

end

section \<open>Relations that ignore the sessions\<close>

locale database_order = world_order +
  assumes sessions_free: "R w (w\<lparr>sessions := s\<rparr>)"
begin

lemma sessions_updates: "keeps R (update_sessions f)"
  by (simp add: keeps_def update_sessions_def sessions_free)

lemma authenticating: "keeps R (authenticate E h)"
  unfolding authenticate_def by (auto intro!: sequencing sessions_updates split: option.split)

lemma auth_group: "keeps R (AuthAPI_HandleRequest E k p body uadp)"
  unfolding AuthAPI_HandleRequest_def handle_login_def handle_logout_def Let_def
  by (auto intro!: sequencing sessions_updates reading_handlers)

lemma listing: "keeps R (handle_user_nodes E param body uad)"
  unfolding handle_user_nodes_def AllowListSharedSgis_def UpdateAllowListSharedSgis_def Let_def
  by (auto intro!: sequencing sessions_updates split: option.split)

end


end
