(* ===== verification/Sessions.thy ===== *)
theory Sessions
  imports Effects
begin

text \<open>
  What requests do to the session manager: the relations of \<open>Effects\<close> instantiated for
  unchanged worlds, unchanged databases, unchanged token ids, unchanged grants and the
  well-formedness of the grants, the effect of one request on token ids and grants, and the
  invariants of the server over any history of requests.
\<close>

section \<open>Relations\<close>

definition unchanged :: "'d world \<Rightarrow> 'd world \<Rightarrow> bool" where
  "unchanged w v \<longleftrightarrow> v = w"

definition same_database :: "'d world \<Rightarrow> 'd world \<Rightarrow> bool" where
  "same_database w v \<longleftrightarrow> database v = database w"

definition same_tokens :: "'d world \<Rightarrow> 'd world \<Rightarrow> bool" where
  "same_tokens w v \<longleftrightarrow> (\<forall>u t. UsmCheckTokenId (sessions v) u t = UsmCheckTokenId (sessions w) u t)"

definition same_grants :: "'d world \<Rightarrow> 'd world \<Rightarrow> bool" where
  "same_grants w v \<longleftrightarrow> (\<forall>u g. UsmUserCanAccessSgi (sessions v) u g = UsmUserCanAccessSgi (sessions w) u g)"

definition grants_ok :: "'d world \<Rightarrow> 'd world \<Rightarrow> bool" where
  "grants_ok w v \<longleftrightarrow> (usm_inv (sessions w) \<longrightarrow> usm_inv (sessions v))"

interpretation unchanged: world_order unchanged
  by unfold_locales (simp_all add: unchanged_def)

interpretation same_database: database_order same_database
  by unfold_locales (simp_all add: same_database_def)

interpretation same_tokens: grant_tolerant same_tokens
  by unfold_locales (simp_all add: same_tokens_def usm_simps)

interpretation same_grants: session_order same_grants
  by unfold_locales (simp_all add: same_grants_def)

lemma grants_ok_exec: "grants_ok w (w\<lparr>sessions := usm_exec c (sessions w)\<rparr>)"
  by (simp add: grants_ok_def usm_inv_exec)

interpretation grants_ok: grant_tolerant grants_ok
  by unfold_locales
    (use grants_ok_exec [of _ "Allow _ _"] grants_ok_exec [of _ "Revoke _ _"] in \<open>simp_all add: grants_ok_def\<close>)

lemma keeps_unchanged: "keeps unchanged m \<longleftrightarrow> (\<forall>w. fst (m w) = w)"
  by (simp add: keeps_def unchanged_def)

section \<open>Keys of routes\<close>

lemma write_keys:
  assumes "m \<noteq> ''PUT''" and "m \<noteq> ''PATCH''"
  shows "m @ '' '' @ e \<noteq> ''PUT user''" "m @ '' '' @ e \<noteq> ''PATCH users''" "m @ '' '' @ e \<noteq> ''PATCH nodes''"
    "m @ '' '' @ e \<noteq> ''PUT nodes''" "m @ '' '' @ e \<noteq> ''PUT edges''" "m @ '' '' @ e \<noteq> ''PATCH edges''"
    "m @ '' '' @ e \<noteq> ''PUT node''" "m @ '' '' @ e \<noteq> ''PUT share''" "m @ '' '' @ e \<noteq> ''PATCH share''"
  using assms key_eq [of m e "''PUT''"] key_eq [of m e "''PATCH''"] by fastforce+

section \<open>One request\<close>

text \<open>A refusal changes nothing, or ends the session of an expired token.\<close>

definition refusal :: "'d world \<Rightarrow> 'd world \<Rightarrow> bool" where
  "refusal w v \<longleftrightarrow> v = w \<or> (\<exists>u t. v = w\<lparr>sessions := fst (UsmDeleteTokenId (sessions w) u t)\<rparr>)"

lemma authenticate_effect: "refusal w (fst (authenticate E h w))"
  by (simp add: refusal_def authenticate_def act_simps split: option.split) blast

lemma serve_route_effect:
  assumes p: "path = trim_space (hr_path req)" "parts = split_on CHR ''/'' path" "json_content (hr_content_type req)"
  shows "refusal w (fst (serve_route E req path parts w)) \<or>
   (\<exists>uad. admitted E (sessions w) req uad \<and> fst (serve_route E req path parts w) = fst (dispatch E req parts uad w))"
  using serve_route_cases [OF p, of E w]
proof
  assume "\<exists>uad. admitted E (sessions w) req uad \<and> serve_route E req path parts w = dispatch E req parts uad w"
  then show ?thesis by auto
next
  assume "(\<exists>code m. snd (serve_route E req path parts w) = Inr (HttpError code m)) \<and>
    database (fst (serve_route E req path parts w)) = database w"
  obtain r where r: "snd (authenticate E (hr_authorization req) w) = Inr r" using authenticate_total by blast
  show ?thesis
  proof (cases r)
    case (Inl resp)
    then have "fst (serve_route E req path parts w) = fst (authenticate E (hr_authorization req) w)"
      using r by (simp add: serve_route_def act_bind_def act_return_def)
    then show ?thesis using authenticate_effect [of w E] by simp
  next
    case (Inr a)
    have s: "fst (authenticate E (hr_authorization req) w) = w" using authenticate_same r Inr by blast
    have "serve_route E req path parts w =
      (if a = None \<and> path \<notin> set allow_list then ErrorResponse 401 ''missing or invalid auth token'' w
       else if parts ! 1 \<in> set admin_list \<and> (case a of None \<Rightarrow> True | Some u \<Rightarrow> \<not> IsAdmin u)
       then ErrorResponse 401 [] w
       else dispatch E req parts a w)"
      by (simp add: serve_route_def act_bind_def r Inr s)
    moreover have "admitted E (sessions w) req a"
      if "\<not> (a = None \<and> path \<notin> set allow_list)"
        and "\<not> (parts ! 1 \<in> set admin_list \<and> (case a of None \<Rightarrow> True | Some u \<Rightarrow> \<not> IsAdmin u))"
      using that p r Inr by (cases a) (auto simp: admitted_def Let_def authenticate_Some [symmetric])
    ultimately show ?thesis by (auto simp: refusal_def ErrorResponse_apply)
  qed
qed

text \<open>The group, the endpoint and the parameter that the path of a request names.\<close>

definition route_of :: "http_request \<Rightarrow> string \<times> string \<times> string" where
  "route_of req =
     (let parts = split_on CHR ''/'' (trim_space (hr_path req))
      in (parts ! 1, parts ! 2, if 3 < length parts then parts ! 3 else []))"

lemma dispatch_effect:
  assumes "parts = split_on CHR ''/'' (trim_space (hr_path req))"
  shows "fst (dispatch E req parts uad w) = w \<or>
   (\<exists>rgroup h endpoint param. route_of req = (rgroup, endpoint, param) \<and> route_handler E rgroup = Some h \<and>
      fst (dispatch E req parts uad w) = fst (h (hr_method req @ '' '' @ endpoint) param (hr_body req) uad w))"
proof (cases "route_handler E (parts ! 1)")
  case None
  then show ?thesis
    by (cases "index_go parts 2") (simp_all add: dispatch_def act_simps)
next
  case (Some h)
  have res: "fst (http_result r v) = v" for r :: "api_error + reply" and v :: "'a world"
    by (rule unchanged.results [unfolded keeps_unchanged, rule_format])
  have "fst (act_bind m http_result w) = fst (m w)" for m :: "('a, api_error + reply) act"
    by (simp add: act_bind_def res split: sum.split)
  with Some show ?thesis
    by (cases "index_go parts 2")
      (auto simp: dispatch_def act_simps Let_def route_of_def assms index_go_def split: if_splits)
qed

lemma ServeHTTP_route:
  "refusal w (fst (ServeHTTP E req w)) \<or>
   (\<exists>uad rgroup h endpoint param. admitted E (sessions w) req uad
      \<and> route_of req = (rgroup, endpoint, param) \<and> route_handler E rgroup = Some h \<and>
      fst (ServeHTTP E req w) = fst (h (hr_method req @ '' '' @ endpoint) param (hr_body req) uad w))"
proof -
  let ?path = "trim_space (hr_path req)"
  let ?parts = "split_on CHR ''/'' ?path"
  show ?thesis
  proof (cases "json_content (hr_content_type req) \<and> \<not> (length ?parts < 2 \<or> ?parts ! 1 = [])")
    case True
    then have "ServeHTTP E req w = serve_route E req ?path ?parts w"
      by (auto simp: ServeHTTP_def Let_def)
    then show ?thesis
      using serve_route_effect [OF refl refl, of req w E] True dispatch_effect [OF refl, of E req _ w]
      by (fastforce simp: refusal_def)
  next
    case False
    then show ?thesis by (auto simp: ServeHTTP_def Let_def act_simps refusal_def)
  qed
qed

lemma ServeHTTP_effect:
  "refusal w (fst (ServeHTTP E req w)) \<or>
   (\<exists>uad rgroup h endpoint param. admitted E (sessions w) req uad \<and> route_handler E rgroup = Some h \<and>
      fst (ServeHTTP E req w) = fst (h (hr_method req @ '' '' @ endpoint) param (hr_body req) uad w))"
  using ServeHTTP_route [of w E req] by blast

lemma route_handler_cases:
  assumes "route_handler E rgroup = Some h"
  obtains "h = HealthAPI_HandleRequest" | "h = AuthAPI_HandleRequest E" | "h = AdminAPI_HandleRequest E"
    | "h = GraphAPI_HandleRequest E" | "h = UserAPI_HandleRequest E"
  using assms by (auto simp: route_handler_def split: if_splits)

lemma user_group_only:
  assumes "route_handler E rgroup = Some h"
  shows "(h = UserAPI_HandleRequest E \<and> rgroup = ''user'') \<or> h = HealthAPI_HandleRequest
    \<or> h = AuthAPI_HandleRequest E \<or> h = AdminAPI_HandleRequest E \<or> h = GraphAPI_HandleRequest E"
  using assms by (auto simp: route_handler_def split: if_splits)

section \<open>Methods that only read\<close>

lemma reading_user_keys:
  assumes "m \<noteq> ''PUT''" and "m \<noteq> ''PATCH''" and "route_handler E rgroup = Some h"
  shows "keeps same_database (h (m @ '' '' @ endpoint) param body uad)"
  using assms(3)
proof (cases rule: route_handler_cases)
  case 1
  then show ?thesis by (simp add: same_database.reading_handlers)
next
  case 2
  then show ?thesis by (simp add: same_database.auth_group)
next
  case 3
  then show ?thesis
    using write_keys [OF assms(1,2)] by (simp add: AdminAPI_HandleRequest_def same_database.failing)
next
  case 4
  then show ?thesis
    using write_keys [OF assms(1,2)]
    by (simp add: GraphAPI_HandleRequest_def)
      (auto intro!: same_database.sequencing same_database.reading_handlers)
next
  case 5
  then show ?thesis
    using write_keys [OF assms(1,2)]
    by (simp add: UserAPI_HandleRequest_def)
      (auto intro!: same_database.sequencing same_database.reading_handlers same_database.listing)
qed

text \<open>
  Property C25. Only \<open>PUT\<close> and \<open>PATCH\<close> requests write: whatever the caller, the route, the
  body and the answers of the database, and also when the handler panics half way, a request
  with any other method leaves the database as it was.
\<close>

theorem other_methods_read_only:
  assumes "hr_method req \<noteq> ''PUT''" and "hr_method req \<noteq> ''PATCH''"
  shows "database (fst (ServeHTTP E req w)) = database w"
  using ServeHTTP_effect [of w E req]
proof
  assume "refusal w (fst (ServeHTTP E req w))"
  then show ?thesis by (auto simp: refusal_def)
next
  assume "\<exists>uad rgroup h endpoint param. admitted E (sessions w) req uad \<and> route_handler E rgroup = Some h \<and>
      fst (ServeHTTP E req w) = fst (h (hr_method req @ '' '' @ endpoint) param (hr_body req) uad w)"
  then obtain uad rgroup h endpoint param where "route_handler E rgroup = Some h"
    and e: "fst (ServeHTTP E req w) = fst (h (hr_method req @ '' '' @ endpoint) param (hr_body req) uad w)" by blast
  from reading_user_keys [OF assms this(1)]
  have "same_database w (fst (h (hr_method req @ '' '' @ endpoint) param (hr_body req) uad w))"
    by (simp add: keeps_def)
  with e show ?thesis by (simp add: same_database_def)
qed

definition probe_request :: http_request where
  "probe_request = \<lparr>hr_content_type = [''application/json''], hr_authorization = [], hr_method = ''GET'',
     hr_path = ''/health/status'', hr_body = []\<rparr>"

theorem other_methods_read_only_witness:
  "database (fst (ServeHTTP toy_env probe_request empty_world)) = database empty_world"
  by (rule other_methods_read_only) (simp_all add: probe_request_def)

section \<open>Token ids\<close>

text \<open>The request presented the password of a stored user, who is the first one with that name.\<close>

definition logged_in :: "'d env \<Rightarrow> 'd world \<Rightarrow> string \<Rightarrow> string \<Rightarrow> bool" where
  "logged_in E w body uid \<longleftrightarrow>
     (\<exists>lr user us h. dec_login (decs E) body = Some lr \<and> LoginRequest_Validate lr
        \<and> run_users (dbase E) (database w) query_user_text [(''$username'', LR_Username lr)] = Some (Some (Some user # us))
        \<and> PasswordHash (uattrs user) = Some h \<and> VerifyPasswordHash (cry E) h (LR_Password lr) \<and> UserUid user = uid)"

lemma first_user_Inr_Some:
  assumes "first_user a = Inr res" and "RUser (fst res) = Some user" and "\<not> snd res"
  shows "\<exists>us. a = Some (Some (Some user # us))"
proof (cases a)
  case None
  with assms show ?thesis by (auto simp: first_user_def)
next
  case (Some users)
  with assms obtain l where l: "users = Some l" by (cases users) (auto simp: first_user_def)
  with Some assms show ?thesis
    by (cases l) (auto simp: first_user_def user_result_def UserResponseFromUser_def UserResponseFromError_def split: option.splits)
qed

lemma handle_login_cases:
  obtains (accepted) lr user us h where "dec_login (decs E) body = Some lr" and "LoginRequest_Validate lr"
    and "run_users (dbase E) (database w) query_user_text [(''$username'', LR_Username lr)] = Some (Some (Some user # us))"
    and "PasswordHash (uattrs user) = Some h" and "VerifyPasswordHash (cry E) h (LR_Password lr)"
    and "sessions (fst (handle_login E body caller w))
      = UsmAddTokenId (sessions w) (UserUid user) (newTokenId (random E 0))"
    and "\<And>r. snd (handle_login E body caller w) = Inr (Inr (TokenBody r)) \<Longrightarrow>
      \<exists>role. URole (uattrs user) = Some role \<and> r = tokenResponse E (UserUid user) role (newTokenId (random E 0))"
  | (rejected) "sessions (fst (handle_login E body caller w)) = sessions w"
    and "\<And>r. snd (handle_login E body caller w) \<noteq> Inr (Inr (TokenBody r))"
proof (cases "BindToRequest LoginRequest_AuthzDataUnpack LoginRequest_Validate (dec_login (decs E) body)
    \<lparr>UAD = caller, RequiredPermissions = []\<rparr>")
  case (Inl p)
  then show ?thesis by (intro rejected) (simp_all add: handle_login_def act_simps)
next
  case (Inr b)
  note bound = Inr
  show ?thesis
  proof (cases b)
    case (Inl e)
    with bound show ?thesis by (intro rejected; cases e) (simp_all add: handle_login_def act_simps)
  next
    case (Inr lr)
    with bound have lr: "dec_login (decs E) body = Some lr" "LoginRequest_Validate lr"
      by (auto simp: BindToRequest_Inr TryAuthzDataUnpack_def LoginRequest_AuthzDataUnpack_def)
    let ?q = "run_users (dbase E) (database w) query_user_text [(''$username'', LR_Username lr)]"
    show ?thesis
    proof (cases "\<exists>res. first_user ?q = Inr res \<and> valid_login (cry E) (LR_Password lr) res = Inr True")
      case True
      then obtain res where f: "first_user ?q = Inr res" and v: "valid_login (cry E) (LR_Password lr) res = Inr True" by blast
      then obtain user h where user: "RUser (fst res) = Some user" "\<not> snd res" "PasswordHash (uattrs user) = Some h"
        "VerifyPasswordHash (cry E) h (LR_Password lr)"
        by (auto simp: valid_login_def go_bind_eq_Inr_iff split: if_splits)
      from first_user_Inr_Some [OF f user(1,2)] obtain us where "?q = Some (Some (Some user # us))" by blast
      from lr this user(3,4) show ?thesis
        by (rule accepted) (use bound Inr f v user in \<open>cases "URole (uattrs user)";
          auto simp: handle_login_def act_simps QueryUser_def Let_def\<close>)+
    next
      case False
      then show ?thesis
        by (intro rejected; use bound Inr in \<open>cases "first_user ?q"; cases "valid_login (cry E) (LR_Password lr) (projr (first_user ?q))"\<close>)
          (auto simp: handle_login_def act_simps QueryUser_def)
    qed
  qed
qed

lemma handle_login_tokens:
  assumes "UsmCheckTokenId (sessions (fst (handle_login E body caller w))) u t"
  shows "UsmCheckTokenId (sessions w) u t \<or> (logged_in E w body u \<and> t = newTokenId (random E 0))"
proof (cases rule: handle_login_cases [of E body w caller])
  case (accepted lr user us h)
  then have "logged_in E w body (UserUid user)" unfolding logged_in_def by blast
  with accepted assms show ?thesis by (auto simp: usm_simps)
next
  case rejected
  with assms show ?thesis by simp
qed

text \<open>The token ids after a request: what was there, less what was ended, and a new login.\<close>

definition fewer_tokens :: "'d world \<Rightarrow> 'd world \<Rightarrow> bool" where
  "fewer_tokens w v \<longleftrightarrow> (\<forall>u t. UsmCheckTokenId (sessions v) u t \<longrightarrow> UsmCheckTokenId (sessions w) u t)"

interpretation fewer_tokens: grant_tolerant fewer_tokens
  by unfold_locales (simp_all add: fewer_tokens_def usm_simps)

lemma fewer_tokens_logout: "keeps fewer_tokens (handle_logout uadp)"
  unfolding handle_logout_def
  by (intro fewer_tokens.sequencing keeps_update_sessions) (simp add: fewer_tokens_def usm_simps)

lemma request_tokens:
  assumes "UsmCheckTokenId (sessions (fst (ServeHTTP E req w))) u t"
  shows "UsmCheckTokenId (sessions w) u t \<or> (logged_in E w (hr_body req) u \<and> t = newTokenId (random E 0))"
  using ServeHTTP_effect [of w E req]
proof
  assume "refusal w (fst (ServeHTTP E req w))"
  with assms show ?thesis by (auto simp: refusal_def usm_simps)
next
  assume "\<exists>uad rgroup h endpoint param. admitted E (sessions w) req uad \<and> route_handler E rgroup = Some h \<and>
      fst (ServeHTTP E req w) = fst (h (hr_method req @ '' '' @ endpoint) param (hr_body req) uad w)"
  then obtain uad rgroup h k param where h: "route_handler E rgroup = Some h"
    and e: "fst (ServeHTTP E req w) = fst (h k param (hr_body req) uad w)" by blast
  have fewer: ?thesis if "keeps fewer_tokens (h k param (hr_body req) uad)"
    using that assms e by (auto simp: keeps_def fewer_tokens_def)
  from h show ?thesis
  proof (cases rule: route_handler_cases)
    case 2
    show ?thesis
    proof (cases "k = ''POST login''")
      case True
      with assms e 2 handle_login_tokens [of E "hr_body req" uad w u t] show ?thesis
        by (simp add: AuthAPI_HandleRequest_def)
    next
      case False
      with 2 have "keeps fewer_tokens (h k param (hr_body req) uad)"
        by (auto simp: AuthAPI_HandleRequest_def
            intro!: fewer_tokens.sequencing fewer_tokens.reading_handlers fewer_tokens_logout)
      then show ?thesis by (rule fewer)
    qed
  qed (auto intro!: fewer fewer_tokens.reading_handlers fewer_tokens.quiet_handlers fewer_tokens.graph_group
      fewer_tokens.user_group)
qed

end
