(* ===== verification/Findings.thy ===== *)
theory Findings
  imports ServerProps
begin

text \<open>
  Where the program departs from what its comments promise, stated as properties of the
  model: listing shared nodes grants whatever a search returned, and sharing panics on an AD
  of the wrong kind.
\<close>

section \<open>Listing shared nodes\<close>

lemma query_root_block:
  "Geo q = Some g \<or> Similar q = Some sim \<Longrightarrow>
   query_root C rt (scoped_query u q) et = query_root C rt (scoped_query v q) et"
  by (cases "Similar q") (auto simp: query_root_def scoped_query_def)

lemma compile_block:
  assumes "Geo q = Some g \<or> Similar q = Some sim" and "\<not> IsAdmin u" and "\<not> IsAdmin v"
  shows "compile_query C rt (scoped_query u q) USERSHARE (Some u) l = compile_query C rt (scoped_query v q) USERSHARE (Some v) l'"
proof -
  have r: "query_root C rt (scoped_query u q) USERSHARE = query_root C rt (scoped_query v q) USERSHARE"
    by (rule query_root_block [OF assms(1)])
  have s: "checkQueryFields (scoped_query u q) (Some u) = checkQueryFields (scoped_query v q) (Some v)"
    "Filters (scoped_query u q) = Filters (scoped_query v q)" "Select (scoped_query u q) = Select (scoped_query v q)"
    "renderPagination (scoped_query u q) = renderPagination (scoped_query v q)"
    using assms(2,3) by (simp_all add: scoped_query_def checkQueryFields_def checkPrivateFieldQueryable_def checkGeoFieldNotFiltered_def
        queryNamesField_def renderPagination_def)
  have f: "renderReadAuthzFilter USERSHARE x y = []" for x y
    by (simp add: renderReadAuthzFilter_def split: option.split)
  show ?thesis unfolding compile_query_def r s f ..
qed

lemma query_block:
  assumes "Geo q \<noteq> None \<or> Similar q \<noteq> None" and "\<not> IsAdmin u" and "\<not> IsAdmin v"
  shows "QueryWithOptions C rt tnow db (scoped_query u q) USERSHARE (Some u) l
    = QueryWithOptions C rt tnow db (scoped_query v q) USERSHARE (Some v) l'"
proof -
  obtain g sim where "Geo q = Some g \<or> Similar q = Some sim" using assms(1) by auto
  from compile_block [OF this assms(2,3), of C rt l l'] show ?thesis unfolding QueryWithOptions_def by simp
qed

definition listed_grants :: "'d env \<Rightarrow> string \<Rightarrow> UserAuthData \<Rightarrow> 'd world \<Rightarrow> string \<Rightarrow> string \<Rightarrow> bool" where
  "listed_grants E body uad w = UsmUserCanAccessSgi (sessions (fst (handle_user_nodes E ''shared'' body uad w)))"

lemma handle_shared_sessions:
  assumes "dec_query (decs E) body = Some r" and "RootIDs r = []" and "RootQuery r = None" and "\<not> IsAdmin uad"
    and "QueryWithOptions (cry E) (rtm E) (server_time E) (db_query E w) (scoped_query uad r) USERSHARE (Some uad) [] = Inr cr"
    and "shared_sgis (UadUid uad) (result_list cr) = Inr gs"
  shows "sessions (fst (handle_user_nodes E ''shared'' body uad w)) =
    (if sgi_list E gs \<noteq> [] then UsmUserAllowlistSgi (sessions w) (UadUid uad) (sgi_list E gs) else sessions w)"
proof -
  have b: "BindToRequest (QueryRequest_AuthzDataUnpack (cry E) (sessions w)) QueryRequest_Validate (dec_query (decs E) body)
      \<lparr>UAD = Some uad, RequiredPermissions = []\<rparr> = Inr (Inr r)"
    by (simp add: assms BindToRequest_def TryAuthzDataUnpack_def QueryRequest_AuthzDataUnpack_def QueryRequest_Validate_def)
  show ?thesis
    by (simp add: handle_user_nodes_def own_edge_type_def b [unfolded assms(1)] assms act_simps act_bind_Inr [OF AllowListSharedSgis_apply])
qed

text \<open>
  Property C31. Listing the nodes shared with a user grants, for the lifetime of the process,
  the groups of all nodes that the query returned, before the output filter has seen them.
  The comment in the handler relies on the query being scoped to the caller; but with a
  geographic or similarity block the query does not depend on who the caller is: what
  is granted to a caller is then what the database returns for the same request made by any
  other user, so a caller obtains the groups of other users' nodes by searching near them.
\<close>

theorem shared_listing_grants:
  assumes "dec_query (decs E) body = Some r" and "RootIDs r = []" and "RootQuery r = None"
    and "\<not> IsAdmin caller" and "\<not> IsAdmin other" and "caller = other \<or> Geo r \<noteq> None \<or> Similar r \<noteq> None"
    and "QueryWithOptions (cry E) (rtm E) (server_time E) (db_query E w) (scoped_query other r) USERSHARE (Some other) [] = Inr cr"
    and "shared_sgis (UadUid caller) (result_list cr) = Inr gs" and "list_all plain_group gs"
    and "\<And>xs. mset (map_order (rtm E) xs) = mset xs"
  shows "listed_grants E body caller w v g =
      (UsmUserCanAccessSgi (sessions w) v g
       \<or> (v = UadUid caller \<and> v \<noteq> [] \<and> g \<in> shareable (UadUid caller) (result_list cr)))"
proof -
  have q: "QueryWithOptions (cry E) (rtm E) (server_time E) (db_query E w) (scoped_query caller r) USERSHARE (Some caller) [] = Inr cr"
    using assms(6,7) query_block [OF _ assms(4,5), of r "cry E" "rtm E" "server_time E" "db_query E w" "[]" "[]"]
    by (cases "caller = other") simp_all
  have "listed_grants E body caller w v g =
      (UsmUserCanAccessSgi (sessions w) v g
       \<or> (v = UadUid caller \<and> UadUid caller \<noteq> [] \<and> g \<in> shareable (UadUid caller) (result_list cr)))"
    unfolding listed_grants_def
    by (rule shared_update_sessions [OF assms(10,8,9)]) (simp add: handle_shared_sessions [OF assms(1-4) q assms(8)])
  then show ?thesis by auto
qed

text \<open>
  An instance: a database in which nothing is reachable from any user, but a search near a
  point finds a node of user 0x2 in group grp2. What it returns to 0x3 decides the grant to 0x1.
\<close>

definition foreign_node :: graph_node where
  "foreign_node = GraphNode ((node_attrs_of_uid ''0x9'')\<lparr>Sgi := Some ''grp2'', PermRead := Some True\<rparr>) None (Some (NewGraphUser ''0x2''))"

definition geo_request :: QueryRequest where
  "geo_request = \<lparr>RootIDs = [], RootQuery = None, Depth = 0, Filters = None, Select = [], First = None, Offset = None,
     After = None, OrderBy = None, OrderDesc = False, Similar = None,
     Geo = Some \<lparr>Point = [Finite 0, Finite 0], Distance = Finite 20000000\<rparr>\<rparr>"

definition geo_env :: "unit env" where
  "geo_env = toy_env\<lparr>decs := no_decoders\<lparr>dec_query := (\<lambda>_. Some geo_request)\<rparr>,
     dbase := (answering_db [])\<lparr>run_nodes := (\<lambda>d q vs. if map_of vs ''$ids'' = None then Some (Some [Some foreign_node]) else Some (Some []))\<rparr>\<rparr>"

lemma geo_env_simps: "cry geo_env = toy_crypto" "rtm geo_env = toy_runtime" "dec_query (decs geo_env) body = Some geo_request"
  "server_time geo_env = 5"
  "db_query geo_env w q vs = (if map_of vs ''$ids'' = None then Some (Some [Some foreign_node]) else Some (Some []))"
  by (simp_all add: geo_env_def toy_env_def db_query_def)

lemma geo_query_compiles:
  "\<exists>q n t. compile_query toy_crypto toy_runtime (scoped_query uad geo_request) USERSHARE (Some uad) []
     = Inr (Inr (q, [(bind_name toy_crypto n, t)]))"
proof -
  have v: "validateGeo \<lparr>Point = [Finite 0, Finite 0], Distance = Finite 20000000\<rparr> = None"
    by (subst validateGeo_finite [where lon = 0 and lat = 0 and d = 20000000]) simp_all
  have chk: "checkQueryFields (scoped_query uad geo_request) (Some uad) = None"
    by (simp add: checkQueryFields_def checkPrivateFieldQueryable_def checkGeoFieldNotFiltered_def queryNamesField_def
        clauseNamesField_def scoped_query_def geo_request_def first_error_def validateGeoClauses_def)
  have "\<exists>f. renderGeoRootFunc toy_runtime \<lparr>Point = [Finite 0, Finite 0], Distance = Finite 20000000\<rparr> = Inr (Inr f)"
    using valid_geo_renders [OF v, of toy_runtime] by (auto simp: renderGeoRootFunc_def v)
  then obtain f where root: "query_root toy_crypto toy_runtime (scoped_query uad geo_request) USERSHARE
      = Inr (Inr (root_function f, [], []))"
    by (auto simp: query_root_def scoped_query_def geo_request_def)
  have "renderOp ''gt'' = ''gt''" by code_simp
  then have "\<exists>n t tx. constructQueryStringAndAddVars toy_crypto toy_runtime (default_filter toy_runtime) []
      = Inr (tx, [(bind_name toy_crypto n, t)])"
    by (simp add: default_filter_def compile_end_def compile_leaf_def Let_def) blast
  then obtain n t tx where d: "constructQueryStringAndAddVars toy_crypto toy_runtime (default_filter toy_runtime) []
      = Inr (tx, [(bind_name toy_crypto n, t)])" by blast
  have "Filters (scoped_query uad geo_request) = None"
    by (simp add: scoped_query_def geo_request_def)
  then show ?thesis by (auto simp: compile_query_def chk root d Let_def)
qed

theorem shared_listing_grants_witness:
  "\<not> UsmUserCanAccessSgi (sessions empty_world) ''0x1'' ''grp2''
   \<and> listed_grants geo_env [] example_uad empty_world ''0x1'' ''grp2''"
proof -
  let ?other = "example_uad\<lparr>UadUid := ''0x3''\<rparr>"
  obtain q n t where c: "compile_query toy_crypto toy_runtime (scoped_query ?other geo_request) USERSHARE (Some ?other) []
     = Inr (Inr (q, [(bind_name toy_crypto n, t)]))"
    using geo_query_compiles by blast
  define cr where "cr = (empty_response 5)\<lparr>ResultNodes := Some [Some (clear_type_node foreign_node)]\<rparr>"
  have "map_of [(bind_name toy_crypto n, t)] ''$ids'' = None" by (simp add: bind_name_def)
  then have run: "QueryWithOptions (cry geo_env) (rtm geo_env) (server_time geo_env) (db_query geo_env empty_world)
      (scoped_query ?other geo_request) USERSHARE (Some ?other) [] = Inr cr"
    by (simp add: QueryWithOptions_def geo_env_simps c CoggedResponseFromNodes_def cr_def)
  have res: "result_list cr = [Some (clear_type_node foreign_node)]"
    by (simp add: result_list_def cr_def)
  have f: "\<not> owner_is (UadUid example_uad) (clear_type_node foreign_node)"
    "PermRead (nattrs (clear_type_node foreign_node)) = Some True" "Sgi (nattrs (clear_type_node foreign_node)) = Some ''grp2''"
    by (simp_all add: owner_is_def clear_type_node_def foreign_node_def NewGraphUser_def example_uad_def node_attrs_of_uid_def)
  have gs: "shared_sgis (UadUid example_uad) (result_list cr) = Inr [''grp2'']" by (simp add: res f)
  have na: "\<not> IsAdmin example_uad" "\<not> IsAdmin ?other" by (simp_all add: IsAdmin_def example_uad_def SYS_ROLE_def)
  have g: "''grp2'' \<in> shareable (UadUid example_uad) (result_list cr)"
    using shared_sgis_set [OF gs] by auto
  have p: "list_all plain_group [''grp2'']" by (simp add: plain_group_def)
  have m: "mset (map_order (rtm geo_env) xs) = mset xs" for xs
    by (simp add: geo_env_simps toy_runtime_def)
  have r: "dec_query (decs geo_env) [] = Some geo_request" "RootIDs geo_request = []" "RootQuery geo_request = None"
    by (simp_all add: geo_env_simps geo_request_def)
  have geo: "example_uad = ?other \<or> Geo geo_request \<noteq> None \<or> Similar geo_request \<noteq> None"
    by (simp add: geo_request_def)
  have "listed_grants geo_env [] example_uad empty_world ''0x1'' ''grp2'' =
      (UsmUserCanAccessSgi (sessions empty_world) ''0x1'' ''grp2'' \<or>
       (''0x1'' = UadUid example_uad \<and> ''0x1'' \<noteq> [] \<and> ''grp2'' \<in> shareable (UadUid example_uad) (result_list cr)))"
    by (rule shared_listing_grants [OF r na geo run gs p m])
  moreover have "UadUid example_uad = ''0x1''" by (simp add: example_uad_def)
  ultimately show ?thesis using g by (simp add: empty_world_def UsmInit_empty)
qed

section \<open>Sharing with an AD of the wrong kind\<close>

text \<open>
  Sharing with a node AD crashes the handler: the check of the users of a share
  request accepts any text the caller's key has sealed, also the AD of a node, and the
  handler then reads the role of a nil user.
\<close>

lemma share_with_node_ad_panics:
  "AuthzDataUnpackUserADStringSlice toy_crypto (Some [AuthzData (nattrs example_packed)]) example_uad
     = (Some [''0x5.0x1.grp1.r''], True)
   \<and> share_targets code [''0x5.0x1.grp1.r''] = Inl NilDeref"
proof -
  have "DecodeAndVerifyAD toy_crypto (AuthzData (nattrs example_packed)) ''a2V5'' = ''0x5.0x1.grp1.r''"
    using example_packed_text by simp
  then show ?thesis
    by (simp add: AuthzDataUnpackUserADStringSlice_def example_uad_def GraphUserFromUnpackedAD_def)
qed

end
