(* ===== verification/Grants.thy ===== *)
theory Grants
  imports Sessions Findings
begin

text \<open>
  Where grants come from: every grant in the session manager has been caused by a caller who
  may share a node of the group, or by the user's own listing of shared nodes; what a share
  request grants and revokes; and the invariant of the server over any history of requests.
\<close>

section \<open>Lists of groups\<close>

lemma sgi_parts_concat_general:
  "set (sgi_parts (concat (map (\<lambda>g. g @ '','') gs))) = (\<Union>g \<in> set gs. set (sgi_parts g))"
  by (induction gs) (auto simp: set_sgi_parts split_on_append_sep)

lemma sgi_parts_sgi_list_general:
  assumes "\<And>xs. mset (map_order (rtm E) xs) = mset xs"
  shows "set (sgi_parts (sgi_list E gs)) = (\<Union>g \<in> set gs. set (sgi_parts g))"
proof -
  have "set (map_order (rtm E) gs) = set gs" by (metis assms set_mset_mset)
  then show ?thesis by (simp add: sgi_list_def sgi_parts_concat_general)
qed

definition more_grants :: "(string \<Rightarrow> string \<Rightarrow> bool) \<Rightarrow> 'd world \<Rightarrow> 'd world \<Rightarrow> bool" where
  "more_grants Q w v \<longleftrightarrow>
     (\<forall>u g. UsmUserCanAccessSgi (sessions v) u g \<longrightarrow> UsmUserCanAccessSgi (sessions w) u g \<or> Q u g)"

interpretation more_grants: session_order "more_grants Q" for Q
  by unfold_locales (auto simp: more_grants_def)

lemma more_grants_update:
  assumes "\<And>xs. mset (map_order (rtm E) xs) = mset xs"
    and Q: "\<And>gr g. gr \<in> shareable uid ns \<Longrightarrow> g \<in> set (sgi_parts gr) \<Longrightarrow> Q uid g"
  shows "keeps (more_grants Q) (UpdateAllowListSharedSgis E b uid ns)"
proof (cases "shared_sgis uid ns")
  case (Inl p)
  then show ?thesis by (simp add: UpdateAllowListSharedSgis_def act_simps more_grants.go)
next
  case (Inr gs)
  have "\<And>g. g \<in> set (sgi_parts (sgi_list E gs)) \<Longrightarrow> Q uid g"
    using sgi_parts_sgi_list_general [OF assms(1)] shared_sgis_set [OF Inr] Q by auto
  then have "more_grants Q w (w\<lparr>sessions := UsmUserAllowlistSgi (sessions w) uid (sgi_list E gs)\<rparr>)"
    "more_grants Q w (w\<lparr>sessions := UsmUserRevokeSgi (sessions w) uid (sgi_list E gs)\<rparr>)" for w
    by (auto simp: more_grants_def usm_simps)
  then show ?thesis
    by (auto simp: UpdateAllowListSharedSgis_def Inr act_simps Let_def intro!: more_grants.return keeps_update_sessions)
qed

lemma fewer_grants: "keeps (more_grants Q) (UpdateAllowListSharedSgis E False uid ns)"
  unfolding UpdateAllowListSharedSgis_def Let_def
  by (auto intro!: more_grants.sequencing keeps_update_sessions) (simp add: more_grants_def usm_simps)

text \<open>
  Who may be granted what by a node: a user who does not own it gets its group, if its read
  bit is set. A group with commas counts as several.
\<close>

definition group_of :: "string \<Rightarrow> graph_node \<Rightarrow> string \<Rightarrow> bool" where
  "group_of v n g \<longleftrightarrow> \<not> owner_is v n \<and> PermRead (nattrs n) = Some True
     \<and> (\<exists>gr. Sgi (nattrs n) = Some gr \<and> g \<in> set (sgi_parts gr))"

definition share_request :: "'d env \<Rightarrow> usm \<Rightarrow> string \<Rightarrow> UserAuthData \<Rightarrow> (bind_error + ShareNodesRequest) go" where
  "share_request E s body uad =
     BindToRequest (ShareNodesRequest_AuthzDataUnpack (cry E) s) ShareNodesRequest_Validate
       (dec_share (decs E) body) \<lparr>UAD = Some uad, RequiredPermissions = ''s''\<rparr>"

definition listing_query :: "'d env \<Rightarrow> usm \<Rightarrow> string \<Rightarrow> UserAuthData \<Rightarrow> (bind_error + QueryRequest) go" where
  "listing_query E s body uad =
     BindToRequest (QueryRequest_AuthzDataUnpack (cry E) s) QueryRequest_Validate
       (dec_query (decs E) body) \<lparr>UAD = Some uad, RequiredPermissions = []\<rparr>"

text \<open>
  The body is an accepted share request that names the user as a target, and one of its ADs
  gives the caller share permission for a node of the group.
\<close>

definition shares_with :: "'d env \<Rightarrow> 'd world \<Rightarrow> string \<Rightarrow> UserAuthData \<Rightarrow> string \<Rightarrow> string \<Rightarrow> bool" where
  "shares_with E w body uad v g \<longleftrightarrow>
     (\<exists>r0 ads r users us ad n.
        dec_share (decs E) body = Some r0 \<and> SN_Nodes r0 = Some ads
      \<and> share_request E (sessions w) body uad = Inr (Inr r)
      \<and> SN_Users r = Some users \<and> share_targets 404 users = Inr (Inr us) \<and> v \<in> set us
      \<and> ad \<in> set ads \<and> AuthzDataUnpackADString (cry E) (sessions w) ad uad ''s'' = Some n \<and> group_of v n g)"

text \<open>
  The body is a query of the user, who is not a system user, and the database returned a node
  of the group for this query, scoped to the user.
\<close>

definition lists_shared :: "'d env \<Rightarrow> 'd world \<Rightarrow> string \<Rightarrow> UserAuthData \<Rightarrow> string \<Rightarrow> string \<Rightarrow> bool" where
  "lists_shared E w body uad v g \<longleftrightarrow>
     v = UadUid uad \<and> \<not> IsAdmin uad \<and>
     (\<exists>r cr n. listing_query E (sessions w) body uad = Inr (Inr r)
        \<and> QueryWithOptions (cry E) (rtm E) (server_time E) (db_query E w) (scoped_query uad r) USERSHARE (Some uad) [] = Inr cr
        \<and> Some n \<in> set (result_list cr) \<and> group_of v n g)"

lemma shareable_group_of: "gr \<in> shareable v ns \<Longrightarrow> g \<in> set (sgi_parts gr) \<Longrightarrow> \<exists>n. Some n \<in> set ns \<and> group_of v n g"
  by (auto simp: shareable_def group_of_def)

lemma share_unpacked:
  assumes "BindToRequest (ShareNodesRequest_AuthzDataUnpack C s) ShareNodesRequest_Validate body
      \<lparr>UAD = Some uad, RequiredPermissions = rp\<rparr> = Inr (Inr r)"
  shows "\<exists>r0 ads. body = Some r0 \<and> SN_Nodes r0 = Some ads
    \<and> list_all2 (\<lambda>ad n. AuthzDataUnpackADString C s ad uad rp = Some n) ads (SN_UnpackedNodes r)
    \<and> SN_Nodes r = Some (map NodeUid (SN_UnpackedNodes r))"
proof -
  from assms obtain r0 where body: "body = Some r0"
    and u: "ShareNodesRequest_AuthzDataUnpack C s r0 uad rp = Inr (r, True)"
    by (auto simp: BindToRequest_Inr TryAuthzDataUnpack_def)
  obtain uids nodes ok1 where p: "AuthzDataUnpackADStringSlicePlusNodes C s (SN_Nodes r0) uad rp = (uids, nodes, ok1)"
    by (metis prod_cases3)
  with u have ok1: "ok1" and r: "SN_Nodes r = uids" "SN_UnpackedNodes r = nodes"
    by (auto simp: ShareNodesRequest_AuthzDataUnpack_def split: prod.splits if_splits)
  with p obtain ads where ads: "SN_Nodes r0 = Some ads"
    by (auto simp: AuthzDataUnpackADStringSlicePlusNodes_def split: option.splits)
  with p ok1 have "snd (snd (unpack_ads C s uad rp ads))" "nodes = fst (snd (unpack_ads C s uad rp ads))"
    "uids = Some (fst (unpack_ads C s uad rp ads))"
    by (auto simp: AuthzDataUnpackADStringSlicePlusNodes_def case_prod_unfold split: if_splits)
  with unpack_ads_ok [of C s uad rp ads] body ads r show ?thesis by simp
qed

lemma list_all2_right: "list_all2 P xs ys \<Longrightarrow> y \<in> set ys \<Longrightarrow> \<exists>x \<in> set xs. P x y"
  by (induction rule: list_all2_induct) auto

lemma handle_unshare_grants: "keeps (more_grants Q) (handle_share E DELETE body uad)"
  unfolding handle_share_def share_update
  by (auto intro!: more_grants.sequencing more_grants.upserts fewer_grants split: sum.split)

lemma handle_share_grants:
  assumes "\<And>xs. mset (map_order (rtm E) xs) = mset xs"
  shows "more_grants (shares_with E w body uad) w (fst (handle_share E ADD body uad w))"
proof (cases "share_request E (sessions w) body uad")
  case (Inl p)
  then show ?thesis by (simp add: handle_share_def share_request_def act_simps more_grants.same)
next
  case (Inr b)
  note bound = Inr
  show ?thesis
  proof (cases b)
    case (Inl e)
    with bound show ?thesis by (cases e) (simp add: handle_share_def share_request_def act_simps more_grants.same)
  next
    case (Inr r)
    let ?Q = "shares_with E w body uad"
    note acc = bound [unfolded Inr]
    from share_unpacked [OF acc [unfolded share_request_def]] obtain r0 ads where
      req: "dec_share (decs E) body = Some r0" "SN_Nodes r0 = Some ads"
        "list_all2 (\<lambda>ad n. AuthzDataUnpackADString (cry E) (sessions w) ad uad ''s'' = Some n) ads (SN_UnpackedNodes r)"
      by blast
    have Q: "?Q u g" if "SN_Users r = Some users" "share_targets 404 users = Inr (Inr us)" "u \<in> set us"
      "gr \<in> shareable u (map Some (SN_UnpackedNodes r))" "g \<in> set (sgi_parts gr)" for users us u gr g
    proof -
      from shareable_group_of [OF that(4,5)] obtain n where n: "n \<in> set (SN_UnpackedNodes r)" "group_of u n g" by auto
      from list_all2_right [OF req(3) n(1)] obtain ad where "ad \<in> set ads" "AuthzDataUnpackADString (cry E) (sessions w) ad uad ''s'' = Some n"
        by blast
      with req(1,2) n that(1-3) acc show ?thesis unfolding shares_with_def by blast
    qed
    have upd: "keeps (more_grants ?Q) (UpdateAllowListSharedSgis E True u (map Some (SN_UnpackedNodes r)))"
      if "SN_Users r = Some users" "share_targets 404 users = Inr (Inr us)" "u \<in> set us" for users us u
      using Q [OF that] by (intro more_grants_update assms) blast
    have "keeps (more_grants ?Q) (act_bind (act_go t) (\<lambda>t.
         case t of
           Inl x \<Rightarrow> act_return (Inl x)
         | Inr us \<Rightarrow>
             act_bind (UpdateUserShareEdges (server_time E) (dbase E) (SN_Nodes r) (Some us) ADD) (\<lambda>res.
               act_bind (act_each (\<lambda>u. UpdateAllowListSharedSgis E True u (map Some (SN_UnpackedNodes r))) us) (\<lambda>_.
                 reply_cogged E uad (fst res)))))"
      if "t = go_bind (deref (SN_Users r)) (share_targets 404)" for t
    proof (cases "\<exists>users us. SN_Users r = Some users \<and> share_targets 404 users = Inr (Inr us)")
      case True
      then obtain users us where us: "SN_Users r = Some users" "share_targets 404 users = Inr (Inr us)" by blast
      then have "t = Inr (Inr us)" by (simp add: that)
      then show ?thesis
        using upd [OF us] by (auto simp: act_bind_go_Inr intro!: more_grants.bind more_grants.upserts more_grants.each_in more_grants.replies)
    next
      case False
      then show ?thesis
        by (cases t rule: sum.exhaust; cases "projr t" rule: sum.exhaust)
          (auto simp: act_bind_go_Inr act_bind_go_Inl that go_bind_eq_Inr_iff intro: more_grants.return more_grants.go)
    qed
    then show ?thesis
      using acc by (simp add: handle_share_def share_request_def AllowListSharedSgis_def bind_then_apply keeps_def)
  qed
qed

lemma handle_user_nodes_grants:
  assumes "\<And>xs. mset (map_order (rtm E) xs) = mset xs"
  shows "more_grants (\<lambda>v g. param = ''shared'' \<and> lists_shared E w body uad v g) w (fst (handle_user_nodes E param body uad w))"
proof (cases "own_edge_type param")
  case None
  then show ?thesis by (simp add: handle_user_nodes_def act_simps more_grants.same)
next
  case (Some et)
  let ?bind = "listing_query E (sessions w) body uad"
  let ?query = "\<lambda>r. QueryWithOptions (cry E) (rtm E) (server_time E) (db_query E w) (scoped_query uad r) et (Some uad) []"
  note defs = handle_user_nodes_def listing_query_def [symmetric] bind_then_apply act_simps
  consider (panic) p where "?bind = Inl p" | (bad) e where "?bind = Inr (Inl e)"
    | (fails) r p where "?bind = Inr (Inr r)" "?query r = Inl p"
    | (answer) r cr where "?bind = Inr (Inr r)" "?query r = Inr cr"
    by (metis old.sum.exhaust)
  then show ?thesis
  proof cases
    case panic
    then show ?thesis by (simp add: defs Some more_grants.same)
  next
    case bad
    then show ?thesis by (cases e) (simp add: defs Some more_grants.same)
  next
    case fails
    then show ?thesis by (simp add: defs Some more_grants.same)
  next
    case answer
    note b = answer(1) and q = answer(2)
    let ?Q = "\<lambda>v g. param = ''shared'' \<and> lists_shared E w body uad v g"
    have "keeps (more_grants ?Q) (act_bind (if param = ''shared'' \<and> \<not> IsAdmin uad
        then AllowListSharedSgis E (UadUid uad) (result_list cr) else act_return ()) (\<lambda>_. reply_cogged E uad cr))"
    proof (intro more_grants.bind more_grants.branch more_grants.return more_grants.replies)
      assume c: "param = ''shared'' \<and> \<not> IsAdmin uad"
      then have "et = USERSHARE" using Some by (simp add: own_edge_type_def)
      with q have q: "QueryWithOptions (cry E) (rtm E) (server_time E) (db_query E w) (scoped_query uad r) USERSHARE (Some uad) [] = Inr cr"
        by simp
      have "?Q (UadUid uad) g" if "gr \<in> shareable (UadUid uad) (result_list cr)" "g \<in> set (sgi_parts gr)" for gr g
        using shareable_group_of [OF that] b c q unfolding lists_shared_def by blast
      then show "keeps (more_grants ?Q) (AllowListSharedSgis E (UadUid uad) (result_list cr))"
        unfolding AllowListSharedSgis_def by (intro more_grants_update assms) blast
    qed
    then show ?thesis by (simp add: defs Some b q keeps_def)
  qed
qed

lemma more_grants_mono: "more_grants Q w v \<Longrightarrow> (\<And>u g. Q u g \<Longrightarrow> Q' u g) \<Longrightarrow> more_grants Q' w v"
  by (auto simp: more_grants_def)

text \<open>The requests that cause a grant, by their method and route.\<close>

definition caused :: "'d env \<Rightarrow> 'd world \<Rightarrow> http_request \<Rightarrow> string \<Rightarrow> string \<Rightarrow> bool" where
  "caused E w req v g \<longleftrightarrow>
     (\<exists>uad. admitted E (sessions w) req (Some uad) \<and>
        ((hr_method req = ''PUT'' \<and> (\<exists>param. route_of req = (''user'', ''share'', param))
            \<and> shares_with E w (hr_body req) uad v g)
         \<or> (hr_method req = ''POST'' \<and> route_of req = (''user'', ''nodes'', ''shared'')
            \<and> lists_shared E w (hr_body req) uad v g)))"

lemma user_group_grants:
  assumes "\<And>xs. mset (map_order (rtm E) xs) = mset xs" and "admitted E (sessions w) req (Some uad)"
    and r: "route_of req = (''user'', endpoint, p)" and k: "k = hr_method req @ '' '' @ endpoint"
  shows "more_grants (caused E w req) w (fst (UserAPI_HandleRequest E k p (hr_body req) (Some uad) w))"
proof -
  have share: "more_grants (caused E w req) w (fst (handle_share E ADD (hr_body req) uad w))" if "k = ''PUT share''"
  proof (rule more_grants_mono [OF handle_share_grants [OF assms(1)]])
    have "hr_method req = ''PUT'' \<and> endpoint = ''share''" using key_eq [of "hr_method req" endpoint "''PUT''" "''share''"] k that by simp
    then show "shares_with E w (hr_body req) uad u g \<Longrightarrow> caused E w req u g" for u g
      using assms(2) r unfolding caused_def by blast
  qed
  have listing: "more_grants (caused E w req) w (fst (handle_user_nodes E p (hr_body req) uad w))" if "k = ''POST nodes''"
  proof (rule more_grants_mono [OF handle_user_nodes_grants [OF assms(1)]])
    have "hr_method req = ''POST'' \<and> endpoint = ''nodes''" using key_eq [of "hr_method req" endpoint "''POST''" "''nodes''"] k that by simp
    then show "p = ''shared'' \<and> lists_shared E w (hr_body req) uad u g \<Longrightarrow> caused E w req u g" for u g
      using assms(2) r unfolding caused_def by blast
  qed
  have quiet: "more_grants (caused E w req) w (fst (m w))" if "keeps (more_grants (caused E w req)) m" for m :: "'a handler"
    using that by (simp add: keeps_def)
  note quiets = quiet [OF more_grants.quiet_handlers(5) [of _ E "hr_body req" uad]]
    quiet [OF more_grants.reading_handlers(4) [of _ E p uad]] quiet [OF more_grants.reading_handlers(5) [of _ E p uad]]
    quiet [OF more_grants.failing(2)] quiet [OF handle_unshare_grants [of _ E "hr_body req" uad]]
  show ?thesis
    unfolding UserAPI_HandleRequest_def deref_Some act_bind_go_Inr
    using share listing quiets by simp
qed

lemma request_grants:
  assumes "\<And>xs. mset (map_order (rtm E) xs) = mset xs"
  shows "more_grants (caused E w req) w (fst (ServeHTTP E req w))"
  using ServeHTTP_route [of w E req]
proof
  assume "refusal w (fst (ServeHTTP E req w))"
  then show ?thesis by (auto simp: refusal_def more_grants_def usm_simps)
next
  assume "\<exists>uad rgroup h endpoint param. admitted E (sessions w) req uad
      \<and> route_of req = (rgroup, endpoint, param) \<and> route_handler E rgroup = Some h \<and>
      fst (ServeHTTP E req w) = fst (h (hr_method req @ '' '' @ endpoint) param (hr_body req) uad w)"
  then obtain uad rgroup h endpoint param where adm: "admitted E (sessions w) req uad"
    and r: "route_of req = (rgroup, endpoint, param)" and h: "route_handler E rgroup = Some h"
    and e: "fst (ServeHTTP E req w) = fst (h (hr_method req @ '' '' @ endpoint) param (hr_body req) uad w)" by blast
  let ?k = "hr_method req @ '' '' @ endpoint"
  have quiet: ?thesis if "keeps (more_grants (caused E w req)) (h ?k param (hr_body req) uad)"
    using that e by (auto simp: keeps_def)
  consider (user) "h = UserAPI_HandleRequest E" "rgroup = ''user''" | (auth) "h = AuthAPI_HandleRequest E"
    | (other) "h = HealthAPI_HandleRequest \<or> h = AdminAPI_HandleRequest E \<or> h = GraphAPI_HandleRequest E"
    using user_group_only [OF h] by blast
  then show ?thesis
  proof cases
    case auth
    have "keeps same_grants (AuthAPI_HandleRequest E ?k param (hr_body req) uad)"
      unfolding AuthAPI_HandleRequest_def handle_login_def handle_logout_def Let_def
      by (intro same_grants.sequencing same_grants.reading_handlers keeps_update_sessions)
        (simp_all add: same_grants_def usm_simps)
    then show ?thesis by (simp add: e auth keeps_def same_grants_def more_grants_def)
  next
    case user
    show ?thesis
    proof (cases uad)
      case None
      then show ?thesis by (simp add: e user UserAPI_HandleRequest_def act_simps more_grants.same)
    next
      case (Some u)
      with adm r user_group_grants [OF assms, of w req u endpoint param ?k] show ?thesis by (simp add: e user)
    qed
  next
    case other
    then have "keeps (more_grants (caused E w req)) (h ?k param (hr_body req) uad)"
      using more_grants.reading_handlers(1) more_grants.quiet_handlers(1) more_grants.graph_group by blast
    then show ?thesis by (rule quiet)
  qed
qed

section \<open>Histories\<close>

text \<open>Requests served one after the other, each with the environment of its moment.\<close>

definition serve_all :: "('d env \<times> http_request) list \<Rightarrow> 'd world \<Rightarrow> 'd world" where
  "serve_all reqs w = fold (\<lambda>(E, req) w. fst (ServeHTTP E req w)) reqs w"

lemma serve_all_Nil [simp]: "serve_all [] w = w"
  by (simp add: serve_all_def)

lemma serve_all_snoc [simp]: "serve_all (reqs @ [(E, req)]) w = fst (ServeHTTP E req (serve_all reqs w))"
  by (simp add: serve_all_def)

lemma serve_all_induct [consumes 0, case_names start served]:
  assumes "P []" and "\<And>reqs E req. P reqs \<Longrightarrow> P (reqs @ [(E, req)])"
  shows "P reqs"
  using assms by (induction reqs rule: rev_induct) auto

text \<open>
  Property C5. A session exists only for a user who has logged in: whenever the session
  manager, empty at the start, recognises a token id for a user, some earlier request carried
  the stored user's name and a password that matched the stored hash at that moment, and the
  token id is the one drawn for that request. No other request of any route creates a
  session, for anybody.
\<close>

theorem every_session_logged_in:
  assumes "sessions w0 = UsmInit" and "UsmCheckTokenId (sessions (serve_all reqs w0)) u t"
  shows "\<exists>pre E req post. reqs = pre @ (E, req) # post \<and> t = newTokenId (random E 0)
    \<and> logged_in E (serve_all pre w0) (hr_body req) u"
  using assms(2)
proof (induction reqs rule: serve_all_induct)
  case start
  with assms(1) show ?case by (simp add: usm_simps)
next
  case (served reqs E req)
  then consider "UsmCheckTokenId (sessions (serve_all reqs w0)) u t"
    | "logged_in E (serve_all reqs w0) (hr_body req) u \<and> t = newTokenId (random E 0)"
    using request_tokens [of E req "serve_all reqs w0" u t] by auto
  then show ?case
  proof cases
    case 1
    with served.IH obtain pre E' req' post where "reqs = pre @ (E', req') # post" "t = newTokenId (random E' 0)"
      "logged_in E' (serve_all pre w0) (hr_body req') u" by blast
    then show ?thesis by (intro exI [of _ pre] exI [of _ E'] exI [of _ req'] exI [of _ "post @ [(E, req)]"]) simp
  next
    case 2
    then show ?thesis by blast
  qed
qed

text \<open>
  Property C6. A grant has a cause: whenever a user, after any history of requests, is granted a
  group, the group is that of a node which the user does not own and whose read bit is set,
  and one of two requests was made before. Either an authenticated caller sent \<open>PUT\<close> to
  \<open>user/share\<close>, the body was accepted and named the user as a target, who was not a system
  user, and an AD of the body gave the caller, at that moment, the permission to share the
  node; or the user himself, not a system user, sent \<open>POST\<close> to \<open>user/nodes/shared\<close>, and for the
  query in the body the database returned the node. No other request grants anything.
\<close>

theorem every_grant_caused:
  assumes "sessions w0 = UsmInit" and "UsmUserCanAccessSgi (sessions (serve_all reqs w0)) v g"
    and "\<And>E req xs. (E, req) \<in> set reqs \<Longrightarrow> mset (map_order (rtm E) xs) = mset xs"
  shows "\<exists>pre E req post. reqs = pre @ (E, req) # post \<and> caused E (serve_all pre w0) req v g"
  using assms(2,3)
proof (induction reqs rule: serve_all_induct)
  case start
  with assms(1) show ?case by (simp add: usm_simps)
next
  case (served reqs E req)
  have "more_grants (caused E (serve_all reqs w0) req) (serve_all reqs w0) (serve_all (reqs @ [(E, req)]) w0)"
    unfolding serve_all_snoc by (rule request_grants) (rule served.prems(2) [of E req], simp)
  with served.prems(1) consider "UsmUserCanAccessSgi (sessions (serve_all reqs w0)) v g" | "caused E (serve_all reqs w0) req v g"
    unfolding more_grants_def by blast
  then show ?case
  proof cases
    case 1
    with served.IH served.prems(2) obtain pre E' req' post where "reqs = pre @ (E', req') # post"
      "caused E' (serve_all pre w0) req' v g" by fastforce
    then show ?thesis by (intro exI [of _ pre] exI [of _ E'] exI [of _ req'] exI [of _ "post @ [(E, req)]"]) simp
  next
    case 2
    then show ?thesis by blast
  qed
qed

lemma grants_ok_delete: "grants_ok w (w\<lparr>sessions := fst (UsmDeleteTokenId (sessions w) u t)\<rparr>)"
  using grants_ok_exec [of w "DeleteToken u t"] by simp

lemma grants_ok_add: "grants_ok w (w\<lparr>sessions := UsmAddTokenId (sessions w) u t\<rparr>)"
  using grants_ok_exec [of w "AddToken u t"] by simp

lemma request_grants_ok: "grants_ok w (fst (ServeHTTP E req w))"
  using ServeHTTP_effect [of w E req]
proof
  assume "refusal w (fst (ServeHTTP E req w))"
  then show ?thesis using grants_ok_delete [of w] by (auto simp: refusal_def grants_ok.same)
next
  assume "\<exists>uad rgroup h endpoint param. admitted E (sessions w) req uad \<and> route_handler E rgroup = Some h \<and>
      fst (ServeHTTP E req w) = fst (h (hr_method req @ '' '' @ endpoint) param (hr_body req) uad w)"
  then obtain uad rgroup h k param where h: "route_handler E rgroup = Some h"
    and e: "fst (ServeHTTP E req w) = fst (h k param (hr_body req) uad w)" by blast
  have auth: "keeps grants_ok (AuthAPI_HandleRequest E k param (hr_body req) uad)"
    unfolding AuthAPI_HandleRequest_def handle_login_def handle_logout_def Let_def
    by (intro grants_ok.sequencing grants_ok.reading_handlers keeps_update_sessions grants_ok_add grants_ok_delete)
  from h have "keeps grants_ok (h k param (hr_body req) uad)"
    by (cases rule: route_handler_cases)
      (simp_all add: auth grants_ok.reading_handlers grants_ok.quiet_handlers grants_ok.graph_group grants_ok.user_group)
  then show ?thesis by (simp add: e keeps_def)
qed

lemma history_usm_inv: "usm_inv (sessions w0) \<Longrightarrow> usm_inv (sessions (serve_all reqs w0))"
  by (induction reqs rule: serve_all_induct) (use request_grants_ok in \<open>auto simp: grants_ok_def\<close>)

text \<open>
  Property C14. The invariant of the server: after any history of requests, whatever their
  routes, bodies and outcomes, the maps of the session manager are well formed (no user has a
  duplicate, empty or comma-bearing group), and so the two ways in which the program reads
  them agree: the groups listed for the read filter of the next query are exactly the groups
  that the permission checks and the redaction of its response accept.
\<close>

theorem server_invariant:
  assumes "sessions w0 = UsmInit" and "\<And>xs. mset (grant_order E xs) = mset xs"
  shows "usm_inv (sessions (serve_all reqs w0))
    \<and> set (UsmUserAllowedSgis (grant_order E) (sessions (serve_all reqs w0)) u)
      = {g. UsmUserCanAccessSgi (sessions (serve_all reqs w0)) u g}"
proof -
  have inv: "usm_inv (sessions (serve_all reqs w0))"
    by (rule history_usm_inv) (simp add: assms(1) usm_inv_init)
  have "set (grant_order E xs) = set xs" for xs by (metis assms(2) set_mset_mset)
  with AllowedSgis_eq [OF inv] inv show ?thesis by blast
qed

section \<open>An example history\<close>

text \<open>
  The user 0x3 logs in and lists the nodes shared with it by a geographic search, which finds
  a node of the user 0x2 in group grp2.
\<close>

definition stored_ann :: graph_user where
  "stored_ann = GraphUser ((uattrs example_user)\<lparr>PasswordHash := Some (HashPassword toy_crypto ''pw'' ''salt'')\<rparr>) None None"

definition visit_env :: "unit env" where
  "visit_env = geo_env\<lparr>decs := (decs geo_env)\<lparr>dec_login := (\<lambda>_. Some \<lparr>LR_Username = ''ann'', LR_Password = ''pw''\<rparr>)\<rparr>,
     dbase := (dbase geo_env)\<lparr>run_users := (\<lambda>d q vs. Some (Some [Some stored_ann]))\<rparr>\<rparr>"

definition login_request :: http_request where
  "login_request = \<lparr>hr_content_type = [''application/json''], hr_authorization = [], hr_method = ''POST'',
     hr_path = ''/auth/login'', hr_body = []\<rparr>"

definition listing_request :: http_request where
  "listing_request = \<lparr>hr_content_type = [''application/json''],
     hr_authorization = bearer (tokenResponse visit_env ''0x3'' ''user'' (newTokenId (random visit_env 0))),
     hr_method = ''POST'', hr_path = ''/user/nodes/shared'', hr_body = []\<rparr>"

lemma ServeHTTP_dispatches:
  assumes "json_content (hr_content_type req)" and "trim_space (hr_path req) = path"
    and "split_on CHR ''/'' path = parts" and "2 \<le> length parts" and "parts ! 1 \<noteq> []"
    and "authenticate E (hr_authorization req) w = (w, Inr (Inr a))"
    and "a \<noteq> None \<or> path \<in> set allow_list" and "parts ! 1 \<notin> set admin_list"
  shows "ServeHTTP E req w = dispatch E req parts a w"
  using assms by (auto simp: ServeHTTP_def Let_def serve_route_def act_bind_def)

lemma fst_http_result: "fst (act_bind m http_result w) = fst (m w)"
proof -
  have "fst (http_result r v) = v" for r :: "api_error + reply" and v :: "'a world"
    by (rule unchanged.results [unfolded keeps_unchanged, rule_format])
  then show ?thesis by (simp add: act_bind_def split: sum.split)
qed

lemma visit_env_simps: "dec_login (decs visit_env) body = Some \<lparr>LR_Username = ''ann'', LR_Password = ''pw''\<rparr>"
  "run_users (dbase visit_env) d q vs = Some (Some [Some stored_ann])"
  "cry visit_env = toy_crypto" "rtm visit_env = toy_runtime" "server_time visit_env = 5"
  "db_query visit_env = db_query geo_env" "dec_query (decs visit_env) body = Some geo_request"
  "unix_now visit_env = 1700" "token_expiry visit_env = 600"
  by (simp_all add: visit_env_def geo_env_def toy_env_def db_query_def fun_eq_iff)

lemma stored_ann_simps: "UserUid stored_ann = ''0x3''" "URole (uattrs stored_ann) = Some ''user''"
  "PasswordHash (uattrs stored_ann) = Some (HashPassword toy_crypto ''pw'' ''salt'')"
  by (simp_all add: stored_ann_def example_user_def)

abbreviation ann_token :: string where
  "ann_token \<equiv> newTokenId (random visit_env 0)"

lemma login_request_simps: "json_content (hr_content_type login_request)"
  "trim_space (hr_path login_request) = ''/auth/login''" "split_on CHR ''/'' ''/auth/login'' = [[], ''auth'', ''login'']"
  "authenticate E (hr_authorization login_request) w = (w, Inr (Inr None))"
proof -
  have "trim_space ''/auth/login'' = ''/auth/login''" by code_simp
  then show "trim_space (hr_path login_request) = ''/auth/login''" by (simp add: login_request_def)
qed (simp_all add: login_request_def json_content_def authenticate_def bearer_token_def act_simps)

lemma visit_login: "fst (ServeHTTP visit_env login_request empty_world)
   = empty_world\<lparr>sessions := UsmAddTokenId UsmInit ''0x3'' ann_token\<rparr>"
proof -
  have "ServeHTTP visit_env login_request empty_world = dispatch visit_env login_request [[], ''auth'', ''login''] None empty_world"
    by (rule ServeHTTP_dispatches [OF login_request_simps(1,2,3) _ _ login_request_simps(4)])
      (simp_all add: allow_list_def admin_list_def)
  also have "fst \<dots> = fst (handle_login visit_env [] None empty_world)"
    by (simp add: dispatch_def index_go_def act_simps route_handler_def fst_http_result AuthAPI_HandleRequest_def login_request_def)
  also have "\<dots> = empty_world\<lparr>sessions := UsmAddTokenId UsmInit ''0x3'' ann_token\<rparr>"
  proof -
    have "stored_user visit_env empty_world \<lparr>LR_Username = ''ann'', LR_Password = ''pw''\<rparr> stored_ann"
      by (simp add: stored_user_def visit_env_simps stored_ann_simps)
    moreover have "VerifyPasswordHash toy_crypto (HashPassword toy_crypto ''pw'' ''salt'') ''pw''"
      by (auto simp: VerifyPasswordHash_char)
    ultimately show ?thesis
      using handle_login_apply [OF visit_env_simps(1) _ _ stored_ann_simps(3,2), of empty_world "[]" None]
      by (simp add: LoginRequest_Validate_def visit_env_simps stored_ann_simps) (simp add: empty_world_def)
  qed
  finally show ?thesis .
qed

theorem every_session_logged_in_witness:
  "UsmCheckTokenId (sessions (serve_all [(visit_env, login_request)] empty_world)) ''0x3'' ann_token
   \<and> (\<exists>pre E req post. [(visit_env, login_request)] = pre @ (E, req) # post \<and> ann_token = newTokenId (random E 0)
        \<and> logged_in E (serve_all pre empty_world) (hr_body req) ''0x3'')"
proof
  have s: "sessions empty_world = UsmInit" by (simp add: empty_world_def)
  have "serve_all [(visit_env, login_request)] empty_world = fst (ServeHTTP visit_env login_request empty_world)"
    by (simp add: serve_all_def)
  then show live: "UsmCheckTokenId (sessions (serve_all [(visit_env, login_request)] empty_world)) ''0x3'' ann_token"
    by (simp add: visit_login usm_simps)
  show "\<exists>pre E req post. [(visit_env, login_request)] = pre @ (E, req) # post \<and> ann_token = newTokenId (random E 0)
        \<and> logged_in E (serve_all pre empty_world) (hr_body req) ''0x3''"
    by (rule every_session_logged_in [OF s live])
qed

theorem server_invariant_witness:
  "usm_inv (sessions (serve_all [(visit_env, login_request)] empty_world))"
  by (rule conjunct1 [OF server_invariant [where E = toy_env and u = "[]"]]) (simp_all add: empty_world_def toy_env_def)

abbreviation ann_session :: UserAuthData where
  "ann_session \<equiv> session_of visit_env stored_ann ''user''"

lemma ann_session_simps: "UadUid ann_session = ''0x3''" "\<not> IsAdmin ann_session"
  "UadTokenId ann_session = ann_token" "UadTimestamp ann_session = dec_of_int (unix_now visit_env)"
  by (simp_all add: session_of_def token_uad_def stored_ann_simps IsAdmin_def SYS_ROLE_def)

lemma listing_request_simps: "json_content (hr_content_type listing_request)"
  "trim_space (hr_path listing_request) = ''/user/nodes/shared''"
  "split_on CHR ''/'' ''/user/nodes/shared'' = [[], ''user'', ''nodes'', ''shared'']"
proof -
  have "trim_space ''/user/nodes/shared'' = ''/user/nodes/shared''" by code_simp
  then show "trim_space (hr_path listing_request) = ''/user/nodes/shared''" by (simp add: listing_request_def)
qed (simp_all add: listing_request_def json_content_def)

lemma ann_recognised:
  assumes "UsmCheckTokenId (sessions w) ''0x3'' ann_token"
  shows "authenticate visit_env (hr_authorization listing_request) w = (w, Inr (Inr (Some ann_session)))"
proof -
  have "dot_free ''0x3''" "dot_free ''user''" by simp_all
  then obtain tok where "bearer_token (hr_authorization listing_request) = Some tok"
    "UADFromToken (cry visit_env) tok (secret_key visit_env) = Some ann_session"
    using token_identity [of stored_ann "''user''" visit_env] by (auto simp: stored_ann_simps listing_request_def)
  moreover have "checkTimestamp visit_env (UadTimestamp ann_session)"
  proof -
    have same: "visit_env\<lparr>unix_now := unix_now visit_env\<rparr> = visit_env" by simp
    have "representable (unix_now visit_env) (unix_now visit_env)"
      by (simp add: representable_def visit_env_simps)
    from checkTimestamp_at [OF this, unfolded same] show ?thesis
      by (simp add: ann_session_simps) (simp add: visit_env_simps)
  qed
  ultimately show ?thesis using assms by (simp add: authenticate_token ann_session_simps)
qed

lemma visit_lists:
  "\<exists>cr. QueryWithOptions toy_crypto toy_runtime 5 (db_query geo_env w) (scoped_query uad geo_request) USERSHARE (Some uad) [] = Inr cr
     \<and> result_list cr = [Some (clear_type_node foreign_node)]"
proof -
  obtain q n t where c: "compile_query toy_crypto toy_runtime (scoped_query uad geo_request) USERSHARE (Some uad) []
     = Inr (Inr (q, [(bind_name toy_crypto n, t)]))"
    using geo_query_compiles by blast
  have "map_of [(bind_name toy_crypto n, t)] ''$ids'' = None" by (simp add: bind_name_def)
  then show ?thesis
    by (simp add: QueryWithOptions_def geo_env_simps c CoggedResponseFromNodes_def result_list_def)
qed

lemma visit_listing:
  assumes "UsmCheckTokenId (sessions w) ''0x3'' ann_token"
  shows "UsmUserCanAccessSgi (sessions (fst (ServeHTTP visit_env listing_request w))) ''0x3'' ''grp2''"
proof -
  have d: "ServeHTTP visit_env listing_request w
      = dispatch visit_env listing_request [[], ''user'', ''nodes'', ''shared''] (Some ann_session) w"
    by (rule ServeHTTP_dispatches [OF listing_request_simps _ _ ann_recognised [OF assms]])
      (simp_all add: admin_list_def)
  have e: "fst (ServeHTTP visit_env listing_request w) = fst (handle_user_nodes visit_env ''shared'' [] ann_session w)"
    unfolding d
    by (simp add: dispatch_def index_go_def act_simps route_handler_def fst_http_result UserAPI_HandleRequest_def listing_request_def)
  obtain cr where q: "QueryWithOptions (cry visit_env) (rtm visit_env) (server_time visit_env) (db_query visit_env w)
      (scoped_query ann_session geo_request) USERSHARE (Some ann_session) [] = Inr cr"
    and cr: "result_list cr = [Some (clear_type_node foreign_node)]"
    using visit_lists [of w ann_session] by (auto simp: visit_env_simps)
  have "\<not> owner_is ''0x3'' (clear_type_node foreign_node)"
    "PermRead (nattrs (clear_type_node foreign_node)) = Some True" "Sgi (nattrs (clear_type_node foreign_node)) = Some ''grp2''"
    by (simp_all add: owner_is_def clear_type_node_def foreign_node_def NewGraphUser_def node_attrs_of_uid_def)
  then have gs: "shared_sgis (UadUid ann_session) (result_list cr) = Inr [''grp2'']" by (simp add: cr ann_session_simps)
  have r: "RootIDs geo_request = []" "RootQuery geo_request = None" by (simp_all add: geo_request_def)
  have l: "sgi_list visit_env [''grp2''] = ''grp2,''" by (simp add: sgi_list_def visit_env_simps toy_runtime_def)
  from handle_shared_sessions [OF visit_env_simps(7) r ann_session_simps(2) q gs] show ?thesis
    by (simp add: e l usm_simps ann_session_simps) (simp add: sgi_parts_def)
qed

lemma visit_history: "serve_all [(visit_env, login_request), (visit_env, listing_request)] empty_world
   = fst (ServeHTTP visit_env listing_request (fst (ServeHTTP visit_env login_request empty_world)))"
  by (simp add: serve_all_def)

theorem every_grant_caused_witness:
  "UsmUserCanAccessSgi (sessions (serve_all [(visit_env, login_request), (visit_env, listing_request)] empty_world)) ''0x3'' ''grp2''
   \<and> (\<exists>pre E req post. [(visit_env, login_request), (visit_env, listing_request)] = pre @ (E, req) # post
        \<and> caused E (serve_all pre empty_world) req ''0x3'' ''grp2'')"
proof
  have s: "sessions empty_world = UsmInit" by (simp add: empty_world_def)
  have "UsmCheckTokenId (sessions (fst (ServeHTTP visit_env login_request empty_world))) ''0x3'' ann_token"
    by (simp add: visit_login usm_simps)
  then show g: "UsmUserCanAccessSgi (sessions (serve_all [(visit_env, login_request), (visit_env, listing_request)] empty_world))
      ''0x3'' ''grp2''"
    unfolding visit_history by (rule visit_listing)
  show "\<exists>pre E req post. [(visit_env, login_request), (visit_env, listing_request)] = pre @ (E, req) # post
        \<and> caused E (serve_all pre empty_world) req ''0x3'' ''grp2''"
    by (rule every_grant_caused [OF s g]) (auto simp: visit_env_simps toy_runtime_def)
qed

end
