(* ===== verification/Sharing.thy ===== *)
theory Sharing
  imports Grants
begin

text \<open>
  The effect of the share and unshare requests of \<open>api/user.go\<close> on the grants, for every
  outcome of the database.
\<close>

definition share_step :: "'d env \<Rightarrow> bool \<Rightarrow> graph_node option list \<Rightarrow> string \<Rightarrow> usm \<Rightarrow> usm" where
  "share_step E allow ns u s =
     (let l = sgi_list E (projr (shared_sgis u ns)) in
      if l = [] then s else if allow then UsmUserAllowlistSgi s u l else UsmUserRevokeSgi s u l)"

definition in_group :: "graph_node option list \<Rightarrow> string \<Rightarrow> string \<Rightarrow> bool" where
  "in_group ns u g \<longleftrightarrow> (\<exists>n. Some n \<in> set ns \<and> group_of u n g)"

lemma in_group_parts:
  assumes "\<And>xs. mset (map_order (rtm E) xs) = mset xs" and "\<not> panics (shared_sgis u ns)"
  shows "g \<in> set (sgi_parts (sgi_list E (projr (shared_sgis u ns)))) \<longleftrightarrow> in_group ns u g"
proof -
  obtain gs where gs: "shared_sgis u ns = Inr gs" using assms(2) by (cases "shared_sgis u ns") auto
  show ?thesis
    using sgi_parts_sgi_list_general [OF assms(1), of gs] shared_sgis_set [OF gs]
    by (auto simp: gs in_group_def shareable_def group_of_def)
qed

lemma share_step_grants:
  assumes "\<And>xs. mset (map_order (rtm E) xs) = mset xs" and "\<not> panics (shared_sgis u ns)"
  shows "UsmUserCanAccessSgi (share_step E True ns u s) v g \<longleftrightarrow>
      UsmUserCanAccessSgi s v g \<or> (u \<noteq> [] \<and> v = u \<and> in_group ns u g)"
    and "UsmUserCanAccessSgi (share_step E False ns u s) v g \<longleftrightarrow>
      UsmUserCanAccessSgi s v g \<and> \<not> (v = u \<and> in_group ns u g)"
proof -
  have "\<not> in_group ns u g" if "sgi_list E (projr (shared_sgis u ns)) = []"
    using in_group_parts [OF assms, of g] that by (simp add: sgi_parts_def)
  then show "UsmUserCanAccessSgi (share_step E True ns u s) v g \<longleftrightarrow>
      UsmUserCanAccessSgi s v g \<or> (u \<noteq> [] \<and> v = u \<and> in_group ns u g)"
    "UsmUserCanAccessSgi (share_step E False ns u s) v g \<longleftrightarrow>
      UsmUserCanAccessSgi s v g \<and> \<not> (v = u \<and> in_group ns u g)"
    using in_group_parts [OF assms, of g] by (auto simp: share_step_def Let_def usm_simps)
qed

lemma UpdateAllowListSharedSgis_apply:
  assumes "\<not> panics (shared_sgis u ns)"
  shows "UpdateAllowListSharedSgis E b u ns w = (w\<lparr>sessions := share_step E b ns u (sessions w)\<rparr>, Inr ())"
  using assms by (cases "shared_sgis u ns")
    (simp_all add: UpdateAllowListSharedSgis_def act_simps share_step_def update_sessions_def Let_def)

lemma act_each_share:
  assumes "\<And>u. u \<in> set us \<Longrightarrow> \<not> panics (shared_sgis u ns)"
  shows "act_each (\<lambda>u. UpdateAllowListSharedSgis E b u ns) us w =
    (w\<lparr>sessions := fold (share_step E b ns) us (sessions w)\<rparr>, Inr ())"
  using assms
  by (induction us arbitrary: w) (simp_all add: act_return_def act_bind_def UpdateAllowListSharedSgis_apply)

lemma fold_share_step:
  assumes "\<And>xs. mset (map_order (rtm E) xs) = mset xs" and "\<And>u. u \<in> set us \<Longrightarrow> \<not> panics (shared_sgis u ns)"
  shows "UsmUserCanAccessSgi (fold (share_step E True ns) us s) v g \<longleftrightarrow>
      UsmUserCanAccessSgi s v g \<or> (v \<noteq> [] \<and> v \<in> set us \<and> in_group ns v g)"
    and "UsmUserCanAccessSgi (fold (share_step E False ns) us s) v g \<longleftrightarrow>
      UsmUserCanAccessSgi s v g \<and> \<not> (v \<in> set us \<and> in_group ns v g)"
  using assms(2)
  by (induction us arbitrary: s) (auto simp: share_step_grants [OF assms(1)])

lemma UpdateUserShareEdges_total:
  "\<exists>w' res. UpdateUserShareEdges tnow D (Some ns) (Some us) ut w = (w', Inr res) \<and> sessions w' = sessions w"
  by (auto simp: UpdateUserShareEdges_def act_bind_go_Inr act_bind_Mutate act_return_def)

lemma handle_share_sessions:
  assumes "share_request E (sessions w) body uad = Inr (Inr r)" and "SN_Users r = Some ads"
    and "share_targets (if ut = ADD then 404 else 400) ads = Inr (Inr us)"
    and "\<And>u. u \<in> set us \<Longrightarrow> \<not> panics (shared_sgis u (map Some (SN_UnpackedNodes r)))"
  shows "sessions (fst (handle_share E ut body uad w)) =
    fold (share_step E (ut = ADD) (map Some (SN_UnpackedNodes r))) us (sessions w)"
proof -
  obtain ns where ns: "SN_Nodes r = Some ns"
    using share_unpacked [OF assms(1) [unfolded share_request_def]] by blast
  obtain w' res where u: "UpdateUserShareEdges (server_time E) (dbase E) (Some ns) (Some us) ut w = (w', Inr res)"
    and s: "sessions w' = sessions w"
    using UpdateUserShareEdges_total by blast
  have edges: "act_bind (UpdateUserShareEdges (server_time E) (dbase E) (Some ns) (Some us) ut) f w = f res w'"
    for f :: "CoggedResponse \<times> bool \<Rightarrow> 'a handler"
    by (simp add: act_bind_def u)
  have each: "act_bind (act_each (\<lambda>u. UpdateAllowListSharedSgis E (ut = ADD) u (map Some (SN_UnpackedNodes r))) us) f w'
      = f () (w'\<lparr>sessions := fold (share_step E (ut = ADD) (map Some (SN_UnpackedNodes r))) us (sessions w')\<rparr>)"
    for f :: "unit \<Rightarrow> 'a handler"
    by (simp add: act_bind_def act_each_share [OF assms(4)])
  show ?thesis
    using assms(1-3)
    by (simp add: handle_share_def share_update share_request_def bind_then_apply ns act_bind_return act_bind_go_Inr
        edges each s reply_cogged_apply)
qed

definition grants_after :: "UpdateType \<Rightarrow> bool \<Rightarrow> bool \<Rightarrow> bool" where
  "grants_after ut old shared = (if ut = ADD then old \<or> shared else old \<and> \<not> shared)"

text \<open>
  Property C13. What sharing and unsharing do to the grants: once the request has been accepted,
  so that the caller has share permission for each of its nodes, sharing adds and unsharing
  removes, for exactly the target users, exactly the groups of those nodes that the target
  does not own and whose read bit is set; nobody else's grants change. The grants do not
  depend on the database: they are made, and taken away, also when the write of the share
  edges fails.
\<close>

theorem share_exact:
  assumes "share_request E (sessions w) body uad = Inr (Inr r)" and "SN_Users r = Some ads"
    and "share_targets (if ut = ADD then 404 else 400) ads = Inr (Inr us)"
    and "\<And>u n. u \<in> set us \<Longrightarrow> n \<in> set (SN_UnpackedNodes r) \<Longrightarrow> owner_is u n \<or> PermRead (nattrs n) \<noteq> None"
    and "\<And>xs. mset (map_order (rtm E) xs) = mset xs"
  shows "UsmUserCanAccessSgi (sessions (fst (handle_share E ut body uad w))) v g =
    grants_after ut (UsmUserCanAccessSgi (sessions w) v g)
      (v \<noteq> [] \<and> v \<in> set us \<and> in_group (map Some (SN_UnpackedNodes r)) v g)"
proof -
  let ?ns = "map Some (SN_UnpackedNodes r)"
  have p: "\<not> panics (shared_sgis u ?ns)" if "u \<in> set us" for u
    using assms(4) [OF that] by (auto simp: shared_sgis_panics)
  have "v \<noteq> []" if "UsmUserCanAccessSgi (sessions w) v g"
    using that by (simp add: UsmUserCanAccessSgi_iff)
  moreover have "ut = ADD \<or> ut = DELETE" by (cases ut) simp_all
  ultimately show ?thesis
    using fold_share_step [OF assms(5) p, where v = v and g = g] handle_share_sessions [OF assms(1-3) p]
    by (auto simp: grants_after_def)
qed

definition share_target :: graph_user where
  "share_target = GraphUser ((uattrs (NewGraphUser ''0x2''))\<lparr>URole := Some ''user''\<rparr>) None None"

definition share_body :: ShareNodesRequest where
  "share_body = \<lparr>SN_Nodes = Some [AuthzData (nattrs example_packed)],
     SN_Users = Some [AuthzData (uattrs (UserAuthzDataPack toy_crypto example_uad share_target))], SN_UnpackedNodes = []\<rparr>"

definition share_env :: "unit env" where
  "share_env = toy_env\<lparr>decs := no_decoders\<lparr>dec_share := (\<lambda>_. Some share_body)\<rparr>\<rparr>"

theorem share_exact_witness:
  "UsmUserCanAccessSgi (sessions (fst (handle_share share_env ADD [] example_uad empty_world))) ''0x2'' ''grp1''"
proof -
  let ?n = "node_of_ad ''0x5'' ''0x1'' ''grp1'' ''r''"
  let ?r = "\<lparr>SN_Nodes = Some [''0x5''], SN_Users = Some [''0x2.user.''], SN_UnpackedNodes = [?n]\<rparr>"
  have e: "cry share_env = toy_crypto" "rtm share_env = toy_runtime" "dec_share (decs share_env) body = Some share_body"
    for body by (simp_all add: share_env_def toy_env_def)
  have "AuthzData (uattrs (UserAuthzDataPack toy_crypto example_uad share_target)) = MessageAndMAC toy_crypto ''0x2.user.'' ''a2V5''"
    by (simp add: UserAuthzDataPack_def user_ad_text_def share_target_def NewGraphUser_def example_uad_def)
  then have "DecodeAndVerifyAD toy_crypto (AuthzData (uattrs (UserAuthzDataPack toy_crypto example_uad share_target))) ''a2V5'' = ''0x2.user.''"
    by (simp add: ad.unseal_seal)
  then have req: "share_request share_env (sessions empty_world) [] example_uad = Inr (Inr ?r)"
    by (simp add: share_request_def BindToRequest_def TryAuthzDataUnpack_def ShareNodesRequest_AuthzDataUnpack_def e share_body_def
        AuthzDataUnpackADStringSlicePlusNodes_def example_unpack AuthzDataUnpackUserADStringSlice_def ShareNodesRequest_Validate_def)
      (simp add: example_uad_def)
  have "GraphUserFromUnpackedAD ''0x2.user.'' = Some (user_of_ad ''0x2'' ''user'' [])"
    by (simp add: GraphUserFromUnpackedAD_iff)
  then have targets: "share_targets (if ADD = ADD then 404 else 400) [''0x2.user.''] = Inr (Inr [''0x2''])"
    by (simp add: SYS_ROLE_def user_of_ad_def NewGraphUser_def)
  have n: "\<not> owner_is ''0x2'' ?n" "PermRead (nattrs ?n) = Some True" "Sgi (nattrs ?n) = Some ''grp1''"
    by (simp_all add: node_of_ad_def owner_is_def NewGraphUser_def has_perm_def)
  have "UsmUserCanAccessSgi (sessions (fst (handle_share share_env ADD [] example_uad empty_world))) ''0x2'' ''grp1'' =
    grants_after ADD (UsmUserCanAccessSgi (sessions empty_world) ''0x2'' ''grp1'')
      (''0x2'' \<noteq> [] \<and> ''0x2'' \<in> set [''0x2''] \<and> in_group (map Some (SN_UnpackedNodes ?r)) ''0x2'' ''grp1'')"
    by (rule share_exact [OF req _ targets]) (simp_all add: n e toy_runtime_def)
  moreover have "in_group [Some ?n] ''0x2'' ''grp1''"
    using n by (auto simp: in_group_def group_of_def sgi_parts_def)
  ultimately show ?thesis by (simp add: grants_after_def)
qed

end
