(* ===== verification/ClientServer.thy ===== *)
theory ClientServer
  imports Client Sharing
begin

text \<open>
  The client of \<open>client/apiclient.go\<close> talking to the server of \<open>cmd/cogged/main.go\<close>: the
  transport of the client model is instantiated by the server model. \<open>net/http\<close> hands the
  path, the headers and the body over, writes an error as its text and a newline, and answers
  nothing when the handler panics. The JSON text of a reply is the argument \<open>json\<close>.
\<close>

definition request_of :: "string \<Rightarrow> http_out \<Rightarrow> http_request" where
  "request_of base ho =
     \<lparr>hr_content_type = out_content_type ho, hr_authorization = out_authorization ho, hr_method = out_method ho,
      hr_path = drop (length base) (out_url ho), hr_body = (case out_body ho of None \<Rightarrow> [] | Some b \<Rightarrow> b)\<rparr>"

definition response_text :: "(reply \<Rightarrow> string) \<Rightarrow> http_response go \<Rightarrow> string + string" where
  "response_text json r =
     (case r of
        Inl p \<Rightarrow> Inl ''EOF''
      | Inr (HttpError code m) \<Rightarrow> Inr (m @ [nl])
      | Inr (HttpOk rep) \<Rightarrow> Inr (json rep))"

definition server_transport :: "'d env \<Rightarrow> string \<Rightarrow> (reply \<Rightarrow> string) \<Rightarrow> 'd world transport" where
  "server_transport E base json w ho =
     (let r = ServeHTTP E (request_of base ho) w in (fst r, response_text json (snd r)))"

section \<open>What the server sees of a call\<close>

definition call_request :: "client \<Rightarrow> string \<Rightarrow> string \<Rightarrow> string \<Rightarrow> string \<Rightarrow> http_request" where
  "call_request c m ctl ep j = request_of (Url c) (client_request c m ctl ep [] (Some j))"

definition token_header :: "client \<Rightarrow> string list" where
  "token_header c = (if authToken c = [] then [] else [''Bearer '' @ authToken c])"

lemma auth_route [simp]: "\<not> is_unauthenticated_route m ''auth'' ep"
  using route_key [of m "''auth''" ep "''POST''" "''/auth/login''"]
    route_key [of m "''auth''" ep "''GET''" "''/auth/clientconfig''"]
    route_key [of m "''auth''" ep "''GET''" "''/health/status''"]
  by (auto simp: is_unauthenticated_route_def unauthenticatedRoutes_def endpoint_key_def)

lemma call_request_auth:
  "hr_content_type (call_request c m ''auth'' ep j) = [''application/json'']"
  "hr_authorization (call_request c m ''auth'' ep j) = token_header c"
  "hr_method (call_request c m ''auth'' ep j) = m" "hr_body (call_request c m ''auth'' ep j) = j"
  "hr_path (call_request c m ''auth'' ep j) = ''/auth/'' @ ep"
  by (simp_all add: call_request_def request_of_def client_request_def token_header_def Let_def)

lemma makeHttpRequest_server:
  "makeHttpRequest (server_transport E (Url c) json) now m ''auth'' ep [] (Body (Some j)) c w =
     (case response_text json (snd (ServeHTTP E (call_request c m ''auth'' ep j) w)) of
        Inl err \<Rightarrow> (c, fst (ServeHTTP E (call_request c m ''auth'' ep j) w), Inl (ApiClientError err 0))
      | Inr body \<Rightarrow> (c\<lparr>lastRequest := now\<rparr>, fst (ServeHTTP E (call_request c m ''auth'' ep j) w), Inr body))"
  by (simp add: makeHttpRequest_def server_transport_def call_request_def Let_def split: sum.split)

lemma trimmed_paths: "trim_space ''/auth/login'' = ''/auth/login''" "trim_space ''/auth/logout'' = ''/auth/logout''"
  by code_simp+

lemma login_dispatch:
  assumes "token_header c = []"
  shows "ServeHTTP E (call_request c ''POST'' ''auth'' ''login'' j) w = act_bind (handle_login E j None) http_result w"
proof -
  have "ServeHTTP E (call_request c ''POST'' ''auth'' ''login'' j) w
      = dispatch E (call_request c ''POST'' ''auth'' ''login'' j) [[], ''auth'', ''login''] None w"
    by (rule ServeHTTP_dispatches [where path = "''/auth/login''"])
      (simp_all add: call_request_auth assms trimmed_paths json_content_def authenticate_def bearer_token_def act_simps
        allow_list_def admin_list_def)
  then show ?thesis
    by (simp add: dispatch_def index_go_def act_simps route_handler_def AuthAPI_HandleRequest_def call_request_auth)
qed

lemma logout_dispatch:
  assumes "authenticate E (token_header c) w = (w, Inr (Inr (Some u)))"
  shows "ServeHTTP E (call_request c ''POST'' ''auth'' ''logout'' j) w = act_bind (handle_logout (Some u)) http_result w"
proof -
  have "ServeHTTP E (call_request c ''POST'' ''auth'' ''logout'' j) w
      = dispatch E (call_request c ''POST'' ''auth'' ''logout'' j) [[], ''auth'', ''logout''] (Some u) w"
    by (rule ServeHTTP_dispatches [where path = "''/auth/logout''"])
      (simp_all add: call_request_auth assms trimmed_paths json_content_def admin_list_def)
  then show ?thesis
    by (simp add: dispatch_def index_go_def act_simps route_handler_def AuthAPI_HandleRequest_def call_request_auth)
qed

section \<open>A session of the client\<close>

definition credentials :: "client \<Rightarrow> LoginRequest" where
  "credentials c = \<lparr>LR_Username = Username c, LR_Password = Password c\<rparr>"

text \<open>
  JSON brings the login request of the client to the server, and the token responses that the
  server issues to the client, as they were.
\<close>

definition json_faithful ::
    "'d env \<Rightarrow> response_decoders \<Rightarrow> (LoginRequest \<Rightarrow> string) \<Rightarrow> (reply \<Rightarrow> string) \<Rightarrow> client \<Rightarrow> bool" where
  "json_faithful E D marshal json c \<longleftrightarrow>
     dec_login (decs E) (marshal (credentials c)) = Some (credentials c) \<and>
     (\<forall>uid role tid. resp_token D (json (TokenBody (tokenResponse E uid role tid))) = Some (tokenResponse E uid role tid))"

text \<open>
  Property C15. The client and the server agree on a session: a client without a token, with the name
  and the password of a stored user, logs in; the token it then keeps identifies it to the
  server as that user with the stored role, on every route; its logout succeeds, it forgets
  the token, and the server no longer recognises the token.
\<close>

theorem client_session:
  assumes "json_faithful E D marshal json c" and "authToken c = []"
    and "LoginRequest_Validate (credentials c)" and "stored_user E w (credentials c) user"
    and "PasswordHash (uattrs user) = Some h" and "URole (uattrs user) = Some role"
    and "VerifyPasswordHash (cry E) h (Password c)" and "0 < token_expiry E" and "representable (unix_now E) (unix_now E)"
  shows "\<exists>c1 w1 c2 w2.
     Login (server_transport E (Url c) json) now D marshal c w = (c1, w1, True)
   \<and> authenticate E (token_header c1) w1 = (w1, Inr (Inr (Some (session_of E user role))))
   \<and> Logout (server_transport E (Url c) json) now' c1 w1 = (c2, w2, True) \<and> authToken c2 = []
   \<and> snd (authenticate E (token_header c1) w2) = Inr (Inl (HttpError 401 ''invalid token ID''))"
proof -
  let ?j = "marshal (credentials c)" and ?nti = "newTokenId (random E 0)"
  let ?t = "tokenResponse E (UserUid user) role ?nti" and ?u = "session_of E user role"
  let ?w1 = "w\<lparr>sessions := UsmAddTokenId (sessions w) (UserUid user) ?nti\<rparr>"
  let ?c1 = "c\<lparr>lastRequest := now, authToken := Token ?t, tokenExpirySec := Expires ?t\<rparr>"
  have j: "dec_login (decs E) ?j = Some (credentials c)" "resp_token D (json (TokenBody ?t)) = Some ?t"
    using assms(1) by (simp_all add: json_faithful_def)
  have "handle_login E ?j None w = (?w1, Inr (Inr (TokenBody ?t)))"
    using handle_login_apply [OF j(1) assms(3-6)] assms(7) by (simp add: credentials_def)
  then have "ServeHTTP E (call_request c ''POST'' ''auth'' ''login'' ?j) w = (?w1, Inr (HttpOk (TokenBody ?t)))"
    using assms(2) by (simp add: login_dispatch token_header_def act_bind_def http_result_def act_return_def)
  then have login: "Login (server_transport E (Url c) json) now D marshal c w = (?c1, ?w1, True)"
    by (simp add: Login_def authLoginPost_def bound_call_def makeHttpRequest_server credentials_def [symmetric]
        response_text_def bindToResponse_def j)
  have df: "dot_free (UserUid user)" "dot_free role" "UserUid user \<noteq> []"
    using assms(4,6) by (auto simp: stored_user_def)
  have ne: "Token ?t \<noteq> []" by (simp add: tokenResponse_def ConstructToken_def MessageAndMAC_def Let_def)
  then have hdr: "token_header ?c1 = bearer ?t" by (simp add: token_header_def bearer_def)
  from token_identity [OF df(1,2), of E] obtain tok where
    tok: "bearer_token (bearer ?t) = Some tok" "UADFromToken (cry E) tok (secret_key E) = Some ?u" by auto
  have u: "UadTimestamp ?u = dec_of_int (unix_now E)" "UadUid ?u = UserUid user" "UadTokenId ?u = ?nti"
    by (simp_all add: session_of_def token_uad_def)
  have fresh: "checkTimestamp E (dec_of_int (unix_now E))"
  proof -
    have same: "E\<lparr>unix_now := unix_now E\<rparr> = E" by simp
    show ?thesis using checkTimestamp_at [OF assms(9), unfolded same] assms(8) by simp
  qed
  have known: "authenticate E (token_header ?c1) ?w1 = (?w1, Inr (Inr (Some ?u)))"
    using authenticate_token [OF tok, of ?w1] df(3) by (simp add: hdr u fresh usm_sessions.opened)
  let ?w2 = "?w1\<lparr>sessions := fst (UsmDeleteTokenId (sessions ?w1) (UserUid user) ?nti)\<rparr>"
  have "ServeHTTP E (call_request ?c1 ''POST'' ''auth'' ''logout'' ''{}'') ?w1 = (?w2, Inr (HttpOk EmptyBody))"
    by (simp add: logout_dispatch [OF known] handle_logout_def act_simps u)
      (simp add: act_bind_def http_result_def act_return_def)
  then have logout: "Logout (server_transport E (Url c) json) now' ?c1 ?w1
      = (?c1\<lparr>lastRequest := 0, authToken := [], tokenExpirySec := 0\<rparr>, ?w2, True)"
    using makeHttpRequest_server [of E ?c1 json now' "''POST''" "''logout''" "''{}''" ?w1]
    by (simp add: Logout_def authLogoutPost_def unbound_call_def response_text_def)
  have "\<not> UsmCheckTokenId (sessions ?w2) (UserUid user) ?nti"
    by (simp add: usm_simps)
  then have "snd (authenticate E (token_header ?c1) ?w2) = Inr (Inl (HttpError 401 ''invalid token ID''))"
    using authenticate_token [OF tok, of ?w2] by (simp add: hdr u fresh)
  with login known logout show ?thesis by fastforce
qed

text \<open>The client of the stored user of the example environment.\<close>

definition ann_client :: client where
  "ann_client = \<lparr>Url = ''http://h:8090'', Username = ''ann'', Password = ''pw'', authToken = [], lastRequest = 0, tokenExpirySec = 0\<rparr>"

definition toy_json :: "reply \<Rightarrow> string" where
  "toy_json rep = (case rep of TokenBody t \<Rightarrow> Token t | _ \<Rightarrow> [])"

definition toy_decoders :: response_decoders where
  "toy_decoders = \<lparr>resp_token = (\<lambda>s. if CHR '' '' \<in> set s then None else Some \<lparr>Token = s, Expires = 600\<rparr>),
     resp_cogged = (\<lambda>_. None), resp_user = (\<lambda>_. None), resp_map = (\<lambda>_. None)\<rparr>"

lemma ann_faithful: "json_faithful visit_env toy_decoders (\<lambda>_. []) toy_json ann_client"
  by (simp add: json_faithful_def visit_env_simps credentials_def ann_client_def toy_decoders_def toy_json_def
      tokenResponse_def ConstructToken_no_space)

lemma ann_stored: "stored_user visit_env empty_world (credentials ann_client) stored_ann"
  by (simp add: stored_user_def visit_env_simps stored_ann_simps)

theorem client_session_witness:
  "\<exists>c1 w1 c2 w2. Login (server_transport visit_env ''http://h:8090'' toy_json) 5 toy_decoders (\<lambda>_. []) ann_client empty_world = (c1, w1, True)
     \<and> authenticate visit_env (token_header c1) w1 = (w1, Inr (Inr (Some ann_session)))
     \<and> Logout (server_transport visit_env ''http://h:8090'' toy_json) 6 c1 w1 = (c2, w2, True)"
proof -
  have url: "Url ann_client = ''http://h:8090''" by (simp add: ann_client_def)
  have v: "LoginRequest_Validate (credentials ann_client)"
    by (simp add: LoginRequest_Validate_def credentials_def ann_client_def)
  have p: "VerifyPasswordHash (cry visit_env) (HashPassword toy_crypto ''pw'' ''salt'') (Password ann_client)"
    by (auto simp: VerifyPasswordHash_char visit_env_simps ann_client_def)
  have r: "representable (unix_now visit_env) (unix_now visit_env)" "0 < token_expiry visit_env" "authToken ann_client = []"
    by (simp_all add: representable_def visit_env_simps ann_client_def)
  from client_session [OF ann_faithful r(3) v ann_stored stored_ann_simps(3,2) p r(2,1), of 5 6] show ?thesis
    unfolding url by blast
qed

section \<open>An expired token\<close>

definition expired :: "'d env \<Rightarrow> client \<Rightarrow> bool" where
  "expired E c \<longleftrightarrow> (\<exists>tok u. bearer_token (token_header c) = Some tok
     \<and> UADFromToken (cry E) tok (secret_key E) = Some u \<and> \<not> checkTimestamp E (UadTimestamp u))"

lemma expired_answer:
  assumes "expired E c" and "ep \<in> {''login'', ''logout''}"
  shows "snd (ServeHTTP E (call_request c m ''auth'' ep j) w) = Inr (HttpError 401 ''token expired'')"
proof -
  from assms(1) obtain tok u where t: "bearer_token (token_header c) = Some tok"
    "UADFromToken (cry E) tok (secret_key E) = Some u" and x: "\<not> checkTimestamp E (UadTimestamp u)"
    by (auto simp: expired_def)
  from authenticate_token [OF t] x
  have "snd (act_bind (authenticate E (token_header c)) f w) = Inr (HttpError 401 ''token expired'')"
    if "f (Inl (HttpError 401 ''token expired'')) = act_return (HttpError 401 ''token expired'')"
    for f :: "http_response + UserAuthData option \<Rightarrow> 'a serving"
    by (simp add: act_bind_def that act_return_def)
  with assms(2) show ?thesis
    by (auto simp: ServeHTTP_def call_request_auth json_content_def Let_def serve_route_def act_simps trimmed_paths)
qed

text \<open>Attempts to log in, each at a moment of the server.\<close>

primrec login_attempts ::
    "(reply \<Rightarrow> string) \<Rightarrow> int \<Rightarrow> response_decoders \<Rightarrow> (LoginRequest \<Rightarrow> string) \<Rightarrow> 'd env list \<Rightarrow> client \<Rightarrow> 'd world
     \<Rightarrow> client \<times> 'd world \<times> bool list" where
  "login_attempts json now D marshal [] c w = (c, w, [])"
| "login_attempts json now D marshal (E # Es) c w =
     (case Login (server_transport E (Url c) json) now D marshal c w of
        (c', w', b) \<Rightarrow> (case login_attempts json now D marshal Es c' w' of (c'', w'', bs) \<Rightarrow> (c'', w'', b # bs)))"

lemma expired_login:
  assumes "expired E c" and "resp_token D (''token expired'' @ [nl]) = None"
  shows "\<exists>w'. Login (server_transport E (Url c) json) now D marshal c w = (c\<lparr>lastRequest := now\<rparr>, w', False)"
  using expired_answer [OF assms(1), of "''login''" "''POST''" "marshal \<lparr>LR_Username = Username c, LR_Password = Password c\<rparr>" w] assms(2)
  by (auto simp: Login_def authLoginPost_def bound_call_def makeHttpRequest_server response_text_def bindToResponse_def)

lemma expired_frame [simp]: "expired E (c\<lparr>lastRequest := n\<rparr>) = expired E c"
  by (simp add: expired_def token_header_def)

text \<open>
  Property C30. A client whose token has expired cannot log in again: because it sends the old token
  with the login, and the server refuses an expired token before it looks at the route, every
  further attempt fails, with the right password too and at any later moment, and leaves the
  old token in place.
\<close>

theorem expired_client_locked_out:
  assumes "\<forall>E \<in> set Es. expired E c"
    and "resp_token D (''token expired'' @ [nl]) = None"
  shows "\<exists>c' w'. login_attempts json now D marshal Es c w = (c', w', replicate (length Es) False) \<and> authToken c' = authToken c"
  using assms(1)
proof (induction Es arbitrary: c w)
  case Nil
  then show ?case by simp
next
  case (Cons E Es)
  then obtain w' where l: "Login (server_transport E (Url c) json) now D marshal c w = (c\<lparr>lastRequest := now\<rparr>, w', False)"
    using expired_login [OF _ assms(2)] by (metis list.set_intros(1))
  have "\<forall>E \<in> set Es. expired E (c\<lparr>lastRequest := now\<rparr>)" using Cons.prems by simp
  from Cons.IH [OF this, of w'] obtain c'' w'' where
    "login_attempts json now D marshal Es (c\<lparr>lastRequest := now\<rparr>) w' = (c'', w'', replicate (length Es) False)"
    "authToken c'' = authToken c" by auto
  then show ?case by (simp add: l)
qed

text \<open>
  A logout of the client does not depend on the server's answer: whenever any response
  arrives, whatever its status, the call reports success and the client forgets its token; only
  a failure of the connection keeps it. So a refused logout (the session is still alive on the
  server, or the token has expired) is reported as a success.
\<close>

lemma logout_ignores_answer:
  assumes "Logout (server_transport E (Url c) json) now c w = (c', w', ok)"
  shows "ok = (\<exists>resp. snd (ServeHTTP E (call_request c ''POST'' ''auth'' ''logout'' ''{}'') w) = Inr resp)
    \<and> w' = fst (ServeHTTP E (call_request c ''POST'' ''auth'' ''logout'' ''{}'') w)
    \<and> c' = (if ok then c\<lparr>authToken := [], tokenExpirySec := 0, lastRequest := 0\<rparr> else c)"
proof (cases "snd (ServeHTTP E (call_request c ''POST'' ''auth'' ''logout'' ''{}'') w)")
  case (Inl p)
  with assms show ?thesis
    by (auto simp: Logout_def authLogoutPost_def unbound_call_def makeHttpRequest_server response_text_def)
next
  case (Inr resp)
  with assms show ?thesis
    by (cases resp) (auto simp: Logout_def authLogoutPost_def unbound_call_def makeHttpRequest_server response_text_def)
qed

definition late_env :: "unit env" where
  "late_env = visit_env\<lparr>unix_now := 9000\<rparr>"

definition late_client :: client where
  "late_client = ann_client\<lparr>authToken := Token (tokenResponse visit_env ''0x3'' ''user'' ann_token)\<rparr>"

lemma late_expired: "expired late_env late_client"
proof -
  let ?t = "tokenResponse visit_env ''0x3'' ''user'' ann_token"
  have "Token ?t \<noteq> []" by (simp add: tokenResponse_def ConstructToken_def MessageAndMAC_def Let_def)
  then have hdr: "token_header late_client = bearer ?t" by (simp add: token_header_def bearer_def late_client_def)
  have "dot_free ''0x3''" "dot_free ''user''" by simp_all
  then obtain tok where t: "bearer_token (bearer ?t) = Some tok"
    "UADFromToken (cry visit_env) tok (secret_key visit_env) = Some ann_session"
    using token_identity [of stored_ann "''user''" visit_env] by (auto simp: stored_ann_simps)
  have "representable (unix_now visit_env) 9000" by (simp add: representable_def visit_env_simps)
  from checkTimestamp_at [OF this] have "\<not> checkTimestamp late_env (UadTimestamp ann_session)"
    by (simp add: ann_session_simps late_env_def) (simp add: visit_env_simps)
  moreover have "cry late_env = cry visit_env" "secret_key late_env = secret_key visit_env" by (simp_all add: late_env_def)
  ultimately show ?thesis using t by (auto simp: expired_def hdr)
qed

theorem expired_client_locked_out_witness:
  "\<exists>c' w'. login_attempts toy_json 5 toy_decoders (\<lambda>_. []) [late_env, late_env] late_client empty_world = (c', w', [False, False])
     \<and> authToken c' = authToken late_client"
proof -
  have "\<forall>E \<in> set [late_env, late_env]. expired E late_client" using late_expired by simp
  moreover have "resp_token toy_decoders (''token expired'' @ [nl]) = None" by (simp add: toy_decoders_def)
  ultimately show ?thesis
    using expired_client_locked_out [where Es = "[late_env, late_env]" and c = late_client and D = toy_decoders
      and json = toy_json and now = 5 and marshal = "\<lambda>_. []" and w = empty_world] by simp
qed

lemma logout_ignores_answer_witness:
  "\<exists>c' w'. Logout (server_transport late_env (Url late_client) toy_json) 7 late_client empty_world = (c', w', True)
     \<and> authToken c' = []"
proof -
  obtain c' w' b where l: "Logout (server_transport late_env (Url late_client) toy_json) 7 late_client empty_world = (c', w', b)"
    by (metis prod_cases3)
  have "\<exists>resp. snd (ServeHTTP late_env (call_request late_client ''POST'' ''auth'' ''logout'' ''{}'') empty_world) = Inr resp"
    using expired_answer [OF late_expired] by blast
  with logout_ignores_answer [OF l] l show ?thesis by auto
qed

end
