(* ===== verification/Payloads.thy ===== *)
theory Payloads
  imports Sharing
begin

text \<open>
  What is written to the database by the node routes of \<open>api/graph.go\<close>: every mutation of the
  creation route is well typed throughout, and an update forwards what its check does not
  look at.
\<close>

section \<open>Creation\<close>

text \<open>A uid that the database issued, or a blank node named by a digest.\<close>

definition wf_uid :: "string \<Rightarrow> bool" where
  "wf_uid u \<longleftrightarrow> rgxUid (to_lower u) \<or> (has_prefix u ''_:'' \<and> length u = 34 \<and> list_all hex_char (drop 2 u))"

text \<open>A link is a uid and nothing else: no attribute, no owner, nothing nested.\<close>

definition bare_link :: "graph_node option \<Rightarrow> bool" where
  "bare_link ep \<longleftrightarrow> (case ep of None \<Rightarrow> False | Some e \<Rightarrow> e = NewGraphNodeJustUID (NodeUid e) \<and> wf_uid (NodeUid e))"

text \<open>
  A written node has a well-formed uid, bare links, and no owner but the caller, given by the
  uid alone; it carries no AD, is stamped as modified, and if it is new has the node type and
  was created at that time.
\<close>

definition wf_written :: "string \<Rightarrow> graph_node \<Rightarrow> bool" where
  "wf_written caller n \<longleftrightarrow>
     wf_uid (NodeUid n) \<and> list_all bare_link (edges_of n) \<and> Owner n \<in> {None, Some (NewGraphUser caller)}
     \<and> AuthzData (nattrs n) = [] \<and> TimeModified (nattrs n) \<noteq> None
     \<and> (has_prefix (NodeUid n) ''_:'' \<longrightarrow> DgraphType (nattrs n) = [''N''] \<and> TimeCreated (nattrs n) = TimeModified (nattrs n))"

lemma wf_safe_uid:
  assumes "\<And>m. length (md5_sum C m) = 16"
  shows "wf_uid (getUidOrSafeTempUid C u)"
proof (cases "rgxUid (to_lower (trim_space u))")
  case True
  then show ?thesis by (simp add: getUidOrSafeTempUid_def wf_uid_def Let_def)
next
  case False
  then show ?thesis
    by (auto simp: getUidOrSafeTempUid_def wf_uid_def Let_def MD5SumHex_def assms list_all_iff dest: EncodeToString_chars)
qed

text \<open>What the creation route hands to \<open>UpsertNodes\<close>: links by uid, and the caller as owner.\<close>

definition plain_node :: "string \<Rightarrow> graph_node \<Rightarrow> bool" where
  "plain_node caller n \<longleftrightarrow>
     list_all (\<lambda>ep. case ep of None \<Rightarrow> False | Some e \<Rightarrow> e = NewGraphNodeJustUID (NodeUid e)) (edges_of n)
     \<and> Owner n \<in> {None, Some (NewGraphUser caller)}"

lemma safe_edge_bare: "safe_edge C (NewGraphNodeJustUID u) = NewGraphNodeJustUID (getUidOrSafeTempUid C u)"
  by (simp add: safe_edge_def NewGraphNodeJustUID_def node_attrs_of_uid_def)

lemma wf_prepared:
  assumes "\<And>m. length (md5_sum C m) = 16" and "wf_uid (NodeUid n)" and "plain_node caller n"
  shows "wf_written caller (prepared_node C t n)"
proof -
  have e: "edges_of (prepared_node C t n) = map (Some \<circ> safe_edge C \<circ> the) (edges_of n)"
    by (cases "OutEdges n") (simp_all add: edges_of_def prepared_node_def)
  have "bare_link ((Some \<circ> safe_edge C \<circ> the) ep)" if "ep \<in> set (edges_of n)" for ep
  proof -
    from assms(3) that obtain m where "ep = Some m" "m = NewGraphNodeJustUID (NodeUid m)"
      by (auto simp: plain_node_def list_all_iff split: option.splits)
    then obtain u where "ep = Some (NewGraphNodeJustUID u)" by metis
    moreover have "NodeUid (NewGraphNodeJustUID v) = v" for v
      by (simp add: NewGraphNodeJustUID_def node_attrs_of_uid_def)
    ultimately show ?thesis by (simp add: bare_link_def safe_edge_bare wf_safe_uid [OF assms(1)])
  qed
  then have "list_all bare_link (edges_of (prepared_node C t n))" by (simp add: e list_all_iff)
  then show ?thesis
    using assms(2,3) by (auto simp: wf_written_def plain_node_def prepared_node_def stamp_node_def Let_def)
qed

lemma wf_prepared_nodes:
  assumes "\<And>m. length (md5_sum C m) = 16" and "\<forall>n \<in> set ns. wf_uid (NodeUid n) \<and> plain_node caller n"
  shows "list_all (wf_written caller) (prepared_nodes C now i ns)"
  using assms(2) by (induction ns arbitrary: i) (auto intro: wf_prepared [OF assms(1)])

lemma wf_written_nodes:
  assumes "\<And>m. length (md5_sum C m) = 16" and "\<forall>n \<in> set ns. plain_node caller n"
  shows "list_all (wf_written caller) (written_nodes C now ns)"
  unfolding written_nodes_def
  using assms(2) by (intro wf_prepared_nodes assms(1)) (auto simp: plain_node_def SetUid_def edges_of_def wf_safe_uid [OF assms(1)])

lemma plain_adopted: "plain_node owner (adopted owner sgi n)"
  by (cases "OutEdges n") (auto simp: plain_node_def adopted_def edges_of_def list_all_iff NewGraphNodeJustUID_def node_attrs_of_uid_def)

lemma plain_linked: "plain_node owner (linked_node p t (map NewGraphNodeJustUID us))"
  by (auto simp: plain_node_def linked_node_def edges_of_def list_all_iff NewGraphNodeJustUID_def node_attrs_of_uid_def)

text \<open>
  Property C24. Every mutation of the creation route is well typed, at every depth: a creation
  leaves the database alone or sends one mutation, all of whose nodes have a uid in the form
  of the database or a blank one named by a digest, and link to others by such uids alone,
  with nothing nested in a link; so no other text of a client is used as a uid, no AD is
  stored, and no object is written but nodes, with the caller's uid as their only owner data;
  each node is stamped as modified, and a new one has the node type and its creation time.
\<close>

theorem create_payload_typed:
  assumes "\<And>m. length (md5_sum (cry E) m) = 16"
  shows "database (fst (handle_create E param body uad w)) = database w \<or>
    (\<exists>ms. database (fst (handle_create E param body uad w)) =
        fst (apply_mutation (dbase E) (database w) ADD (NodeList (map Some ms)))
      \<and> list_all (wf_written (UadUid uad)) ms)"
  using create_nodes_payload [of E param body uad w]
proof
  assume "\<exists>parent req nodes sgi. AuthzDataUnpackADString (cry E) (sessions w) param uad ''o'' = Some parent
     \<and> dec_create (decs E) body = Some req \<and> CreateNodesRequest_Validate req \<and> CN_Nodes req = Some nodes
     \<and> new_sgi E req parent = Inr sgi
     \<and> database (fst (handle_create E param body uad w)) =
         fst (apply_mutation (dbase E) (database w) ADD (NodeList (map Some (written_nodes (cry E) (clock E)
           (let ms = map (adopted (UadUid uad) sgi \<circ> the) nodes in
            ms @ [linked_node (NodeUid parent) (Some (clock E 0)) (map NewGraphNodeJustUID (child_uids ms))])))))"
  then obtain parent nodes sgi where "database (fst (handle_create E param body uad w)) =
         fst (apply_mutation (dbase E) (database w) ADD (NodeList (map Some (written_nodes (cry E) (clock E)
           (let ms = map (adopted (UadUid uad) sgi \<circ> the) nodes in
            ms @ [linked_node (NodeUid parent) (Some (clock E 0)) (map NewGraphNodeJustUID (child_uids ms))])))))"
    (is "_ = fst (apply_mutation _ _ _ (NodeList (map Some (written_nodes _ _ ?ns))))") by blast
  moreover have "list_all (wf_written (UadUid uad)) (written_nodes (cry E) (clock E) ?ns)"
    by (intro wf_written_nodes assms) (auto simp: Let_def plain_adopted plain_linked)
  ultimately show ?thesis by blast
qed simp

text \<open>An environment whose database records the mutations, with digests of 16 bytes.\<close>

definition recording_env :: "decoders \<Rightarrow> payload list env" where
  "recording_env ds = \<lparr>cry = toy_crypto\<lparr>md5_sum := (\<lambda>m. replicate 16 CHR ''x'')\<rparr>, rtm = toy_runtime, go_quote = id, clock = (\<lambda>_. 5),
     server_time = 5, unix_now = 1700, nano_now = 1700000000000, random = (\<lambda>_ _. CHR ''a''), grant_order = id,
     dbase = \<lparr>run_nodes = (\<lambda>_ _ _. None), run_users = (\<lambda>_ _ _. None), apply_mutation = (\<lambda>d _ p. (p # d, Some []))\<rparr>,
     decs = ds, conf_get = (\<lambda>_. []), secret_key = [], token_expiry = 600\<rparr>"

lemma recording_env_simps [simp]:
  "decs (recording_env ds) = ds" "apply_mutation (dbase (recording_env ds)) d ut p = (p # d, Some [])"
  "length (md5_sum (cry (recording_env ds)) m) = 16"
  by (simp_all add: recording_env_def)

abbreviation blank_world :: "payload list world" where
  "blank_world \<equiv> \<lparr>database = [], sessions = UsmInit\<rparr>"

definition creation_decoders :: decoders where
  "creation_decoders = no_decoders\<lparr>dec_create := (\<lambda>_. Some \<lparr>CN_Nodes = Some [Some (NewGraphNodeJustUID ''$a'')], CN_ResetSgi = False\<rparr>)\<rparr>"

lemma ad_digest_free: "GraphNodeFromAD (C\<lparr>md5_sum := f\<rparr>) a k = GraphNodeFromAD C a k"
  by (simp add: GraphNodeFromAD_def DecodeAndVerifyAD_def IsValidMAC_def MAC_def)

lemma recording_ad:
  "GraphNodeFromAD (cry (recording_env ds)) (AuthzData (nattrs example_packed)) (UadSecretKey example_uad)
   = Some (node_of_ad ''0x5'' ''0x1'' ''grp1'' ''r'')"
  using example_packed_ad by (simp add: recording_env_def ad_digest_free) (simp add: example_uad_def)

theorem create_payload_typed_witness:
  "\<exists>ms. database (fst (handle_create (recording_env creation_decoders) (AuthzData (nattrs example_packed)) [] example_uad blank_world))
       = [NodeList (map Some ms)] \<and> ms \<noteq> [] \<and> list_all (wf_written (UadUid example_uad)) ms"
proof -
  let ?E = "recording_env creation_decoders" and ?r = "\<lparr>CN_Nodes = Some [Some (NewGraphNodeJustUID ''$a'')], CN_ResetSgi = False\<rparr>"
  let ?p = "node_of_ad ''0x5'' ''0x1'' ''grp1'' ''r''" and ?ad = "AuthzData (nattrs example_packed)"
  let ?n = "adopted ''0x1'' ''grp1'' (NewGraphNodeJustUID ''$a'')"
  let ?ns = "[?n, linked_node ''0x5'' (Some 5) [NewGraphNodeJustUID ''$a'']]"
  have k: "UadUid example_uad = ''0x1''" by (simp add: example_uad_def)
  have p: "owner_uid ?p = ''0x1''" "Sgi (nattrs ?p) = Some ''grp1''" "NodeUid ?p = ''0x5''"
    by (simp_all add: node_of_ad_def owner_uid_def NewGraphUser_def node_attrs_of_uid_def)
  have ad: "AuthzDataUnpackADString (cry ?E) s ?ad example_uad rp = Some ?p" for s rp
    by (simp add: AuthzDataUnpackADString_def recording_ad k p)
  have v: "CreateNodesRequest_Validate ?r"
    by (simp add: CreateNodesRequest_Validate_def CheckUidsArePlaceholders_def NewGraphNodeJustUID_def node_attrs_of_uid_def
        CheckUidIsPlaceholder_def TMP_UID_PREFIX_def)
  have u: "NodeUid (NewGraphNodeJustUID x) = x" "OutEdges (NewGraphNodeJustUID x) = None" for x
    by (simp_all add: NewGraphNodeJustUID_def node_attrs_of_uid_def)
  have nn: "new_nodes (clock ?E 0) ''0x1'' ''grp1'' ''0x5'' [Some (NewGraphNodeJustUID ''$a'')] = Inr (Inr ?ns)"
    by (simp add: new_nodes_def adopt_node_def adopted_def u parent_links_def root_uids_def linked_uids_def edges_of_def
        StoreNodeOutgoingEdgeData_def Let_def recording_env_def)
  have chk: "checkUpsertNodeList (Some (map Some ?ns)) = None"
    unfolding checkUpsertNodeList_char by (auto simp: u adopted_def linked_node_def edges_of_def node_attrs_of_uid_def
        NewGraphNodeJustUID_def)
  have b: "BindToRequest CreateNodesRequest_AuthzDataUnpack CreateNodesRequest_Validate (dec_create (decs ?E) [])
      \<lparr>UAD = Some example_uad, RequiredPermissions = ''o''\<rparr> = Inr (Inr ?r)"
    by (simp add: BindToRequest_def TryAuthzDataUnpack_def creation_decoders_def CreateNodesRequest_AuthzDataUnpack_def v)
  have "handle_create ?E ?ad [] example_uad blank_world
      = act_bind (upsert ?E (Some (map Some ?ns))) (\<lambda>res. reply_cogged ?E example_uad (fst res)) blank_world"
    unfolding handle_create_def act_bind_read ad option.case bind_then_apply b sum.case using nn
    by (simp add: new_sgi_def p k act_bind_go_Inr)
  then have "fst (handle_create ?E ?ad [] example_uad blank_world) = fst (upsert ?E (Some (map Some ?ns)) blank_world)"
    by (simp add: act_bind_def reply_cogged_apply split: sum.split)
  also have "\<dots> = blank_world\<lparr>database := [NodeList (map Some (written_nodes (cry ?E) (clock ?E) ?ns))]\<rparr>"
    unfolding upsert_def UpsertNodes_accepted [OF chk] upsert_accepted_def Let_def by simp
  finally have d: "database (fst (handle_create ?E ?ad [] example_uad blank_world))
      = [NodeList (map Some (written_nodes (cry ?E) (clock ?E) ?ns))]" by simp
  have ne: "written_nodes (cry ?E) (clock ?E) ?ns \<noteq> []"
    by (simp add: written_nodes_def)
  have "length (md5_sum (cry ?E) m) = 16" for m by simp
  from create_payload_typed [of ?E ?ad "[]" example_uad blank_world, OF this]
  show ?thesis
  proof
    assume "database (fst (handle_create ?E ?ad [] example_uad blank_world)) = database blank_world"
    then show ?thesis unfolding d by simp
  next
    assume "\<exists>ms. database (fst (handle_create ?E ?ad [] example_uad blank_world))
        = fst (apply_mutation (dbase ?E) (database blank_world) ADD (NodeList (map Some ms)))
      \<and> list_all (wf_written (UadUid example_uad)) ms"
    then obtain ms where m: "database (fst (handle_create ?E ?ad [] example_uad blank_world)) = [NodeList (map Some ms)]"
      and t: "list_all (wf_written (UadUid example_uad)) ms" by auto
    from m ne have "ms \<noteq> []" unfolding d by auto
    with m t show ?thesis by blast
  qed
qed

section \<open>Update\<close>

text \<open>
  Two nodes are alike for the check of an update if they have the same attributes, AD
  included, and their owners have the same uid; what else is in the owner object, and
  everything behind the out-edges, may differ.
\<close>

definition checked_alike :: "graph_node \<Rightarrow> graph_node \<Rightarrow> bool" where
  "checked_alike n m \<longleftrightarrow> nattrs m = nattrs n \<and> (Owner m = None) = (Owner n = None) \<and> owner_uid m = owner_uid n"

lemma unpack_node_alike:
  assumes "unpack_node C s uad perms (Some n) = Inr (q, True)" and "checked_alike n m"
  shows "unpack_node C s uad perms (Some m) = Inr (Some (ConvertNullBoolFieldsToFalse m), True)"
proof -
  from assms(1) obtain tmp where "GraphNodeFromAD C (AuthzData (nattrs n)) (UadSecretKey uad) = Some tmp"
    by (auto simp: unpack_node_def Let_def split: option.splits if_splits)
  with assms show ?thesis
    by (auto simp: unpack_node_def AuthzFieldsAreEqual_Some Let_def checked_alike_def go_bind_eq_Inr_iff split: if_splits)
qed

lemma unpack_nodes_alike:
  "list_all2 checked_alike ns ms \<Longrightarrow> unpack_nodes C s uad perms (map Some ns) = Inr (q, True) \<Longrightarrow>
   unpack_nodes C s uad perms (map Some ms) = Inr (map (Some \<circ> ConvertNullBoolFieldsToFalse) ms, True)"
proof (induction ns ms arbitrary: q rule: list_all2_induct)
  case (Cons n ns m ms)
  from Cons.prems obtain r where r: "unpack_node C s uad perms (Some n) = Inr r" by (auto simp: go_bind_eq_Inr_iff)
  with Cons.prems have "snd r" by (auto split: if_splits)
  with r have n: "unpack_node C s uad perms (Some n) = Inr (fst r, True)" by (cases r) simp
  with Cons.prems obtain q' where "unpack_nodes C s uad perms (map Some ns) = Inr (q', True)"
    by (auto simp: go_bind_eq_Inr_iff)
  from Cons.IH [OF this] unpack_node_alike [OF n Cons.hyps(1)] show ?case by simp
qed simp

text \<open>What stays of a node and of each of its direct links when it is written.\<close>

definition forwarded :: "graph_node \<Rightarrow> graph_node \<Rightarrow> bool" where
  "forwarded n m \<longleftrightarrow> Owner m = Owner n
     \<and> list_all2 (\<lambda>ep fp. map_option OutEdges fp = map_option OutEdges ep \<and> map_option Owner fp = map_option Owner ep)
         (edges_of n) (edges_of m)"

lemma forwarded_written:
  assumes "\<forall>n \<in> set ns. None \<notin> set (edges_of n)"
  shows "list_all2 forwarded ns (written_nodes C now ns)"
proof -
  have one: "forwarded n (prepared_node C t (SetUid u n))" if "None \<notin> set (edges_of n)" for n t u
  proof -
    let ?f = "Some \<circ> safe_edge C \<circ> the"
    have es: "edges_of (prepared_node C t (SetUid u n)) = map ?f (edges_of n)"
      by (cases "OutEdges n") (simp_all add: edges_of_def prepared_node_def)
    have "map_option OutEdges (?f ep) = map_option OutEdges ep \<and> map_option Owner (?f ep) = map_option Owner ep"
      if "ep \<in> set (edges_of n)" for ep
    proof -
      from that \<open>None \<notin> set (edges_of n)\<close> have "ep \<noteq> None" by metis
      then show ?thesis by (auto simp: safe_edge_def)
    qed
    moreover have "Owner (prepared_node C t (SetUid u n)) = Owner n" by (simp add: prepared_node_def)
    ultimately show ?thesis unfolding forwarded_def es list_all2_map2 list_all2_same by blast
  qed
  have "list_all2 forwarded ns (prepared_nodes C now i (map (\<lambda>n. SetUid (f n) n) ns))" for f i
    using assms by (induction ns arbitrary: i) (auto intro: one)
  then show ?thesis by (simp add: written_nodes_def)
qed

lemma Convert_edges [simp]: "edges_of (ConvertNullBoolFieldsToFalse n) = edges_of n"
  by (simp add: edges_of_def)

lemma handle_update_payload:
  assumes "dec_update (decs E) body = Some \<lparr>UP_Nodes = Some (map Some ms)\<rparr>" and "ms \<noteq> []"
    and "unpack_nodes (cry E) (sessions w) uad ''w'' (map Some ms) = Inr (map (Some \<circ> ConvertNullBoolFieldsToFalse) ms, True)"
    and "checkUpsertNodeList (Some (map Some ms)) = None"
  shows "database (fst (handle_update E body uad w)) = fst (apply_mutation (dbase E) (database w) ADD
    (NodeList (map Some (written_nodes (cry E) (clock E) (map ConvertNullBoolFieldsToFalse ms)))))"
proof -
  let ?ms = "map ConvertNullBoolFieldsToFalse ms"
  have chk: "checkUpsertNodeList (Some (map Some ?ms)) = None"
    using assms(4) unfolding checkUpsertNodeList_char by (auto simp: comp_def)
  have "fst (handle_update E body uad w) = fst (upsert E (Some (map Some ?ms)) w)"
    using assms(1-3) by (simp add: handle_update_def act_simps BindToRequest_def TryAuthzDataUnpack_def
        UpdateNodesRequest_AuthzDataUnpack_def AuthzDataUnpackNodeSlice_def UpdateNodesRequest_Validate_def act_bind_def
        comp_def split: sum.split)
  then show ?thesis
    using UpsertNodes_accepted [OF chk, of "cry E" "go_quote E" "clock E" "server_time E" "dbase E" w]
    by (simp add: upsert_def upsert_accepted_def Let_def comp_def)
qed

text \<open>
  Property C32. An update writes what its check does not look at: if the check accepts the nodes
  of an update, then it also accepts any other nodes that have the same attributes and ADs and
  owners of the same uid, whatever the other fields of the owner objects and whatever is
  nested behind the out-edges; and the route then sends one mutation with these owner
  objects, and with the out-edges and owners nested in the links, exactly as they came. So an
  ordinary user writes any field of a user record under its own uid, the role for instance,
  and attaches nested nodes, which the interface description says are not allowed.
\<close>

theorem update_forwards_unchecked:
  assumes "AuthzDataUnpackNodeSlice (cry E) (sessions w) (Some (map Some ns)) uad ''w'' = Inr (accepted, True)"
    and "list_all2 checked_alike ns ms" and "dec_update (decs E) body = Some \<lparr>UP_Nodes = Some (map Some ms)\<rparr>"
    and "checkUpsertNodeList (Some (map Some ms)) = None"
  shows "\<exists>written. database (fst (handle_update E body uad w)) =
      fst (apply_mutation (dbase E) (database w) ADD (NodeList (map Some written)))
    \<and> list_all2 forwarded ms written"
proof -
  from assms(1) obtain q where "ns \<noteq> []" and "unpack_nodes (cry E) (sessions w) uad ''w'' (map Some ns) = Inr (q, True)"
    by (auto simp: AuthzDataUnpackNodeSlice_def go_bind_eq_Inr_iff split: if_splits)
  moreover from this(1) assms(2) have "ms \<noteq> []" by auto
  ultimately have d: "database (fst (handle_update E body uad w)) = fst (apply_mutation (dbase E) (database w) ADD
      (NodeList (map Some (written_nodes (cry E) (clock E) (map ConvertNullBoolFieldsToFalse ms)))))"
    by (intro handle_update_payload assms(3,4) unpack_nodes_alike [OF assms(2)])
  have "None \<notin> set (concat (map (edges_of \<circ> the) (map Some ms)))"
    using assms(4) unfolding checkUpsertNodeList_char by blast
  then have "list_all2 forwarded (map ConvertNullBoolFieldsToFalse ms)
      (written_nodes (cry E) (clock E) (map ConvertNullBoolFieldsToFalse ms))"
    by (intro forwarded_written) auto
  then have "list_all2 forwarded ms (written_nodes (cry E) (clock E) (map ConvertNullBoolFieldsToFalse ms))"
    unfolding forwarded_def [abs_def] list_all2_map1 by simp
  with d show ?thesis by blast
qed

text \<open>The user 0x1 updates its node 0x5 and writes the role sys into its own record.\<close>

definition promoted_user :: graph_user where
  "promoted_user = GraphUser ((uattrs (NewGraphUser ''0x1''))\<lparr>URole := Some SYS_ROLE\<rparr>) None None"

definition promoting_node :: graph_node where
  "promoting_node = GraphNode (nattrs example_packed) None (Some promoted_user)"

definition update_decoders :: decoders where
  "update_decoders = no_decoders\<lparr>dec_update := (\<lambda>_. Some \<lparr>UP_Nodes = Some (map Some [promoting_node])\<rparr>)\<rparr>"

theorem update_forwards_unchecked_witness:
  "\<exists>n. database (fst (handle_update (recording_env update_decoders) [] example_uad blank_world)) = [NodeList [Some n]]
     \<and> Owner n = Some promoted_user \<and> URole (uattrs promoted_user) = Some SYS_ROLE
     \<and> UserUid promoted_user = UadUid example_uad \<and> \<not> IsAdmin example_uad"
proof -
  let ?E = "recording_env update_decoders"
  have u: "URole (uattrs promoted_user) = Some SYS_ROLE" "UserUid promoted_user = UadUid example_uad" "\<not> IsAdmin example_uad"
    by (simp_all add: promoted_user_def NewGraphUser_def example_uad_def IsAdmin_def SYS_ROLE_def)
  have "AuthzData (nattrs example_packed) \<noteq> []" by (simp add: example_packed_def MessageAndMAC_def Let_def)
  then have "unpack_node (cry ?E) UsmInit example_uad ''w'' (Some example_packed)
      = Inr (Some (ConvertNullBoolFieldsToFalse example_packed), True)"
    by (simp add: unpack_node_def Let_def recording_ad AuthzFieldsAreEqual_Some example_packed_fields
        example_packed_perms) (simp add: example_uad_def)
  then have acc: "AuthzDataUnpackNodeSlice (cry ?E) (sessions blank_world) (Some (map Some [example_packed])) example_uad ''w''
      = Inr (Some [Some (ConvertNullBoolFieldsToFalse example_packed)], True)"
    by (simp add: AuthzDataUnpackNodeSlice_def)
  have alike: "list_all2 checked_alike [example_packed] [promoting_node]"
    by (simp add: checked_alike_def promoting_node_def promoted_user_def owner_uid_def NewGraphUser_def example_packed_fields(4))
  have chk: "checkUpsertNodeList (Some (map Some [promoting_node])) = None"
    unfolding checkUpsertNodeList_char by (simp add: promoting_node_def edges_of_def)
  have dec: "dec_update (decs ?E) [] = Some \<lparr>UP_Nodes = Some (map Some [promoting_node])\<rparr>"
    by (simp add: update_decoders_def)
  from update_forwards_unchecked [OF acc alike dec chk] obtain written where
    d: "database (fst (handle_update ?E [] example_uad blank_world)) = [NodeList (map Some written)]"
    and f: "list_all2 forwarded [promoting_node] written" by auto
  from f obtain n where "written = [n]" "forwarded promoting_node n" by (auto simp: list_all2_Cons1)
  with d u show ?thesis by (auto simp: forwarded_def promoting_node_def)
qed

end
