(* ===== verification/Identity.thy ===== *)
theory Identity
  imports Grants
begin

text \<open>
  Who the callers are: over any history of requests, the identity with which the server
  serves a request is that of a stored user who logged in, with the role stored at that
  moment. Tokens leave the server in the replies of the login and of the refresh only.
\<close>

section \<open>Replies that carry a token\<close>

definition no_token :: "('d, api_error + reply) act \<Rightarrow> bool" where
  "no_token m \<longleftrightarrow> (\<forall>w r. snd (m w) \<noteq> Inr (Inr (TokenBody r)))"

named_theorems tokenless \<open>actions that do not reply with a token\<close>

lemma no_token_bind [tokenless]: "(\<And>x. no_token (f x)) \<Longrightarrow> no_token (act_bind m f)"
  by (auto simp: no_token_def act_bind_def split: sum.split)

lemma no_token_return [tokenless]: "(\<And>r. x \<noteq> Inr (TokenBody r)) \<Longrightarrow> no_token (act_return x)"
  by (simp add: no_token_def act_simps)

lemma no_token_replies [tokenless]:
  "no_token (fail info code)" "no_token not_found" "no_token (reply_user E u ur)" "no_token (reply_cogged E u cr)"
  by (auto simp: no_token_def act_simps not_found_def go_bind_eq_Inr_iff)

lemma no_token_reply_opt [tokenless]: "no_token (reply_cogged_opt E uad cr)"
  by (auto simp: reply_cogged_opt_def no_token_def act_simps go_bind_eq_Inr_iff split: option.split)

lemma no_token_bind_then [tokenless]: "(\<And>x. no_token (k x)) \<Longrightarrow> no_token (bind_then b k)"
  by (auto simp: no_token_def act_simps split: sum.split bind_error.split)

lemma no_token_splits [tokenless]:
  "(b \<Longrightarrow> no_token m) \<Longrightarrow> (\<not> b \<Longrightarrow> no_token n) \<Longrightarrow> no_token (if b then m else n)"
  "(\<And>x. no_token (f x)) \<Longrightarrow> (\<And>y. no_token (g y)) \<Longrightarrow> no_token (case s of Inl x \<Rightarrow> f x | Inr y \<Rightarrow> g y)"
  "no_token m \<Longrightarrow> (\<And>x. no_token (f x)) \<Longrightarrow> no_token (case v of None \<Rightarrow> m | Some x \<Rightarrow> f x)"
  by (auto split: sum.split option.split)

lemma no_token_found [tokenless]: "no_token (reply_found_user E u ur)"
  unfolding reply_found_user_def by (intro tokenless)

lemma no_token_health: "no_token (HealthAPI_HandleRequest k param body uad)"
  unfolding HealthAPI_HandleRequest_def by (intro tokenless) simp

lemma no_token_admin: "no_token (AdminAPI_HandleRequest E k param body uad)"
  unfolding AdminAPI_HandleRequest_def by (intro tokenless) simp

lemma no_token_graph: "no_token (GraphAPI_HandleRequest E k param body uad)"
  unfolding GraphAPI_HandleRequest_def handle_query_def handle_sharedwith_def handle_update_def handle_create_def
    handle_edges_def
  by (intro tokenless) simp_all

lemma no_token_user: "no_token (UserAPI_HandleRequest E k param body uad)"
  unfolding UserAPI_HandleRequest_def handle_user_node_def handle_user_nodes_def handle_share_def handle_name_def
    handle_uid_def Let_def
  by (intro tokenless) simp_all

text \<open>The request presented the password of a stored user, who had this uid and role.\<close>

definition logged_in_as :: "'d env \<Rightarrow> 'd world \<Rightarrow> string \<Rightarrow> string \<Rightarrow> string \<Rightarrow> bool" where
  "logged_in_as E w body uid role \<longleftrightarrow>
     (\<exists>lr user us h. dec_login (decs E) body = Some lr \<and> LoginRequest_Validate lr
        \<and> run_users (dbase E) (database w) query_user_text [(''$username'', LR_Username lr)] = Some (Some (Some user # us))
        \<and> PasswordHash (uattrs user) = Some h \<and> VerifyPasswordHash (cry E) h (LR_Password lr)
        \<and> UserUid user = uid \<and> URole (uattrs user) = Some role)"

definition token_of_login :: "'d env \<Rightarrow> 'd world \<Rightarrow> http_request \<Rightarrow> TokenResponse \<Rightarrow> bool" where
  "token_of_login E w req r \<longleftrightarrow> (\<exists>uid role. logged_in_as E w (hr_body req) uid role
     \<and> r = tokenResponse E uid role (newTokenId (random E 0)))"

definition token_of_refresh :: "'d env \<Rightarrow> 'd world \<Rightarrow> http_request \<Rightarrow> TokenResponse \<Rightarrow> bool" where
  "token_of_refresh E w req r \<longleftrightarrow> (\<exists>u. identified E (sessions w) (hr_authorization req) u
     \<and> r = tokenResponse E (UadUid u) (UadRole u) (UadTokenId u))"

lemma auth_token:
  assumes "snd (AuthAPI_HandleRequest E k param (hr_body req) uad w) = Inr (Inr (TokenBody r))"
    and "admitted E (sessions w) req uad"
  shows "token_of_login E w req r \<or> token_of_refresh E w req r"
proof -
  consider "k = ''POST login''" | "k = ''GET refresh''" | "k \<noteq> ''POST login''" "k \<noteq> ''GET refresh''" by blast
  then show ?thesis
  proof cases
    case 1
    with assms(1) have l: "snd (handle_login E (hr_body req) uad w) = Inr (Inr (TokenBody r))"
      by (simp add: AuthAPI_HandleRequest_def)
    show ?thesis
    proof (cases rule: handle_login_cases [of E "hr_body req" w uad])
      case (accepted lr user us h)
      with l have "token_of_login E w req r" unfolding token_of_login_def logged_in_as_def by blast
      then show ?thesis ..
    next
      case rejected
      with l show ?thesis by simp
    qed
  next
    case 2
    with assms show ?thesis
      by (cases uad) (auto simp: AuthAPI_HandleRequest_def handle_refresh_def act_simps admitted_def token_of_refresh_def Let_def)
  next
    case 3
    then have "no_token (AuthAPI_HandleRequest E k param (hr_body req) uad)"
      unfolding AuthAPI_HandleRequest_def handle_logout_def by (auto intro!: tokenless)
    with assms(1) show ?thesis by (simp add: no_token_def)
  qed
qed

lemma dispatch_token:
  assumes "snd (dispatch E req parts uad w) = Inr (HttpOk (TokenBody r))" and "admitted E (sessions w) req uad"
  shows "token_of_login E w req r \<or> token_of_refresh E w req r"
proof -
  from assms(1) obtain endpoint where i: "index_go parts 2 = Inr endpoint"
    by (cases "index_go parts 2") (simp_all add: dispatch_def act_simps)
  with assms(1) obtain h where h: "route_handler E (parts ! 1) = Some h"
    by (cases "route_handler E (parts ! 1)") (simp_all add: dispatch_def act_simps)
  let ?h = "h (hr_method req @ '' '' @ endpoint) (if 3 < length parts then parts ! 3 else []) (hr_body req) uad"
  from assms(1) i h have "snd (act_bind ?h http_result w) = Inr (HttpOk (TokenBody r))"
    by (simp add: dispatch_def act_simps Let_def)
  then have t: "snd (?h w) = Inr (Inr (TokenBody r))"
    by (auto simp: act_bind_def http_result_def act_simps split: sum.splits api_error.splits)
  then have "\<not> no_token ?h" unfolding no_token_def by blast
  with h have "h = AuthAPI_HandleRequest E"
    by (cases rule: route_handler_cases)
      (use no_token_health no_token_admin no_token_graph no_token_user in blast)+
  with t assms(2) auth_token show ?thesis by blast
qed

lemma request_token:
  assumes "snd (ServeHTTP E req w) = Inr (HttpOk (TokenBody r))"
  shows "token_of_login E w req r \<or> token_of_refresh E w req r"
proof -
  let ?path = "trim_space (hr_path req)"
  let ?parts = "split_on CHR ''/'' ?path"
  from assms have j: "json_content (hr_content_type req)"
    and e: "snd (serve_route E req ?path ?parts w) = Inr (HttpOk (TokenBody r))"
    by (auto simp: ServeHTTP_def Let_def act_simps split: if_splits)
  from serve_route_cases [OF refl refl j, of E w] e obtain uad where "admitted E (sessions w) req uad"
    "serve_route E req ?path ?parts w = dispatch E req ?parts uad w" by auto
  with e dispatch_token show ?thesis by metis
qed

section \<open>The tokens of a history\<close>

definition reply_tokens :: "http_response go \<Rightarrow> string list" where
  "reply_tokens g = (case g of Inr (HttpOk (TokenBody r)) \<Rightarrow> [Token r] | _ \<Rightarrow> [])"

fun tokens_sent :: "('d env \<times> http_request) list \<Rightarrow> 'd world \<Rightarrow> string list" where
  "tokens_sent [] w = []"
| "tokens_sent ((E, req) # reqs) w =
     reply_tokens (snd (ServeHTTP E req w)) @ tokens_sent reqs (fst (ServeHTTP E req w))"

lemma tokens_sent_snoc:
  "tokens_sent (reqs @ [(E, req)]) w = tokens_sent reqs w @ reply_tokens (snd (ServeHTTP E req (serve_all reqs w)))"
  by (induction reqs w rule: tokens_sent.induct) (simp_all add: serve_all_def)

lemma reply_tokens_iff: "t \<in> set (reply_tokens g) \<longleftrightarrow> (\<exists>r. g = Inr (HttpOk (TokenBody r)) \<and> t = Token r)"
  by (auto simp: reply_tokens_def split: sum.split http_response.split reply.split)

text \<open>
  One server, that is one key, and clients without codes of their own: the token of every
  request is not forged with respect to the tokens that the earlier replies have carried.
\<close>

definition unforged :: "crypto \<Rightarrow> string \<Rightarrow> ('d env \<times> http_request) list \<Rightarrow> 'd world \<Rightarrow> bool" where
  "unforged C key reqs w0 \<longleftrightarrow>
     (\<forall>pre E req post. reqs = pre @ (E, req) # post \<longrightarrow> cry E = C \<and> secret_key E = key
        \<and> (\<forall>tok. bearer_token (hr_authorization req) = Some tok \<longrightarrow> not_forged C key (set (tokens_sent pre w0)) tok))"

text \<open>An earlier login of the history from which an identity stems.\<close>

definition from_login :: "('d env \<times> http_request) list \<Rightarrow> 'd world \<Rightarrow> string \<Rightarrow> string \<Rightarrow> string \<Rightarrow> bool" where
  "from_login reqs w0 uid role tokenid \<longleftrightarrow>
     (\<exists>pre E req post. reqs = pre @ (E, req) # post \<and> logged_in_as E (serve_all pre w0) (hr_body req) uid role
        \<and> tokenid = newTokenId (random E 0))"

lemma from_login_later: "from_login reqs w0 uid role tid \<Longrightarrow> from_login (reqs @ [x]) w0 uid role tid"
  by (fastforce simp: from_login_def)

lemma unforged_earlier: "unforged C key (reqs @ [x]) w0 \<Longrightarrow> unforged C key reqs w0"
  unfolding unforged_def by fastforce

lemma unforged_last:
  assumes "unforged C key (reqs @ [(E, req)]) w0"
  shows "cry E = C" and "secret_key E = key"
    and "bearer_token (hr_authorization req) = Some tok \<Longrightarrow> not_forged C key (set (tokens_sent reqs w0)) tok"
  using assms unfolding unforged_def by blast+

definition token_origin :: "('d env \<times> http_request) list \<Rightarrow> 'd world \<Rightarrow> string \<Rightarrow> bool" where
  "token_origin reqs w0 t \<longleftrightarrow>
     (\<forall>uid role tid ts. split_on CHR ''.'' (B64Decode (authenticated_part t)) = [uid, role, tid, ts]
        \<longrightarrow> from_login reqs w0 uid role tid)"

lemma identity_origin:
  assumes "unforged C key (reqs @ [(E, req)]) w0" and "\<forall>t \<in> set (tokens_sent reqs w0). token_origin reqs w0 t"
    and "identified E s (hr_authorization req) u"
  shows "from_login reqs w0 (UadUid u) (UadRole u) (UadTokenId u)
    \<and> UadSecretKey u = UserKeyFromMasterSecret C key (UadUid u) (UadRole u)"
proof -
  from assms(3) obtain tok where t: "bearer_token (hr_authorization req) = Some tok"
    "UADFromToken C tok key = Some u"
    using unforged_last(1,2) [OF assms(1)] by (auto simp: identified_def)
  from UADFromToken_not_forged [OF unforged_last(3) [OF assms(1) t(1)] t(2)] assms(2) show ?thesis
    by (fastforce simp: token_origin_def token_uad_def)
qed

lemma token_origin_later: "token_origin reqs w0 t \<Longrightarrow> token_origin (reqs @ [x]) w0 t"
  by (auto simp: token_origin_def intro: from_login_later)

lemma issued_origin:
  "from_login reqs w0 uid role tid \<Longrightarrow> token_origin reqs w0 (Token (tokenResponse E uid role tid))"
  by (auto simp: token_origin_def tokenResponse_def dest!: issued_fields(1))

lemma tokens_sent_origin:
  "unforged C key reqs w0 \<Longrightarrow> t \<in> set (tokens_sent reqs w0) \<Longrightarrow> token_origin reqs w0 t"
proof (induction reqs arbitrary: t rule: serve_all_induct)
  case (served reqs E req)
  note IH = served.IH [OF unforged_earlier [OF served.prems(1)]]
  from served.prems(2) consider "t \<in> set (tokens_sent reqs w0)"
    | r where "snd (ServeHTTP E req (serve_all reqs w0)) = Inr (HttpOk (TokenBody r))" "t = Token r"
    by (auto simp: tokens_sent_snoc reply_tokens_iff)
  then show ?case
  proof cases
    case 1
    with IH show ?thesis by (blast intro: token_origin_later)
  next
    case 2
    from request_token [OF 2(1)] show ?thesis
    proof
      assume "token_of_login E (serve_all reqs w0) req r"
      then obtain uid role where "logged_in_as E (serve_all reqs w0) (hr_body req) uid role"
        "r = tokenResponse E uid role (newTokenId (random E 0))" by (auto simp: token_of_login_def)
      with 2(2) issued_origin show ?thesis by (fastforce simp: from_login_def)
    next
      assume "token_of_refresh E (serve_all reqs w0) req r"
      then obtain u where "identified E (sessions (serve_all reqs w0)) (hr_authorization req) u"
        "r = tokenResponse E (UadUid u) (UadRole u) (UadTokenId u)" by (auto simp: token_of_refresh_def)
      with identity_origin [OF served.prems(1)] IH 2(2) show ?thesis
        by (blast intro: issued_origin from_login_later)
    qed
  qed
qed simp

text \<open>
  Property C28. An identity is that of a user who logged in: over any history of requests in
  which no client makes up a code, the identity with which the server recognises a caller
  has the uid and the role that one stored user had when an earlier request presented this
  user's password, and the token id drawn for that login, across any number of refreshes;
  and its key is the one derived for that uid and role. So nobody is served as a system user
  unless a stored system user logged in.
\<close>

theorem identity_has_login:
  assumes "unforged C key (reqs @ [(E, req)]) w0"
    and "identified E (sessions (serve_all reqs w0)) (hr_authorization req) uad"
  shows "from_login reqs w0 (UadUid uad) (UadRole uad) (UadTokenId uad)
    \<and> UadSecretKey uad = UserKeyFromMasterSecret C key (UadUid uad) (UadRole uad)"
  using identity_origin [OF assms(1) _ assms(2)] tokens_sent_origin [OF unforged_earlier [OF assms(1)]] by blast

lemma visit_reply: "snd (ServeHTTP visit_env login_request empty_world)
   = Inr (HttpOk (TokenBody (tokenResponse visit_env ''0x3'' ''user'' ann_token)))"
proof -
  have d: "ServeHTTP visit_env login_request empty_world = dispatch visit_env login_request [[], ''auth'', ''login''] None empty_world"
    by (rule ServeHTTP_dispatches [OF login_request_simps(1,2,3) _ _ login_request_simps(4)])
      (simp_all add: allow_list_def admin_list_def)
  have "stored_user visit_env empty_world \<lparr>LR_Username = ''ann'', LR_Password = ''pw''\<rparr> stored_ann"
    by (simp add: stored_user_def visit_env_simps stored_ann_simps)
  moreover have "VerifyPasswordHash toy_crypto (HashPassword toy_crypto ''pw'' ''salt'') ''pw''"
    by (auto simp: VerifyPasswordHash_char)
  ultimately have "snd (handle_login visit_env [] None empty_world)
      = Inr (Inr (TokenBody (tokenResponse visit_env ''0x3'' ''user'' ann_token)))"
    using handle_login_apply [OF visit_env_simps(1) _ _ stored_ann_simps(3,2), of empty_world "[]" None]
    by (simp add: LoginRequest_Validate_def visit_env_simps stored_ann_simps)
  then show ?thesis
    unfolding d by (simp add: dispatch_def index_go_def act_simps route_handler_def AuthAPI_HandleRequest_def
        login_request_def act_bind_def http_result_def)
qed

theorem identity_has_login_witness:
  "from_login [(visit_env, login_request)] empty_world ''0x3'' ''user'' ann_token"
proof -
  let ?t = "tokenResponse visit_env ''0x3'' ''user'' ann_token"
  have sent: "tokens_sent [(visit_env, login_request)] empty_world = [Token ?t]"
    by (simp add: visit_reply reply_tokens_def)
  have tok: "tok = Token ?t" if "bearer_token (hr_authorization listing_request) = Some tok" for tok
    using that by (simp add: listing_request_def bearer_def tokenResponse_def bearer_token_roundtrip [simplified]
        ConstructToken_no_space)
  have nf: "not_forged (cry visit_env) (secret_key visit_env) {Token ?t} (Token ?t)"
    by (auto simp: not_forged_def authenticated_part_def)
  have "unforged (cry visit_env) (secret_key visit_env) ([(visit_env, login_request)] @ [(visit_env, listing_request)]) empty_world"
    unfolding unforged_def
  proof (intro allI impI)
    fix pre E req "post"
    assume "[(visit_env, login_request)] @ [(visit_env, listing_request)] = pre @ (E, req) # post"
    then consider "pre = []" "E = visit_env" "req = login_request"
      | "pre = [(visit_env, login_request)]" "E = visit_env" "req = listing_request"
      by (auto simp: Cons_eq_append_conv)
    then show "cry E = cry visit_env \<and> secret_key E = secret_key visit_env \<and>
      (\<forall>tok. bearer_token (hr_authorization req) = Some tok \<longrightarrow>
        not_forged (cry visit_env) (secret_key visit_env) (set (tokens_sent pre empty_world)) tok)"
    proof cases
      case 1
      then show ?thesis by (simp add: login_request_def bearer_token_def)
    next
      case 2
      with nf tok sent show ?thesis by (metis list.set(1) list.simps(15))
    qed
  qed
  moreover have "UsmCheckTokenId (sessions (serve_all [(visit_env, login_request)] empty_world)) ''0x3'' ann_token"
    by (simp add: serve_all_def visit_login usm_simps)
  then have "identified visit_env (sessions (serve_all [(visit_env, login_request)] empty_world))
      (hr_authorization listing_request) ann_session"
    unfolding authenticate_Some [symmetric] by (simp add: ann_recognised)
  ultimately show ?thesis
    using identity_has_login [of "cry visit_env" "secret_key visit_env" "[(visit_env, login_request)]"]
    by (metis ann_session_simps(1,3) session_of_def token_uad_def UserAuthData.select_convs(2))
qed

end
