(* ===== verification/Spec2Isabelle.thy ===== *)
theory Spec2Isabelle
  imports UsmConc SetupProps ClientServer Payloads Identity
begin

text \<open>
  Verification library for Cogged, a backend framework over a graph database.

  \<^bold>\<open>The program.\<close> A client logs in with a name and a password and receives a token. With
  every other request it sends the token. The server (\<open>cmd/cogged/main.go\<close>) checks the
  token, the live session and the route group, and calls a handler of \<open>api/\<close>. A handler
  binds the JSON body to a request (\<open>requests/\<close>); on the way every node and user that the
  body names is given by its \<^emph>\<open>authorisation data\<close> (AD), a text with owner, share group,
  permission bits and uid that the server has sealed under a key of the caller's own
  (\<open>security/\<close>, \<open>models/\<close>), and the permission that the operation needs is checked there.
  The handler then queries or writes the database (\<open>services/db.go\<close>), and its response goes
  through the output filter (\<open>responses/\<close>), which drops unreadable nodes, removes private
  data and seals new ADs. The session manager (\<open>state/user.go\<close>), a goroutine that owns the
  live token ids and the share groups granted to each user, is asked by the server, by the
  permission checks and by the output filter, and changed by login, logout and sharing.

  \<^bold>\<open>Theories and code.\<close> Definitions have the names of the functions, types and methods that
  they translate; where a handler or a loop is long, its parts have names of their own.

  \<^item> \<open>Prelude\<close>: computations that may panic (\<open>go\<close>, \<open>go_bind\<close>, \<open>deref\<close>, \<open>index_go\<close>), Go maps
    as association lists, and the theorem collections. \<open>GoStrings\<close>: the operations of Go's
    \<open>strings\<close>, \<open>strconv\<close> and \<open>utf8\<close> packages in use, on byte strings.
  \<^item> \<open>Crypto\<close>: \<open>security/crypto.go\<close>. \<open>Auth\<close>: \<open>security/auth.go\<close>. The locale \<open>text_codec\<close>
    states what the users of base64 rely on, interpreted on \<open>B64Encode\<close> and \<open>B64Decode\<close>.
  \<^item> \<open>Usm\<close>: \<open>state/user.go\<close> as one call after the other; \<open>usm_handle\<close> is one turn of the
    server loop and the wrappers are functions on the state \<open>usm\<close>. The locales
    \<open>share_registry\<close> and \<open>session_store\<close> are the interfaces that handlers rely on.
    \<open>UsmConc\<close>: the same manager with concurrent callers, as a step relation on \<open>system\<close>
    whose steps are the sends and receives on the unbuffered channels.
  \<^item> \<open>Node\<close>, \<open>NodeAuthz\<close>, \<open>NodeTree\<close>: \<open>models/\<close>; nodes and users as mutually recursive
    datatypes over records of attributes, sealing and unpacking of ADs, permission bits,
    redaction. The locale \<open>sealed_text\<close> is the contract of a sealed AD.
  \<^item> \<open>Requests\<close>: \<open>requests/\<close>. \<open>Responses\<close>: \<open>responses/\<close>.
  \<^item> \<open>Dql\<close>, \<open>Query\<close>: the query compiler of \<open>services/db.go\<close>, to the exact query text and the
    list of bound variables. \<open>World\<close>: the shared state (database and sessions) and actions
    on it. \<open>Upsert\<close>, \<open>UserDb\<close>: the writing operations and the user queries of
    \<open>services/db.go\<close>, each with the mutation that it sends.
  \<^item> \<open>Api\<close>, \<open>ApiGraph\<close>, \<open>ApiUser\<close>: \<open>api/\<close>, every route of every handler. \<open>Server\<close>: the HTTP
    handler, adding a user and loading the key, in \<open>cmd/cogged/main.go\<close>.
  \<^item> \<open>Setup\<close>: \<open>log/log.go\<close>, \<open>services/config.go\<close>, \<open>services/dbsetup.go\<close>, connecting and
    updating the schema in \<open>services/db.go\<close>, and \<open>main\<close>. \<open>Client\<close>: \<open>client/apiclient.go\<close>.

  \<^bold>\<open>What the lemmas show.\<close>

  \<^item> Authorisation: an AD is accepted exactly when it is authentic and grants what is asked
    (\<open>NodeAuthz\<close>), a token speaks for the identity it was issued for (\<open>Auth\<close>), requests
    that pass the binding are authorised in every part (\<open>Requests\<close>, \<open>NodeAuthz\<close>), and the output filter returns exactly what the caller
    may read (\<open>Responses\<close>, \<open>NodeTree\<close>).
  \<^item> Queries: the compiler prints an abstract filter with its values bound, contributes no
    client text outside a safe alphabet, names no forbidden field, and ends every query in
    the read rule, which a database that evaluates its clauses as documented reads as the
    rule of the output filter (\<open>Query\<close>, \<open>QueryText\<close>, \<open>Dql\<close>).
  \<^item> Writing: which lists are accepted, what is reported, which edges change (\<open>UpsertProps\<close>),
    the mutations of creation, typed at every depth, and of update, which forwards what its
    check does not look at (\<open>Payloads\<close>), ownership of new nodes, user records (\<open>ApiProps\<close>).
  \<^item> The session manager: it refines two sets of pairs (\<open>Usm\<close>); under concurrent callers it
    refines one object on these sets on which every call takes effect at once (\<open>object_of\<close>),
    is free of deadlock, and serves the pending calls in a bounded number of steps
    (\<open>UsmConc\<close>; \<open>work\<close> is the measure).
  \<^item> The server: what gets through to a handler and how a session lives (\<open>ServerProps\<close>); what
    a request can change: \<open>Effects\<close> proves once, in a chain of locales, that all operations
    keep a relation between worlds that ignores the database, the sessions or the grants,
    and \<open>Sessions\<close> and \<open>Grants\<close> interpret them. Over any sequence of requests
    (\<open>serve_all\<close>) every session has been logged in for, every grant has a cause among the
    share and listing requests, and the maps are well formed (\<open>Grants\<close>); every identity that
    the server recognises is that of a user who logged in with this role (\<open>Identity\<close>);
    \<open>Sharing\<close> gives the exact effect of sharing.
  \<^item> Start-up: what a listening server starts with, and that the schema converges
    (\<open>SetupProps\<close>). Client and server together: a login and logout through the client
    (\<open>ClientServer\<close>).
  \<^item> Departures from what comments and names promise: \<open>Findings\<close>, and single properties of
    \<open>Payloads\<close>, \<open>Sharing\<close>, \<open>SetupProps\<close> and \<open>ClientServer\<close>.

  \<^bold>\<open>Parameters and hypotheses.\<close> What is not code of the repository is an argument. The record
  \<open>crypto\<close> holds the digest, key derivation and cipher primitives; theorems assume of them at
  most the length and the distinctness of digests, and, where they say who may hold a token,
  that no client makes up an authentication code (\<open>not_forged\<close>). Random bytes, clocks, the
  shortest rendering of a float and the iteration order of maps (\<open>runtime\<close>, \<open>grant_order\<close>) are functions; of an order theorems
  assume that it permutes its argument. The database is \<open>dgraph\<close> for queries and mutations and
  \<open>dgraph_client\<close> for the schema, with an arbitrary state and arbitrary answers, failures
  included; convergence of the schema assumes that an accepted schema is reported, and how the
  database evaluates the text of a filter is a parameter \<open>holds\<close> with the documented meaning of
  the clauses that the program writes (\<open>documented_clauses\<close>, \<open>documented_connectives\<close>). JSON
  decoding of a body is a field of \<open>decoders\<close>, and a reply is the Go value that is marshalled.
  The operating system at start-up is \<open>host\<close>, the network of the client is a \<open>transport\<close>.

  \<^bold>\<open>Panics and integers.\<close> A panic is a value, so that it is known where the code may panic and
  what it has done before. The parsers of \<open>strconv\<close> have their 64-bit cut-offs written out,
  differences of time stamps wrap at 64 bits. No definition uses
  fuel: all loops of the code run over finite data, and the server loop is a step relation.

  \<^bold>\<open>Not modelled.\<close> Encoding and decoding of JSON, HTTP parsing and the gRPC client are
  libraries. Log output other than the start-up line has no effect on a result and is left out
  of the actions. Parsing of command line flags is the standard library's; its result is the
  record \<open>flags\<close>. \<open>Effects\<close>, \<open>Grants\<close> and \<open>Identity\<close> let requests run one after the other; handlers
  running at the same time are covered as far as they meet in the session manager
  (\<open>UsmConc\<close>), but interleavings of their database calls are not. \<open>services/dbtest\<close> only drives
  a container library for integration tests, \<open>NewDBWithClient\<close> serves tests,
  \<open>spec\<close> has no code, and the TypeScript client is another program.
\<close>

end
